(* ===== verification/Go_Prelude.thy ===== *)
theory Go_Prelude
  imports Complex_Main "HOL-Library.Multiset" "HOL-Library.Sublist" "HOL-Library.Code_Target_Nat"
begin

text \<open>
  Shared ground of the development: the lemma collections, Go's 64-bit signed integers with their
  wrap-around and truncated division, and the sort package. \<open>stable_sort\<close> is
  \<open>sort.SliceStable\<close>; the contract that package documents for a comparator is the locale
  \<open>go_less\<close>, which each comparator of the program interprets.
\<close>

named_theorems go_arith "64-bit arithmetic inside its range"
named_theorems go_substr "contiguous substrings kept by an operation"

section \<open>int64\<close>

definition wrap64 :: "int \<Rightarrow> int" where
  "wrap64 x = (x + 2 ^ 63) mod 2 ^ 64 - 2 ^ 63"

definition in64 :: "int \<Rightarrow> bool" where
  "in64 x \<longleftrightarrow> - (2 ^ 63) \<le> x \<and> x < 2 ^ 63"

lemma wrap64_id [go_arith]: "in64 x \<Longrightarrow> wrap64 x = x"
  by (simp add: wrap64_def in64_def)

lemma in64_wrap64 [simp]: "in64 (wrap64 x)"
proof -
  have "0 \<le> (x + 2 ^ 63) mod 2 ^ 64" "(x + 2 ^ 63) mod 2 ^ 64 < (2::int) ^ 64"
    by (auto intro: pos_mod_sign pos_mod_bound)
  then show ?thesis by (simp add: wrap64_def in64_def)
qed

lemma wrap64_wrap64_add [simp]: "wrap64 (wrap64 x + y) = wrap64 (x + y)"
proof -
  have "wrap64 x + y + 2 ^ 63 = (x + 2 ^ 63) mod 2 ^ 64 + y" by (simp add: wrap64_def)
  then have "wrap64 (wrap64 x + y) = ((x + 2 ^ 63) + y) mod 2 ^ 64 - 2 ^ 63"
    by (metis mod_add_left_eq wrap64_def)
  then show ?thesis by (simp add: wrap64_def algebra_simps)
qed

lemma wrap64_add_wrap64 [simp]: "wrap64 (x + wrap64 y) = wrap64 (x + y)"
  using wrap64_wrap64_add [of y x] by (simp add: add.commute)

lemma in64_0 [simp]: "in64 0"
  by (simp add: in64_def)

lemma in64_between: "0 \<le> x \<Longrightarrow> x \<le> y \<Longrightarrow> in64 y \<Longrightarrow> in64 x"
  by (simp add: in64_def)

text \<open>Go's integer division truncates towards zero.\<close>

definition godiv :: "int \<Rightarrow> int \<Rightarrow> int" where
  "godiv a b = sgn a * sgn b * (\<bar>a\<bar> div \<bar>b\<bar>)"

lemma godiv_nonneg [go_arith]: "0 \<le> a \<Longrightarrow> 0 < b \<Longrightarrow> godiv a b = a div b"
  by (cases "a = 0") (simp_all add: godiv_def)

lemma godiv_sign: "0 \<le> a \<Longrightarrow> 0 < b \<Longrightarrow> 0 \<le> godiv a b"
  by (simp add: godiv_nonneg pos_imp_zdiv_nonneg_iff)

section \<open>The sort package\<close>

fun insort_by :: "('a \<Rightarrow> 'a \<Rightarrow> bool) \<Rightarrow> 'a \<Rightarrow> 'a list \<Rightarrow> 'a list" where
  "insort_by lt x [] = [x]"
| "insort_by lt x (y # ys) = (if lt y x then y # insort_by lt x ys else x # y # ys)"

definition stable_sort :: "('a \<Rightarrow> 'a \<Rightarrow> bool) \<Rightarrow> 'a list \<Rightarrow> 'a list" where
  "stable_sort lt xs = foldr (insort_by lt) xs []"

lemma stable_sort_simps [simp]:
  "stable_sort lt [] = []"
  "stable_sort lt (x # xs) = insort_by lt x (stable_sort lt xs)"
  by (simp_all add: stable_sort_def)

lemma mset_insort_by [simp]: "mset (insort_by lt x xs) = add_mset x (mset xs)"
  by (induction xs) auto

lemma mset_stable_sort [simp]: "mset (stable_sort lt xs) = mset xs"
  by (induction xs) auto

lemma set_insort_by [simp]: "set (insort_by lt x xs) = insert x (set xs)"
  by (metis mset_insort_by set_mset_add_mset_insert set_mset_mset)

lemma set_stable_sort [simp]: "set (stable_sort lt xs) = set xs"
  by (metis mset_stable_sort set_mset_mset)

lemma length_stable_sort [simp]: "length (stable_sort lt xs) = length xs"
  by (metis mset_stable_sort size_mset)

lemma stable_sort_eq_Nil [simp]: "stable_sort lt xs = [] \<longleftrightarrow> xs = []"
  by (metis length_0_conv length_stable_sort)

lemma distinct_map_stable_sort [simp]:
  "distinct (map f (stable_sort lt xs)) \<longleftrightarrow> distinct (map f xs)"
  by (metis mset_eq_imp_distinct_iff mset_map mset_stable_sort)

text \<open>
  The \<open>Less\<close> function handed to package sort must be a strict weak ordering.
\<close>

locale go_less =
  fixes lt :: "'a \<Rightarrow> 'a \<Rightarrow> bool"
  assumes asym: "lt x y \<Longrightarrow> \<not> lt y x"
    and neg_trans: "lt x z \<Longrightarrow> lt x y \<or> lt y z"
begin

definition in_order :: "'a list \<Rightarrow> bool" where
  "in_order xs \<longleftrightarrow> sorted_wrt (\<lambda>x y. \<not> lt y x) xs"

lemma in_order_insort: "in_order xs \<Longrightarrow> in_order (insort_by lt x xs)"
proof (induction xs)
  case Nil
  then show ?case by (simp add: in_order_def)
next
  case (Cons y ys)
  then show ?case
    by (auto simp: in_order_def dest: asym neg_trans)
qed

lemma in_order_stable_sort: "in_order (stable_sort lt xs)"
  by (induction xs) (simp_all add: in_order_def [of "[]"] in_order_insort)

lemma insort_in_order: "in_order (x # xs) \<Longrightarrow> insort_by lt x xs = x # xs"
  by (cases xs) (auto simp: in_order_def)

text \<open>
  Sorting leaves a list that is in order as it is. So every arrangement that an unstable sort may
  return is also what \<open>stable_sort\<close> returns on some permutation of the input.
\<close>

lemma stable_sort_id: "in_order xs \<Longrightarrow> stable_sort lt xs = xs"
proof (induction xs)
  case (Cons x xs)
  then have "in_order xs" by (simp add: in_order_def)
  with Cons show ?case by (simp add: insort_in_order)
qed simp

lemma hd_in_order: "in_order xs \<Longrightarrow> y \<in> set xs \<Longrightarrow> \<not> lt y (hd xs)"
  by (cases xs) (auto simp: in_order_def dest: asym)

lemma hd_stable_sort: "y \<in> set xs \<Longrightarrow> \<not> lt y (hd (stable_sort lt xs))"
  by (rule hd_in_order [OF in_order_stable_sort]) simp

text \<open>Elements the comparator does not separate keep their order.\<close>

lemma filter_insort:
  "in_order xs \<Longrightarrow>
   filter (\<lambda>y. \<not> lt z y \<and> \<not> lt y z) (insort_by lt x xs) =
   (if \<not> lt z x \<and> \<not> lt x z then [x] else []) @ filter (\<lambda>y. \<not> lt z y \<and> \<not> lt y z) xs"
  by (induction xs) (auto simp: in_order_def dest: asym neg_trans)

lemma stable_sort_stable:
  "filter (\<lambda>y. \<not> lt z y \<and> \<not> lt y z) (stable_sort lt xs) = filter (\<lambda>y. \<not> lt z y \<and> \<not> lt y z) xs"
  by (induction xs) (simp_all add: filter_insort in_order_stable_sort)

lemma take_in_order: "in_order xs \<Longrightarrow> in_order (take n xs)"
  using sorted_wrt_take by (simp add: in_order_def)

text \<open>A prefix of a sorted list holds extreme elements.\<close>

lemma take_dominates:
  "in_order xs \<Longrightarrow> x \<in> set (take n xs) \<Longrightarrow> y \<in> set (drop n xs) \<Longrightarrow> \<not> lt y x"
  by (metis append_take_drop_id in_order_def sorted_wrt_append)

end

text \<open>Comparators that compare a key.\<close>

lemma go_less_key: "go_less (\<lambda>x y. (f x :: 'k :: linorder) < f y)"
  by unfold_locales auto

lemma go_less_key_desc: "go_less (\<lambda>x y. (f x :: 'k :: linorder) > f y)"
  by unfold_locales auto

interpretation lin: go_less "(<) :: 'a :: linorder \<Rightarrow> 'a \<Rightarrow> bool"
  by unfold_locales auto

lemma stable_sort_less: "stable_sort (<) xs = sort (xs :: 'a :: linorder list)"
proof (rule properties_for_sort [symmetric])
  show "sorted (stable_sort (<) xs)"
    using lin.in_order_stable_sort [of xs] by (simp add: lin.in_order_def not_less)
qed simp

text \<open>Ranks: how many values lie on either side of one of a list.\<close>

lemma rank_le:
  assumes "i < length xs" "stable_sort (<) xs ! i \<le> (v :: 'a :: linorder)"
  shows "Suc i \<le> length (filter (\<lambda>x. x \<le> v) xs)"
proof -
  let ?s = "stable_sort (<) xs"
  have "x \<le> v" if "x \<in> set (take (Suc i) ?s)" for x
  proof -
    from that obtain j where "j \<le> i" "j < length ?s" "x = ?s ! j"
      by (fastforce simp: in_set_conv_nth less_Suc_eq_le)
    with assms show ?thesis using sorted_nth_mono [of ?s j i] by (simp add: stable_sort_less)
  qed
  then have "filter (\<lambda>x. x \<le> v) (take (Suc i) ?s) = take (Suc i) ?s" by simp
  then have "Suc i \<le> length (filter (\<lambda>x. x \<le> v) (take (Suc i) ?s @ drop (Suc i) ?s))"
    using assms(1) by (simp del: append_take_drop_id)
  also have "\<dots> = length (filter (\<lambda>x. x \<le> v) xs)"
    by (metis append_take_drop_id mset_filter mset_stable_sort size_mset)
  finally show ?thesis .
qed

lemma rank_ge:
  assumes "i < length xs" "v \<le> stable_sort (<) xs ! (i :: nat)"
  shows "length xs - i \<le> length (filter (\<lambda>x. (v :: 'a :: linorder) \<le> x) xs)"
proof -
  let ?s = "stable_sort (<) xs"
  have "v \<le> x" if "x \<in> set (drop i ?s)" for x
  proof -
    from that obtain j where "j < length ?s - i" "x = ?s ! (i + j)"
      unfolding in_set_conv_nth using assms(1) by auto
    then have "i + j < length ?s" "x = ?s ! (i + j)" by simp_all
    with assms show ?thesis using sorted_nth_mono [of ?s i "i + j"] by (simp add: stable_sort_less)
  qed
  then have "filter (\<lambda>x. v \<le> x) (drop i ?s) = drop i ?s" by simp
  then have "length xs - i \<le> length (filter (\<lambda>x. v \<le> x) (take i ?s @ drop i ?s))"
    by (simp del: append_take_drop_id)
  also have "\<dots> = length (filter (\<lambda>x. v \<le> x) xs)"
    by (metis append_take_drop_id mset_filter mset_stable_sort size_mset)
  finally show ?thesis .
qed

section \<open>Lists and options\<close>

text \<open>First occurrence wins: the shape of every de-duplicating loop of the program.\<close>

fun dedupe :: "'a list \<Rightarrow> 'a list \<Rightarrow> 'a list" where
  "dedupe seen [] = []"
| "dedupe seen (x # xs) = (if x \<in> set seen then dedupe seen xs else x # dedupe (x # seen) xs)"

lemma set_dedupe: "set (dedupe seen xs) = set xs - set seen"
  by (induction seen xs rule: dedupe.induct) auto

lemma distinct_dedupe: "distinct (dedupe seen xs)"
  by (induction seen xs rule: dedupe.induct) (auto simp: set_dedupe)

lemma dedupe_id: "distinct xs \<Longrightarrow> set xs \<inter> set seen = {} \<Longrightarrow> dedupe seen xs = xs"
  by (induction seen xs rule: dedupe.induct) auto

lemma length_dedupe: "length (dedupe seen xs) \<le> length xs"
  by (induction seen xs rule: dedupe.induct) auto

end
