(* ===== verification/Go_Strings.thy ===== *)
theory Go_Strings
  imports Go_Prelude
begin

text \<open>
  The parts of Go's packages strings, strconv and fmt that the program calls. A Go string is a byte
  sequence, here a list of \<open>char\<close>. Functions that work on runes (\<open>TrimSpace\<close>,
  \<open>ToLower\<close>, \<open>EqualFold\<close>) name the UTF-8 encodings they treat specially. Case mapping
  covers ASCII and the non-ASCII runes whose case mapping is an ASCII letter, so a comparison with an
  ASCII string is exact; two other non-ASCII letters are compared byte for byte. \<open>Quote\<close>
  leaves non-ASCII bytes as they are.
\<close>

abbreviation byte :: "char \<Rightarrow> nat" where "byte c \<equiv> of_char c"

section \<open>Substrings\<close>

abbreviation HasPrefix :: "string \<Rightarrow> string \<Rightarrow> bool" where "HasPrefix s p \<equiv> prefix p s"
abbreviation HasSuffix :: "string \<Rightarrow> string \<Rightarrow> bool" where "HasSuffix s p \<equiv> suffix p s"
abbreviation Contains :: "string \<Rightarrow> string \<Rightarrow> bool" where "Contains s v \<equiv> sublist v s"

declare sublist_order.order_trans [go_substr]

lemma sublist_append_middle [go_substr, simp]: "sublist v (u @ v @ w)"
  by (simp add: sublist_appendI)

lemma sublist_take [go_substr, simp]: "sublist (take n xs) xs"
  by (simp add: prefix_imp_sublist take_is_prefix)

lemma sublist_drop [go_substr, simp]: "sublist (drop n xs) xs"
  by (simp add: suffix_imp_sublist suffix_drop)

lemma sublist_filter_subset: "sublist v s \<Longrightarrow> set v \<subseteq> set s"
  by (auto simp: sublist_def)

text \<open>A string without a byte \<open>c\<close> that lies in \<open>a @ c # b\<close> lies on one side of \<open>c\<close>.\<close>

lemma sublist_avoid:
  "sublist v (a @ c # b) \<Longrightarrow> c \<notin> set v \<Longrightarrow> sublist v a \<or> sublist v b"
  by (auto simp: sublist_append sublist_Cons_right prefix_Cons)

fun drop_prefix :: "string \<Rightarrow> string \<Rightarrow> string option" where
  "drop_prefix [] s = Some s"
| "drop_prefix (p # ps) [] = None"
| "drop_prefix (p # ps) (x # xs) = (if p = x then drop_prefix ps xs else None)"

lemma drop_prefix_Some: "drop_prefix p s = Some r \<longleftrightarrow> s = p @ r"
  by (induction p s rule: drop_prefix.induct) auto

definition TrimPrefix :: "string \<Rightarrow> string \<Rightarrow> string" where
  "TrimPrefix s p = (case drop_prefix p s of None \<Rightarrow> s | Some r \<Rightarrow> r)"

lemma TrimPrefix_append: "TrimPrefix (p @ r) p = r"
  using drop_prefix_Some [of p "p @ r" r] by (simp add: TrimPrefix_def)

section \<open>Trimming\<close>

text \<open>\<open>unicode.IsSpace\<close>: the encodings of the white-space runes.\<close>

definition space_runes :: "string list" where
  "space_runes =
     [[CHR 0x09], [CHR 0x0A], [CHR 0x0B], [CHR 0x0C], [CHR 0x0D], [CHR 0x20],
      [CHR 0xC2, CHR 0x85], [CHR 0xC2, CHR 0xA0], [CHR 0xE1, CHR 0x9A, CHR 0x80],
      [CHR 0xE2, CHR 0x80, CHR 0x80], [CHR 0xE2, CHR 0x80, CHR 0x81], [CHR 0xE2, CHR 0x80, CHR 0x82],
      [CHR 0xE2, CHR 0x80, CHR 0x83], [CHR 0xE2, CHR 0x80, CHR 0x84], [CHR 0xE2, CHR 0x80, CHR 0x85],
      [CHR 0xE2, CHR 0x80, CHR 0x86], [CHR 0xE2, CHR 0x80, CHR 0x87], [CHR 0xE2, CHR 0x80, CHR 0x88],
      [CHR 0xE2, CHR 0x80, CHR 0x89], [CHR 0xE2, CHR 0x80, CHR 0x8A], [CHR 0xE2, CHR 0x80, CHR 0xA8],
      [CHR 0xE2, CHR 0x80, CHR 0xA9], [CHR 0xE2, CHR 0x80, CHR 0xAF], [CHR 0xE2, CHR 0x81, CHR 0x9F],
      [CHR 0xE3, CHR 0x80, CHR 0x80]]"

fun strip_any :: "string list \<Rightarrow> string \<Rightarrow> string option" where
  "strip_any [] s = None"
| "strip_any (e # es) s = (case drop_prefix e s of None \<Rightarrow> strip_any es s | Some r \<Rightarrow> Some r)"

fun trim_left :: "string list \<Rightarrow> string \<Rightarrow> string" where
  "trim_left es s =
     (case strip_any es s of
        None \<Rightarrow> s
      | Some r \<Rightarrow> if length r < length s then trim_left es r else s)"

declare trim_left.simps [simp del]

definition trim_right :: "string list \<Rightarrow> string \<Rightarrow> string" where
  "trim_right es s = rev (trim_left (map rev es) (rev s))"

definition TrimSpace :: "string \<Rightarrow> string" where
  "TrimSpace s = trim_right space_runes (trim_left space_runes s)"

text \<open>\<open>Trim(s, "/")\<close> and \<open>TrimRight(s, "/")\<close>.\<close>

definition TrimSlash :: "string \<Rightarrow> string" where
  "TrimSlash s = trim_right [''/''] (trim_left [''/''] s)"

definition TrimRightSlash :: "string \<Rightarrow> string" where
  "TrimRightSlash s = trim_right [''/''] s"

lemma strip_any_Some: "strip_any es s = Some r \<Longrightarrow> \<exists>e \<in> set es. s = e @ r"
  by (induction es) (auto simp: drop_prefix_Some split: option.splits)

lemma strip_any_eq_None: "strip_any es s = None \<longleftrightarrow> (\<forall>e \<in> set es. \<not> prefix e s)"
proof (induction es)
  case (Cons e es)
  have "drop_prefix e s = None \<longleftrightarrow> \<not> prefix e s"
    using drop_prefix_Some [of e s] by (cases "drop_prefix e s") (auto simp: prefix_def)
  with Cons show ?case by (auto split: option.splits)
qed simp

lemma suffix_trim_left: "suffix (trim_left es s) s"
proof (induction es s rule: trim_left.induct)
  case (1 es s)
  show ?case
  proof (cases "strip_any es s")
    case (Some r)
    then have "suffix r s" by (auto dest: strip_any_Some simp: suffix_def)
    with Some 1 show ?thesis
      by (auto simp: trim_left.simps [of es s] intro: suffix_order.trans)
  qed (simp add: trim_left.simps)
qed

lemma trim_left_stops: "[] \<notin> set es \<Longrightarrow> strip_any es (trim_left es s) = None"
proof (induction es s rule: trim_left.induct)
  case (1 es s)
  show ?case
  proof (cases "strip_any es s")
    case None
    then show ?thesis by (simp add: trim_left.simps)
  next
    case (Some r)
    with "1.prems" have "length r < length s" by (auto dest!: strip_any_Some)
    with Some 1 show ?thesis by (simp add: trim_left.simps [of es s])
  qed
qed

lemma trim_left_id: "strip_any es s = None \<Longrightarrow> trim_left es s = s"
  by (simp add: trim_left.simps)

lemma prefix_trim_right: "prefix (trim_right es s) s"
  using suffix_trim_left [of "map rev es" "rev s"] by (simp add: trim_right_def suffix_to_prefix)

lemma trim_right_id: "(\<forall>e \<in> set es. \<not> suffix e s) \<Longrightarrow> trim_right es s = s"
  unfolding trim_right_def
  by (subst trim_left_id) (auto simp: strip_any_eq_None suffix_to_prefix)

lemma trim_right_stops: "[] \<notin> set es \<Longrightarrow> e \<in> set es \<Longrightarrow> \<not> suffix e (trim_right es s)"
  using trim_left_stops [of "map rev es" "rev s"]
  by (auto simp: trim_right_def strip_any_eq_None suffix_to_prefix)

lemma trim_both_idem:
  assumes "[] \<notin> set es"
  shows "trim_right es (trim_left es (trim_right es (trim_left es s))) = trim_right es (trim_left es s)"
proof -
  let ?t = "trim_left es s"
  have "strip_any es (trim_right es ?t) = None"
    using trim_left_stops [OF assms, of s] prefix_trim_right [of es ?t]
    by (auto simp: strip_any_eq_None intro: prefix_order.trans)
  then have "trim_left es (trim_right es ?t) = trim_right es ?t" by (rule trim_left_id)
  then show ?thesis
    using trim_right_stops [OF assms] by (simp add: trim_right_id)
qed

lemma sublist_trim: "sublist (trim_right es (trim_left es s)) s"
  by (meson prefix_imp_sublist prefix_trim_right sublist_order.order_trans suffix_imp_sublist
      suffix_trim_left)

lemma TrimSpace_idem [simp]: "TrimSpace (TrimSpace s) = TrimSpace s"
  unfolding TrimSpace_def by (rule trim_both_idem) (simp add: space_runes_def)

lemma sublist_TrimSpace [go_substr, simp]: "sublist (TrimSpace s) s"
  by (simp add: TrimSpace_def sublist_trim)

lemma TrimSpace_Nil [simp]: "TrimSpace [] = []"
  using sublist_TrimSpace [of "[]"] by (simp del: sublist_TrimSpace)

lemma set_TrimSpace: "set (TrimSpace s) \<subseteq> set s"
  by (rule sublist_filter_subset) simp

section \<open>Case folding\<close>

definition lower_byte :: "char \<Rightarrow> char" where
  "lower_byte c = (if 65 \<le> byte c \<and> byte c \<le> 90 then char_of (byte c + 32) else c)"

fun map_runes :: "(string \<times> string) list \<Rightarrow> string \<Rightarrow> string" where
  "map_runes tbl [] = []"
| "map_runes tbl (x # xs) =
     (case find (\<lambda>(e, _). prefix e (x # xs) \<and> e \<noteq> []) tbl of
        None \<Rightarrow> lower_byte x # map_runes tbl xs
      | Some (e, out) \<Rightarrow> out @ map_runes tbl (drop (length e - 1) xs))"

text \<open>
  U+0130 and U+212A are the only non-ASCII runes whose lower case is ASCII; U+017F and U+212A the
  only ones that fold to ASCII.
\<close>

definition ToLower :: "string \<Rightarrow> string" where
  "ToLower = map_runes [([CHR 0xC4, CHR 0xB0], ''i''), ([CHR 0xE2, CHR 0x84, CHR 0xAA], ''k'')]"

definition fold_key :: "string \<Rightarrow> string" where
  "fold_key = map_runes [([CHR 0xC5, CHR 0xBF], ''s''), ([CHR 0xE2, CHR 0x84, CHR 0xAA], ''k'')]"

definition EqualFold :: "string \<Rightarrow> string \<Rightarrow> bool" where
  "EqualFold s t \<longleftrightarrow> fold_key s = fold_key t"

lemma EqualFold_refl [simp]: "EqualFold s s"
  by (simp add: EqualFold_def)

lemma EqualFold_sym: "EqualFold s t \<longleftrightarrow> EqualFold t s"
  by (auto simp: EqualFold_def)

lemma EqualFold_trans: "EqualFold s t \<Longrightarrow> EqualFold t u \<Longrightarrow> EqualFold s u"
  by (simp add: EqualFold_def)

section \<open>Split and Join\<close>

fun split_on :: "char \<Rightarrow> string \<Rightarrow> string list" where
  "split_on c [] = [[]]"
| "split_on c (x # xs) =
     (if x = c then [] # split_on c xs
      else (case split_on c xs of [] \<Rightarrow> [[x]] | y # ys \<Rightarrow> (x # y) # ys))"

fun join :: "string \<Rightarrow> string list \<Rightarrow> string" where
  "join sep [] = []"
| "join sep [x] = x"
| "join sep (x # y # ys) = x @ sep @ join sep (y # ys)"

lemma split_on_not_Nil [simp]: "split_on c s \<noteq> []"
  by (induction s) (auto split: list.splits)

lemma join_Cons: "join sep (x # xs) = x @ (if xs = [] then [] else sep @ join sep xs)"
  by (cases xs) auto

lemma join_split_on [simp]: "join [c] (split_on c s) = s"
proof (induction s)
  case (Cons x xs)
  then show ?case
    by (cases "split_on c xs") (auto simp: join_Cons)
qed simp

lemma split_on_no_sep: "p \<in> set (split_on c s) \<Longrightarrow> c \<notin> set p"
  by (induction s arbitrary: p) (auto split: if_splits list.splits)

lemma split_on_sublist: "p \<in> set (split_on c s) \<Longrightarrow> sublist p s"
proof (induction s arbitrary: p)
  case (Cons x xs)
  show ?case
  proof (cases "x = c")
    case True
    with Cons show ?thesis by (auto simp: sublist_Cons_right)
  next
    case False
    obtain y ys where y: "split_on c xs = y # ys" by (cases "split_on c xs") auto
    then have "prefix y xs"
      using join_split_on [of c xs] by (auto simp: join_Cons prefix_def)
    with False y Cons show ?thesis
      by (auto simp: sublist_Cons_right)
  qed
qed simp

lemma split_on_append_sep [simp]:
  "c \<notin> set p \<Longrightarrow> split_on c (p @ c # s) = p # split_on c s"
  by (induction p) auto

lemma split_on_single [simp]: "c \<notin> set p \<Longrightarrow> split_on c p = [p]"
  by (induction p) auto

lemma split_on_join:
  "xs \<noteq> [] \<Longrightarrow> (\<forall>p \<in> set xs. c \<notin> set p) \<Longrightarrow> split_on c (join [c] xs) = xs"
  by (induction "[c]" xs rule: join.induct) auto

section \<open>Decimal numbers\<close>

definition digit :: "nat \<Rightarrow> char" where
  "digit n = char_of (48 + n)"

definition is_digit :: "char \<Rightarrow> bool" where
  "is_digit c \<longleftrightarrow> 48 \<le> byte c \<and> byte c \<le> 57"

fun show_nat :: "nat \<Rightarrow> string" where
  "show_nat n = (if n < 10 then [digit n] else show_nat (n div 10) @ [digit (n mod 10)])"

declare show_nat.simps [simp del]

definition Itoa :: "int \<Rightarrow> string" where
  "Itoa i = (if i < 0 then ''-'' @ show_nat (nat (- i)) else show_nat (nat i))"

datatype num_error = ErrSyntax | ErrRange

text \<open>\<open>strconv.ParseUint\<close>, base 10: digit by digit, out of range as soon as 64 bits overflow.\<close>

fun digits_val :: "int \<Rightarrow> string \<Rightarrow> num_error + int" where
  "digits_val n [] = Inr n"
| "digits_val n (c # cs) =
     (if \<not> is_digit c then Inl ErrSyntax
      else let n' = n * 10 + int (byte c - 48) in
        if 2 ^ 64 \<le> n' then Inl ErrRange else digits_val n' cs)"

definition ParseInt :: "string \<Rightarrow> num_error + int" where
  "ParseInt s =
     (let neg = prefix ''-'' s;
          ds = (if neg \<or> prefix ''+'' s then tl s else s)
      in if ds = [] then Inl ErrSyntax
         else case digits_val 0 ds of
           Inl e \<Rightarrow> Inl e
         | Inr n \<Rightarrow>
             if neg then (if 2 ^ 63 < n then Inl ErrRange else Inr (- n))
             else (if 2 ^ 63 \<le> n then Inl ErrRange else Inr n))"

lemma byte_digit: "n < 10 \<Longrightarrow> byte (digit n) = 48 + n"
  by (simp add: digit_def)

lemma is_digit_digit [simp]: "n < 10 \<Longrightarrow> is_digit (digit n)"
  by (simp add: is_digit_def byte_digit)

lemma digits_val_append:
  "digits_val a (xs @ ys) =
     (case digits_val a xs of Inl e \<Rightarrow> Inl e | Inr n \<Rightarrow> digits_val n ys)"
  by (induction xs arbitrary: a) (auto simp: Let_def)

lemma digits_val_show: "n < 2 ^ 64 \<Longrightarrow> digits_val 0 (show_nat n) = Inr (int n)"
proof (induction n rule: show_nat.induct)
  case (1 n)
  from "1.prems" have n: "int n < 2 ^ 64" by simp
  show ?case
  proof (cases "n < 10")
    case True
    then show ?thesis by (simp add: show_nat.simps [of n] byte_digit)
  next
    case False
    with 1 have "digits_val 0 (show_nat (n div 10)) = Inr (int (n div 10))" by simp
    moreover have "int (n div 10) * 10 + int (n mod 10) = int n" by presburger
    ultimately show ?thesis
      using False n by (simp add: show_nat.simps [of n] digits_val_append byte_digit del: of_nat_div of_nat_mod)
  qed
qed

lemma show_nat_not_Nil [simp]: "show_nat n \<noteq> []"
  by (subst show_nat.simps) simp

lemma show_nat_digits: "c \<in> set (show_nat n) \<Longrightarrow> is_digit c"
proof (induction n rule: show_nat.induct)
  case (1 n)
  show ?case
  proof (cases "n < 10")
    case True
    with 1(2) show ?thesis by (simp add: show_nat.simps [of n])
  next
    case False
    then have "c \<in> set (show_nat (n div 10)) \<or> c = digit (n mod 10)"
      using 1(2) by (auto simp: show_nat.simps [of n])
    with 1(1) False show ?thesis by (metis is_digit_digit mod_less_divisor zero_less_numeral)
  qed
qed

lemma hd_show_nat: "is_digit (hd (show_nat n))"
  by (rule show_nat_digits [of _ n]) simp

lemma not_digit_sign [simp]: "\<not> is_digit CHR ''-''" "\<not> is_digit CHR ''+''" "\<not> is_digit CHR ''/''"
  by (simp_all add: is_digit_def)

lemma show_nat_no_sign [simp]:
  "\<not> prefix ''-'' (show_nat n)" "\<not> prefix ''+'' (show_nat n)"
  using hd_show_nat [of n] by (auto simp: prefix_def)

lemma ParseInt_show_nat: "n < 2 ^ 63 \<Longrightarrow> ParseInt (show_nat n) = Inr (int n)"
  by (simp add: ParseInt_def digits_val_show Let_def)

theorem ParseInt_Itoa: "in64 i \<Longrightarrow> ParseInt (Itoa i) = Inr i"
proof (cases "i < 0")
  case True
  assume "in64 i"
  with True have "nat (- i) < 2 ^ 64" "- i \<le> 2 ^ 63" by (simp_all add: in64_def nat_less_iff)
  with True show ?thesis
    by (simp add: Itoa_def ParseInt_def digits_val_show)
next
  case False
  assume "in64 i"
  with False have "nat i < 2 ^ 63" by (simp add: in64_def nat_less_iff)
  with False show ?thesis by (simp add: Itoa_def ParseInt_show_nat)
qed

lemma digits_val_nonneg: "digits_val a s = Inr n \<Longrightarrow> 0 \<le> a \<Longrightarrow> 0 \<le> n"
  by (induction s arbitrary: a) (auto simp: Let_def split: if_splits)

lemma ParseInt_in64: "ParseInt s = Inr i \<Longrightarrow> in64 i"
  by (auto simp: ParseInt_def Let_def in64_def split: if_splits sum.splits dest: digits_val_nonneg)

lemma Itoa_chars: "c \<in> set (Itoa i) \<Longrightarrow> is_digit c \<or> c = CHR ''-''"
  by (auto simp: Itoa_def dest: show_nat_digits split: if_splits)

lemma Itoa_no_slash [simp]: "CHR ''/'' \<notin> set (Itoa i)"
  using Itoa_chars [of "CHR ''/''" i] by auto

lemma Itoa_not_Nil [simp]: "Itoa i \<noteq> []"
  by (simp add: Itoa_def)

section \<open>Quoting\<close>

definition hex_digit :: "nat \<Rightarrow> char" where
  "hex_digit n = (if n < 10 then char_of (48 + n) else char_of (87 + n))"

definition hex_byte :: "char \<Rightarrow> string" where
  "hex_byte c = [hex_digit (byte c div 16), hex_digit (byte c mod 16)]"

definition backslash :: char where "backslash = CHR 0x5C"
definition dquote :: char where "dquote = CHR 0x22"

definition quote_byte :: "char \<Rightarrow> string" where
  "quote_byte c =
     (let n = byte c in
      if c = dquote \<or> c = backslash then [backslash, c]
      else if n = 7 then [backslash, CHR ''a'']
      else if n = 8 then [backslash, CHR ''b'']
      else if n = 12 then [backslash, CHR ''f'']
      else if n = 10 then [backslash, CHR ''n'']
      else if n = 13 then [backslash, CHR ''r'']
      else if n = 9 then [backslash, CHR ''t'']
      else if n = 11 then [backslash, CHR ''v'']
      else if n < 32 \<or> n = 127 then [backslash, CHR ''x''] @ hex_byte c
      else [c])"

definition Quote :: "string \<Rightarrow> string" where
  "Quote s = [dquote] @ concat (map quote_byte s) @ [dquote]"

definition num_error_text :: "num_error \<Rightarrow> string" where
  "num_error_text e = (case e of ErrSyntax \<Rightarrow> ''invalid syntax'' | ErrRange \<Rightarrow> ''value out of range'')"

text \<open>\<open>(*strconv.NumError).Error\<close>\<close>

definition NumError_text :: "string \<Rightarrow> string \<Rightarrow> num_error \<Rightarrow> string" where
  "NumError_text fn s e = ''strconv.'' @ fn @ '': parsing '' @ Quote s @ '': '' @ num_error_text e"

text \<open>Printable ASCII without blanks is left alone by the trimming.\<close>

definition visible :: "string \<Rightarrow> bool" where
  "visible s \<longleftrightarrow> list_all (\<lambda>c. 33 \<le> byte c \<and> byte c < 127) s"

lemma visible_no_space: "visible s \<Longrightarrow> e \<in> set space_runes \<Longrightarrow> \<not> sublist e s"
proof
  assume v: "visible s" and e: "e \<in> set space_runes" and s: "sublist e s"
  from e have "e \<noteq> []" "\<exists>c \<in> set e. byte c < 33 \<or> 127 \<le> byte c" by (auto simp: space_runes_def)
  moreover from s have "set e \<subseteq> set s" by (rule sublist_filter_subset)
  ultimately show False using v by (fastforce simp: visible_def list_all_iff)
qed

lemma TrimSpace_visible: "visible s \<Longrightarrow> TrimSpace s = s"
proof -
  assume v: "visible s"
  then have no: "\<not> prefix e s \<and> \<not> suffix e s" if "e \<in> set space_runes" for e
    using visible_no_space [OF v that] prefix_imp_sublist suffix_imp_sublist by blast
  then have "trim_left space_runes s = s" by (intro trim_left_id) (simp add: strip_any_eq_None)
  with no show ?thesis by (simp add: TrimSpace_def trim_right_id)
qed

lemma visible_append [simp]: "visible (s @ t) \<longleftrightarrow> visible s \<and> visible t"
  by (simp add: visible_def)

lemma visible_Cons [simp]: "visible (c # t) \<longleftrightarrow> 33 \<le> byte c \<and> byte c < 127 \<and> visible t"
  and visible_Nil [simp]: "visible []"
  by (simp_all add: visible_def)

lemma visible_show_nat [simp]: "visible (show_nat n)"
  by (auto simp: visible_def list_all_iff is_digit_def dest!: show_nat_digits)

lemma visible_replicate [simp]: "visible (replicate n c) \<longleftrightarrow> n = 0 \<or> (33 \<le> byte c \<and> byte c < 127)"
  by (induction n) auto

end
