(* ===== verification/Go_Time.thy ===== *)
theory Go_Time
  imports Go_Strings "HOL-Library.Monad_Syntax"
begin

text \<open>
  Go's package time, as far as the program uses it: instants as nanoseconds since 1 January of
  year 1 (UTC), saturating differences, the proleptic Gregorian calendar, and the two layouts
  RFC 3339 and 2006-01-02. Formatting is always in UTC, as in the program.
\<close>

section \<open>Instants and durations\<close>

definition second :: int where "second = 1000000000"
definition millisecond :: int where "millisecond = 1000000"

definition max_duration :: int where "max_duration = 2 ^ 63 - 1"
definition min_duration :: int where "min_duration = - (2 ^ 63)"

definition IsZero :: "int \<Rightarrow> bool" where "IsZero t \<longleftrightarrow> t = 0"

text \<open>\<open>t.Sub(u)\<close> saturates.\<close>

definition Sub :: "int \<Rightarrow> int \<Rightarrow> int" where
  "Sub t u = max min_duration (min max_duration (t - u))"

definition Milliseconds :: "int \<Rightarrow> int" where
  "Milliseconds d = godiv d millisecond"

text \<open>\<open>AddDate(0, 0, n)\<close> in UTC, where every day has 24 hours.\<close>

definition day_ns :: int where "day_ns = 86400 * second"

definition AddDays :: "int \<Rightarrow> int \<Rightarrow> int" where
  "AddDays t n = t + n * day_ns"

lemma Sub_in64 [simp]: "in64 (Sub t u)"
  by (simp add: Sub_def in64_def max_duration_def min_duration_def)

lemma Sub_nonneg: "u \<le> t \<Longrightarrow> 0 \<le> Sub t u"
  by (simp add: Sub_def min_duration_def max_duration_def)

lemma Milliseconds_nonneg: "0 \<le> d \<Longrightarrow> 0 \<le> Milliseconds d"
  by (simp add: Milliseconds_def millisecond_def godiv_sign)

lemma Milliseconds_Sub_bounds:
  "u \<le> t \<Longrightarrow> 0 \<le> Milliseconds (Sub t u) \<and> Milliseconds (Sub t u) \<le> 9223372036854"
  using Sub_nonneg [of u t]
  by (auto simp: Milliseconds_def millisecond_def godiv_nonneg pos_imp_zdiv_nonneg_iff)
     (simp add: Sub_def max_duration_def min_duration_def)

section \<open>The calendar\<close>

definition is_leap :: "int \<Rightarrow> bool" where
  "is_leap y \<longleftrightarrow> y mod 4 = 0 \<and> (y mod 100 \<noteq> 0 \<or> y mod 400 = 0)"

definition month_lengths :: "int \<Rightarrow> int list" where
  "month_lengths y = [31, if is_leap y then 29 else 28, 31, 30, 31, 30, 31, 31, 30, 31, 30, 31]"

text \<open>Days from 1 January of year 1 to 1 January of year \<open>y\<close>.\<close>

definition days_before :: "int \<Rightarrow> int" where
  "days_before y = 365 * (y - 1) + (y - 1) div 4 - (y - 1) div 100 + (y - 1) div 400"

definition year_of_day :: "int \<Rightarrow> int \<times> int" where
  "year_of_day n =
     (let n400 = n div 146097; r = n mod 146097;
          n100 = min 3 (r div 36524); r = r - 36524 * n100;
          n4 = r div 1461; r = r mod 1461;
          n1 = min 3 (r div 365); r = r - 365 * n1
      in (1 + 400 * n400 + 100 * n100 + 4 * n4 + n1, r))"

fun month_of_yday :: "int \<Rightarrow> int \<Rightarrow> int list \<Rightarrow> int \<times> int" where
  "month_of_yday m d [] = (m, d + 1)"
| "month_of_yday m d (l # ls) = (if d < l then (m, d + 1) else month_of_yday (m + 1) (d - l) ls)"

definition civil_of_day :: "int \<Rightarrow> int \<times> int \<times> int" where
  "civil_of_day n =
     (case year_of_day n of (y, yd) \<Rightarrow>
        case month_of_yday 1 yd (month_lengths y) of (m, d) \<Rightarrow> (y, m, d))"

definition day_of_civil :: "int \<Rightarrow> int \<Rightarrow> int \<Rightarrow> int" where
  "day_of_civil y m d = days_before y + sum_list (take (nat (m - 1)) (month_lengths y)) + d - 1"

section \<open>RFC 3339\<close>

definition pad :: "nat \<Rightarrow> int \<Rightarrow> string" where
  "pad w n = (if n < 0 then ''-'' else []) @
     (let s = show_nat (nat \<bar>n\<bar>) in replicate (w - length s) (CHR ''0'') @ s)"

definition FormatRFC3339 :: "int \<Rightarrow> string" where
  "FormatRFC3339 t =
     (let s = t div second; sod = s mod 86400 in
      case civil_of_day (s div 86400) of (y, m, d) \<Rightarrow>
        pad 4 y @ ''-'' @ pad 2 m @ ''-'' @ pad 2 d @ ''T'' @
        pad 2 (sod div 3600) @ '':'' @ pad 2 (sod mod 3600 div 60) @ '':'' @ pad 2 (sod mod 60) @ ''Z'')"

definition digit_val :: "char \<Rightarrow> int" where
  "digit_val c = int (byte c) - 48"

fun num_n :: "nat \<Rightarrow> int \<Rightarrow> string \<Rightarrow> (int \<times> string) option" where
  "num_n 0 a s = Some (a, s)"
| "num_n (Suc n) a [] = None"
| "num_n (Suc n) a (c # s) = (if is_digit c then num_n n (10 * a + digit_val c) s else None)"

lemma num_n_code [code]:
  "num_n n a s =
     (if n = 0 then Some (a, s)
      else case s of [] \<Rightarrow> None
        | c # s \<Rightarrow> if is_digit c then num_n (n - 1) (10 * a + digit_val c) s else None)"
  by (cases n; cases s) simp_all

text \<open>The hour of the layout takes one or two digits.\<close>

definition num_hour :: "string \<Rightarrow> (int \<times> string) option" where
  "num_hour s = (case num_n 2 0 s of None \<Rightarrow> num_n 1 0 s | Some r \<Rightarrow> Some r)"

definition skip :: "string \<Rightarrow> string \<Rightarrow> string option" where
  "skip p s = drop_prefix p s"

definition in_range :: "int \<Rightarrow> int \<Rightarrow> int \<Rightarrow> unit option" where
  "in_range lo hi n = (if lo \<le> n \<and> n \<le> hi then Some () else None)"

text \<open>Fractional seconds, accepted after the seconds although the layout has none: at most nine digits count.\<close>

definition parse_fraction :: "string \<Rightarrow> int \<times> string" where
  "parse_fraction s =
     (case s of
        p # c # r \<Rightarrow>
          if (p = CHR ''.'' \<or> p = CHR '','') \<and> is_digit c then
            let ds = takeWhile is_digit (c # r); used = take 9 ds in
            (foldl (\<lambda>a x. 10 * a + digit_val x) 0 used * 10 ^ (9 - length used), drop (length ds) (c # r))
          else (0, s)
      | _ \<Rightarrow> (0, s))"

text \<open>The zone: Z, or a signed hh:mm; the result is the offset in seconds.\<close>

definition parse_zone :: "string \<Rightarrow> (int \<times> string) option" where
  "parse_zone s =
     (if prefix ''Z'' s then Some (0, tl s)
      else case s of
        sign # r \<Rightarrow> do {
          (hh, r) \<leftarrow> num_n 2 0 r;
          r \<leftarrow> skip '':'' r;
          (mm, r) \<leftarrow> num_n 2 0 r;
          in_range 0 24 hh;
          in_range 0 60 mm;
          (if sign = CHR ''+'' then Some ((hh * 60 + mm) * 60, r)
           else if sign = CHR ''-'' then Some (- ((hh * 60 + mm) * 60), r) else None)
        }
      | [] \<Rightarrow> None)"

definition parse_date :: "string \<Rightarrow> (int \<times> int \<times> int \<times> string) option" where
  "parse_date s = do {
     (y, s) \<leftarrow> num_n 4 0 s;
     s \<leftarrow> skip ''-'' s;
     (m, s) \<leftarrow> num_n 2 0 s;
     in_range 1 12 m;
     s \<leftarrow> skip ''-'' s;
     (d, s) \<leftarrow> num_n 2 0 s;
     Some (y, m, d, s)
   }"

definition valid_day :: "int \<Rightarrow> int \<Rightarrow> int \<Rightarrow> unit option" where
  "valid_day y m d = in_range 1 (month_lengths y ! nat (m - 1)) d"

definition ParseRFC3339 :: "string \<Rightarrow> int option" where
  "ParseRFC3339 s = do {
     (y, m, d, s) \<leftarrow> parse_date s;
     s \<leftarrow> skip ''T'' s;
     (h, s) \<leftarrow> num_hour s;
     in_range 0 23 h;
     s \<leftarrow> skip '':'' s;
     (mi, s) \<leftarrow> num_n 2 0 s;
     in_range 0 59 mi;
     s \<leftarrow> skip '':'' s;
     (sec, s) \<leftarrow> num_n 2 0 s;
     in_range 0 59 sec;
     (let (ns, s) = parse_fraction s in do {
       (off, s) \<leftarrow> parse_zone s;
       (if s = [] then Some () else None);
       valid_day y m d;
       Some ((day_of_civil y m d * 86400 + h * 3600 + mi * 60 + sec - off) * second + ns)
     })
   }"

definition ParseDateOnly :: "string \<Rightarrow> int option" where
  "ParseDateOnly s = do {
     (y, m, d, s) \<leftarrow> parse_date s;
     (if s = [] then Some () else None);
     valid_day y m d;
     Some (day_of_civil y m d * day_ns)
   }"

section \<open>Calendar facts\<close>

lemma days_before_split:
  assumes "0 \<le> b" "b \<le> 3" "0 \<le> c" "c \<le> 24" "0 \<le> e" "e \<le> 3"
  shows "days_before (1 + 400 * a + 100 * b + 4 * c + e) = 146097 * a + 36524 * b + 1461 * c + 365 * e"
proof -
  let ?k = "400 * a + 100 * b + 4 * c + e"
  have "?k div 4 = 100 * a + 25 * b + c"
    by (rule int_div_pos_eq [where r = e]) (use assms in auto)
  moreover have "?k div 100 = 4 * a + b"
    by (rule int_div_pos_eq [where r = "4 * c + e"]) (use assms in auto)
  moreover have "?k div 400 = a"
    by (rule int_div_pos_eq [where r = "100 * b + 4 * c + e"]) (use assms in auto)
  moreover have "1 + 400 * a + 100 * b + 4 * c + e - 1 = ?k" by simp
  ultimately show ?thesis unfolding days_before_def by (simp only:) simp
qed

lemma div_bounds:
  assumes "0 < (k :: int)"
  shows "k * (n div k) \<le> n \<and> n < k * (n div k) + k"
proof -
  have "n = k * (n div k) + n mod k" by simp
  with pos_mod_sign [OF assms, of n] pos_mod_bound [OF assms, of n] show ?thesis by linarith
qed

lemma div_less_bound: "(n :: int) < q * k \<Longrightarrow> 0 < k \<Longrightarrow> n div k < q"
  using div_bounds [of k n] by (metis mult.commute mult_less_cancel_right_pos order_le_less_trans)

lemma year_of_day_correct:
  assumes "year_of_day n = (y, r)"
  shows "days_before y + r = n \<and> 0 \<le> r \<and> r < 365 + (if is_leap y then 1 else 0)"
proof -
  define a where "a = n div 146097"
  define r1 where "r1 = n mod 146097"
  define b where "b = min 3 (r1 div 36524)"
  define r2 where "r2 = r1 - 36524 * b"
  define c where "c = r2 div 1461"
  define r3 where "r3 = r2 mod 1461"
  define e where "e = min 3 (r3 div 365)"
  have y: "y = 1 + 400 * a + 100 * b + 4 * c + e" and r: "r = r3 - 365 * e"
    using assms unfolding year_of_day_def Let_def a_def r1_def b_def r2_def c_def r3_def e_def
    by (simp_all only: prod.inject)
  have r1: "0 \<le> r1" "r1 < 146097" and n: "n = 146097 * a + r1"
    by (simp_all add: r1_def a_def)
  have b: "0 \<le> b" "b \<le> 3" "0 \<le> r2" "r2 < 36525" "b < 3 \<Longrightarrow> r2 < 36524"
    using r1 div_bounds [of 36524 r1] unfolding b_def r2_def by (auto simp: min_def split: if_splits)
  have r2: "r2 = 1461 * c + r3" and r3: "0 \<le> r3" "r3 < 1461" by (simp_all add: c_def r3_def)
  then have c: "0 \<le> c" "c \<le> 24" using b by linarith+
  have e: "0 \<le> e" "e \<le> 3" "0 \<le> r" "r < 366" "e < 3 \<Longrightarrow> r < 365"
    using r3 div_bounds [of 365 r3] unfolding e_def r by (auto simp: min_def split: if_splits)
  have "days_before y + r = n"
    using days_before_split [of b c e a] b c e n r y r2 r2_def by simp
  moreover have "is_leap y" if "r = 365"
  proof -
    from that e have "e = 3" by linarith
    with that r have "r3 = 1460" by simp
    with b(2,5) c r2 have "c < 24 \<or> b = 3" by linarith
    have m4: "y mod 4 = 0" using y \<open>e = 3\<close> by presburger
    have m100: "y mod 100 \<noteq> 0" if "c < 24"
    proof -
      have "y = 100 * (4 * a + b) + (4 * c + 4)" using y \<open>e = 3\<close> by simp
      then have "y mod 100 = 4 * c + 4" by (rule int_mod_pos_eq) (use c that in simp_all)
      with c show ?thesis by simp
    qed
    have m400: "y mod 400 = 0" if "b = 3" "c = 24"
    proof -
      have "y = 400 * (a + 1)" using y \<open>e = 3\<close> that by simp
      then show ?thesis by simp
    qed
    show ?thesis
    proof (cases "c < 24")
      case True
      from m4 m100 [OF this] show ?thesis by (simp add: is_leap_def)
    next
      case False
      with c(2) \<open>c < 24 \<or> b = 3\<close> m4 m400 show ?thesis by (simp add: is_leap_def)
    qed
  qed
  ultimately show ?thesis using e by force
qed

lemma month_of_yday_correct:
  "month_of_yday m0 d0 ls = (m, d) \<Longrightarrow> 0 \<le> d0 \<Longrightarrow> d0 < sum_list ls \<Longrightarrow> \<forall>l \<in> set ls. 0 \<le> l \<Longrightarrow>
   m0 \<le> m \<and> m < m0 + int (length ls) \<and> 1 \<le> d \<and> d \<le> ls ! nat (m - m0) \<and>
   sum_list (take (nat (m - m0)) ls) + d - 1 = d0"
proof (induction m0 d0 ls rule: month_of_yday.induct)
  case (2 m0 d0 l ls)
  show ?case
  proof (cases "d0 < l")
    case True
    with 2 show ?thesis by auto
  next
    case False
    with 2 have IH: "m0 + 1 \<le> m \<and> m < m0 + 1 + int (length ls) \<and> 1 \<le> d \<and> d \<le> ls ! nat (m - (m0 + 1)) \<and>
      sum_list (take (nat (m - (m0 + 1))) ls) + d - 1 = d0 - l" by simp
    then have "nat (m - m0) = Suc (nat (m - (m0 + 1)))" by linarith
    with IH show ?thesis by simp
  qed
qed simp

lemma month_lengths_sum: "sum_list (month_lengths y) = 365 + (if is_leap y then 1 else 0)"
  by (simp add: month_lengths_def)

lemma month_lengths_bounds: "l \<in> set (month_lengths y) \<Longrightarrow> 28 \<le> l \<and> l \<le> 31"
  by (auto simp: month_lengths_def split: if_splits)

lemma length_month_lengths [simp]: "length (month_lengths y) = 12"
  by (simp add: month_lengths_def)

theorem civil_of_day_correct:
  assumes "civil_of_day n = (y, m, d)"
  shows "day_of_civil y m d = n \<and> 1 \<le> m \<and> m \<le> 12 \<and> 1 \<le> d \<and> d \<le> month_lengths y ! nat (m - 1) \<and> d \<le> 31"
proof -
  obtain r where yr: "year_of_day n = (y, r)" and m: "month_of_yday 1 r (month_lengths y) = (m, d)"
    using assms by (auto simp: civil_of_day_def split: prod.splits)
  from year_of_day_correct [OF yr] have r: "days_before y + r = n" "0 \<le> r" "r < sum_list (month_lengths y)"
    by (simp_all add: month_lengths_sum)
  have nn: "\<forall>l \<in> set (month_lengths y). 0 \<le> l" using month_lengths_bounds by fastforce
  from month_of_yday_correct [OF m r(2,3) nn]
  have *: "1 \<le> m" "m \<le> 12" "1 \<le> d" "d \<le> month_lengths y ! nat (m - 1)"
    "sum_list (take (nat (m - 1)) (month_lengths y)) + d - 1 = r" by simp_all
  then have "month_lengths y ! nat (m - 1) \<in> set (month_lengths y)" by (intro nth_mem) simp
  then have "d \<le> 31" using *(4) month_lengths_bounds by fastforce
  with * r show ?thesis by (simp add: day_of_civil_def)
qed

section \<open>What is printed is parsed\<close>

lemma num_n_append:
  "\<forall>c \<in> set p. is_digit c \<Longrightarrow>
   num_n (length p) a (p @ s) = Some (foldl (\<lambda>x c. 10 * x + digit_val c) a p, s)"
  by (induction p arbitrary: a) auto

lemma foldl_replicate_0: "foldl (\<lambda>x c. 10 * x + digit_val c) 0 (replicate k (CHR ''0'')) = 0"
  by (induction k) (auto simp: digit_val_def)

lemma foldl_show_nat: "foldl (\<lambda>x c. 10 * x + digit_val c) 0 (show_nat n) = int n"
proof (induction n rule: show_nat.induct)
  case (1 n)
  show ?case
  proof (cases "n < 10")
    case True
    then show ?thesis by (simp add: show_nat.simps [of n] digit_val_def byte_digit)
  next
    case False
    moreover have "10 * int (n div 10) + int (n mod 10) = int n" by presburger
    ultimately show ?thesis
      using 1 by (simp add: show_nat.simps [of n] digit_val_def byte_digit del: of_nat_div of_nat_mod)
  qed
qed

lemma length_show_nat: "n < 10 ^ w \<Longrightarrow> 0 < w \<Longrightarrow> length (show_nat n) \<le> w"
proof (induction n arbitrary: w rule: show_nat.induct)
  case (1 n)
  show ?case
  proof (cases "n < 10")
    case True
    with 1 show ?thesis by (simp add: show_nat.simps [of n])
  next
    case False
    with "1.prems" obtain v where w: "w = Suc v" "0 < v" by (cases w; cases "w - 1") auto
    with "1.prems" have "n div 10 < 10 ^ v" by (simp add: less_mult_imp_div_less)
    with 1 False w have "length (show_nat (n div 10)) \<le> v" by blast
    with False w show ?thesis by (simp add: show_nat.simps [of n])
  qed
qed

text \<open>A padded field of the right width is read back.\<close>

lemma num_n_pad:
  assumes "0 \<le> n" "n < 10 ^ w" "0 < w"
  shows "num_n w 0 (pad w n @ s) = Some (n, s)"
proof -
  let ?p = "pad w n"
  have "nat n < 10 ^ w" using assms(1,2) by (simp add: nat_less_iff)
  then have "length (show_nat (nat n)) \<le> w" using assms(3) by (rule length_show_nat)
  then have len: "length ?p = w" using assms(1) by (simp add: pad_def Let_def)
  have "\<forall>c \<in> set ?p. is_digit c"
    using assms(1) by (auto simp: pad_def Let_def is_digit_def dest: show_nat_digits)
  from num_n_append [OF this, of 0 s] len show ?thesis
    using assms(1) by (simp add: pad_def Let_def foldl_replicate_0 foldl_show_nat)
qed

lemma skip_append [simp]: "skip p (p @ s) = Some s"
  by (simp add: skip_def drop_prefix_Some)

lemma skip_char [simp]: "skip [c] (c # s) = Some s"
  by (simp add: skip_def)

lemma parse_date_pad:
  assumes "0 \<le> y" "y \<le> 9999" "1 \<le> m" "m \<le> 12" "1 \<le> d" "d \<le> 31"
  shows "parse_date (pad 4 y @ ''-'' @ pad 2 m @ ''-'' @ pad 2 d @ s) = Some (y, m, d, s)"
  using assms by (simp add: parse_date_def num_n_pad in_range_def del: append_assoc flip: append_assoc)

lemma days_before_mono: "y \<le> z \<Longrightarrow> days_before y \<le> days_before z"
proof -
  assume le: "y \<le> z"
  have "(z - 1) div 100 \<le> (y - 1) div 100 + (z - y)"
  proof -
    have "(z - 1) div 100 \<le> ((y - 1) + (z - y) * 100) div 100"
      by (rule zdiv_mono1) (use le in simp_all)
    then show ?thesis by simp
  qed
  moreover have "(y - 1) div 4 \<le> (z - 1) div 4" "(y - 1) div 400 \<le> (z - 1) div 400"
    using le by (simp_all add: zdiv_mono1)
  ultimately have "365 * (y - 1) + a4 - a100 + a400 \<le> 365 * (z - 1) + b4 - b100 + b400"
    if "a4 = (y - 1) div 4" "a100 = (y - 1) div 100" "a400 = (y - 1) div 400"
      "b4 = (z - 1) div 4" "b100 = (z - 1) div 100" "b400 = (z - 1) div 400" for a4 a100 a400 b4 b100 b400
    unfolding that [symmetric] using le by (simp add: algebra_simps)
  then show ?thesis unfolding days_before_def by blast
qed

lemma civil_year_bounds:
  assumes "civil_of_day n = (y, m, d)" "0 \<le> n" "n < 3652059"
  shows "1 \<le> y \<and> y \<le> 9999"
proof -
  obtain r where "year_of_day n = (y, r)"
    using assms by (auto simp: civil_of_day_def split: prod.splits)
  from year_of_day_correct [OF this] have r: "days_before y + r = n" "0 \<le> r" "r < 366"
    by (auto split: if_splits)
  have "days_before 0 = - 366" "days_before 10000 = 3652059" by (simp_all add: days_before_def)
  with r assms(2,3) days_before_mono [of y 0] days_before_mono [of 10000 y] show ?thesis by linarith
qed

text \<open>The first instant that needs a five-digit year.\<close>

definition end_of_9999 :: int where "end_of_9999 = 3652059 * day_ns"

text \<open>The fields of an instant inside the day.\<close>

lemma clock_fields:
  assumes "0 \<le> (n :: int)" "n < 86400"
  obtains h mi se where "h = n div 3600" "mi = n mod 3600 div 60" "se = n mod 60"
    "0 \<le> h" "h \<le> 23" "0 \<le> mi" "mi \<le> 59" "0 \<le> se" "se \<le> 59" "h * 3600 + mi * 60 + se = n"
proof (rule that [OF refl refl refl])
  show "0 \<le> n div 3600" "n div 3600 \<le> 23" using assms div_bounds [of 3600 n] by linarith+
  show "0 \<le> n mod 3600 div 60" "n mod 3600 div 60 \<le> 59"
    using pos_mod_bound [of 3600 n] pos_mod_sign [of 3600 n] div_bounds [of 60 "n mod 3600"] by linarith+
  show "0 \<le> n mod 60" by (rule pos_mod_sign) simp
  show "n mod 60 \<le> 59" using pos_mod_bound [of 60 n] by linarith
  have "n mod 3600 mod 60 = n mod 60" by (rule mod_mod_cancel) simp
  then show "n div 3600 * 3600 + n mod 3600 div 60 * 60 + n mod 60 = n"
    using div_mult_mod_eq [of n 3600] div_mult_mod_eq [of "n mod 3600" 60] by linarith
qed

lemma num_hour_pad: "0 \<le> h \<Longrightarrow> h \<le> 23 \<Longrightarrow> num_hour (pad 2 h @ r) = Some (h, r)"
  by (simp add: num_hour_def num_n_pad)

text \<open>What the layout reads back, field by field.\<close>

lemma ParseRFC3339_fields:
  assumes "0 \<le> y" "y \<le> 9999" "1 \<le> m" "m \<le> 12" "1 \<le> d" "d \<le> 31"
    and "d \<le> month_lengths y ! nat (m - 1)"
    and "0 \<le> h" "h \<le> 23" "0 \<le> mi" "mi \<le> 59" "0 \<le> se" "se \<le> 59"
  shows "ParseRFC3339 (pad 4 y @ ''-'' @ pad 2 m @ ''-'' @ pad 2 d @ ''T'' @
      pad 2 h @ '':'' @ pad 2 mi @ '':'' @ pad 2 se @ ''Z'') =
    Some ((day_of_civil y m d * 86400 + h * 3600 + mi * 60 + se) * second)"
proof -
  have "num_n 2 0 (pad 2 mi @ r) = Some (mi, r)" "num_n 2 0 (pad 2 se @ r) = Some (se, r)" for r
    using assms by (simp_all add: num_n_pad)
  moreover have "parse_fraction ''Z'' = (0, ''Z'')" "parse_zone ''Z'' = Some (0, [])"
    by (simp_all add: parse_fraction_def parse_zone_def)
  ultimately show ?thesis
    unfolding ParseRFC3339_def using assms
    by (simp only: parse_date_pad num_hour_pad skip_append in_range_def valid_day_def
        Option.bind.bind_lunit prod.case if_True simp_thms Let_def diff_0_right add_0_right)
qed

theorem ParseRFC3339_Format:
  assumes "0 \<le> t" "t < end_of_9999"
  shows "ParseRFC3339 (FormatRFC3339 t) = Some (t - t mod second)"
proof -
  define s where "s = t div second"
  obtain y m d where c: "civil_of_day (s div 86400) = (y, m, d)" by (cases "civil_of_day (s div 86400)")
  have sec: "0 < second" by (simp add: second_def)
  have s: "0 \<le> s" "s < 3652059 * 86400"
    unfolding s_def
    by (rule pos_imp_zdiv_nonneg_iff [THEN iffD2, OF sec assms(1)], rule div_less_bound [OF _ sec])
       (use assms(2) in \<open>simp add: end_of_9999_def day_ns_def\<close>)
  have n: "0 \<le> s div 86400" "s div 86400 < 3652059"
    by (rule pos_imp_zdiv_nonneg_iff [THEN iffD2, OF _ s(1)], simp, rule div_less_bound [OF s(2)], simp)
  from civil_year_bounds [OF c n] have "1 \<le> y" and y9: "y \<le> 9999" by blast+
  then have y0: "0 \<le> y" by linarith
  from civil_of_day_correct [OF c] have md: "1 \<le> m" "m \<le> 12" "1 \<le> d" "d \<le> 31"
    and dl: "d \<le> month_lengths y ! nat (m - 1)" and day: "day_of_civil y m d = s div 86400" by blast+
  define n where "n = s mod 86400"
  have n: "0 \<le> n" "n < 86400" unfolding n_def by (rule pos_mod_sign, simp, rule pos_mod_bound, simp)
  obtain h mi se where f: "h = n div 3600" "mi = n mod 3600 div 60" "se = n mod 60"
    and b: "0 \<le> h" "h \<le> 23" "0 \<le> mi" "mi \<le> 59" "0 \<le> se" "se \<le> 59"
    and sum: "h * 3600 + mi * 60 + se = n"
    by (rule clock_fields [OF n])
  have "ParseRFC3339 (FormatRFC3339 t) = Some ((day_of_civil y m d * 86400 + h * 3600 + mi * 60 + se) * second)"
    unfolding FormatRFC3339_def Let_def s_def [symmetric] c prod.case n_def [symmetric] f [symmetric]
    by (rule ParseRFC3339_fields [OF y0 y9 md dl b])
  also have "day_of_civil y m d * 86400 + h * 3600 + mi * 60 + se = s div 86400 * 86400 + n"
    unfolding day sum [symmetric] by (simp only: add.assoc)
  also have "\<dots> = s"
    unfolding n_def by (rule div_mult_mod_eq)
  also have "s * second = t - t mod second"
    unfolding s_def by (simp only: minus_mod_eq_div_mult)
  finally show ?thesis .
qed

lemma visible_pad [simp]: "visible (pad w n)"
  by (simp add: pad_def Let_def)

lemma FormatRFC3339_visible: "visible (FormatRFC3339 t)" "FormatRFC3339 t \<noteq> []"
proof -
  obtain y m d where "civil_of_day (t div second div 86400) = (y, m, d)"
    by (cases "civil_of_day (t div second div 86400)")
  then show "visible (FormatRFC3339 t)" "FormatRFC3339 t \<noteq> []"
    unfolding FormatRFC3339_def Let_def by (simp_all only: prod.case visible_append visible_pad) simp_all
qed

end
