(* ===== verification/Domain.thy ===== *)
theory Domain
  imports Go_Time
begin

text \<open>
  internal/domain/types.go, internal/providers/types.go and the metric of
  internal/telemetry/collector.go: the records the components exchange.
  Field names carry the type's initials, since HOL record fields share one name space. A Go
  \<open>*T\<close> is an option, \<open>float64\<close> an exact rational (\<open>float64\<close>: no rounding, no
  infinities), \<open>time.Time\<close> the nanoseconds since the zero time (1 January of year 1, UTC),
  and \<open>time.Duration\<close> an \<open>int64\<close> of nanoseconds.
\<close>

type_synonym float64 = rat
type_synonym gotime = int
type_synonym duration = int

section \<open>internal/domain/types.go\<close>

definition ProviderGitHub :: string where "ProviderGitHub = ''github_actions''"

definition ErrorCodeUnauthorized :: string where "ErrorCodeUnauthorized = ''UNAUTHORIZED''"
definition ErrorCodeLogUnavailable :: string where "ErrorCodeLogUnavailable = ''LOG_UNAVAILABLE''"
definition ErrorCodeRateLimited :: string where "ErrorCodeRateLimited = ''RATE_LIMITED''"
definition ErrorCodeInvalidInput :: string where "ErrorCodeInvalidInput = ''INVALID_INPUT''"
definition ErrorCodeProviderUnavailable :: string where
  "ErrorCodeProviderUnavailable = ''PROVIDER_UNAVAILABLE''"
definition ErrorCodeInternal :: string where "ErrorCodeInternal = ''INTERNAL''"

text \<open>The dynamic values a \<open>Details\<close> map holds; the association list keeps one entry per key.\<close>

datatype detail = DString string | DInt int | DStrings "string list"

record ToolError =
  te_Code :: string
  te_Message :: string
  te_Remediation :: string
  te_Retryable :: bool
  te_Details :: "(string \<times> detail) list"

definition NewToolError :: "string \<Rightarrow> string \<Rightarrow> string \<Rightarrow> bool \<Rightarrow> (string \<times> detail) list \<Rightarrow> ToolError" where
  "NewToolError code message remediation retryable details =
     \<lparr>te_Code = code, te_Message = message, te_Remediation = remediation,
      te_Retryable = retryable, te_Details = details\<rparr>"

record PipelineRun =
  pr_Provider :: string
  pr_Repository :: string
  pr_Workflow :: string
  pr_Status :: string
  pr_StartedAt :: string
  pr_CompletedAt :: string
  pr_DurationMS :: int
  pr_QueueTimeMS :: int
  pr_RunURL :: string
  pr_CommitSHA :: string
  pr_RunID :: int
  pr_Conclusion :: string
  pr_FailureReason :: string

record EvidenceRef =
  ev_Source :: string
  ev_Line :: int
  ev_Snippet :: string

record FailureDiagnostic =
  fd_FailureCategory :: string
  fd_SuspectedRootCause :: string
  fd_Confidence :: float64
  fd_EvidenceRefs :: "EvidenceRef list"
  fd_ImpactedJobs :: "string list"

record FixRecommendation =
  fr_RecommendationID :: string
  fr_Description :: string
  fr_ExpectedImpact :: string
  fr_Confidence :: float64
  fr_References :: "string list"

record FlakyTest =
  ft_TestName :: string
  ft_FailureFrequency :: int
  ft_FailureRate :: float64
  ft_Recency :: string
  ft_Confidence :: float64

record FlakyTestReport =
  rp_Repository :: string
  rp_Workflow :: string
  rp_LookbackDays :: int
  rp_ScannedRuns :: int
  rp_FailedRuns :: int
  rp_TopFlaky :: "FlakyTest list"
  rp_GeneratedAt :: string

record WindowMetrics =
  wm_SuccessRate :: float64
  wm_MedianDurationMS :: int
  wm_QueueTimeMS :: int
  wm_FailureBreakdown :: "string \<rightharpoonup> int"
  wm_FlakyTestRate :: float64
  wm_TotalRuns :: int

record WindowDelta =
  wd_SuccessRateChange :: float64
  wd_MedianDurationMSChange :: int
  wd_QueueTimeMSChange :: int
  wd_FlakyTestRateChange :: float64

record PipelinePerformanceSnapshot =
  ps_Repository :: string
  ps_Workflow :: string
  ps_From :: string
  ps_To :: string
  ps_Baseline :: WindowMetrics
  ps_Current :: WindowMetrics
  ps_Delta :: WindowDelta

record RerunResult =
  rr_RunID :: int
  rr_Repository :: string
  rr_Scope :: string
  rr_Status :: string
  rr_Reason :: string
  rr_RequestedAt :: string
  rr_Actor :: string

record AuditEvent =
  ae_EventID :: string
  ae_Tool :: string
  ae_Actor :: string
  ae_Repository :: string
  ae_RunID :: int
  ae_Reason :: string
  ae_Scope :: string
  ae_Timestamp :: string
  ae_Outcome :: string
  ae_Signature :: string

definition MustTimeString :: "gotime option \<Rightarrow> string" where
  "MustTimeString t =
     (case t of None \<Rightarrow> '''' | Some t \<Rightarrow> if IsZero t then '''' else FormatRFC3339 t)"

section \<open>internal/providers/types.go\<close>

record RunLocator =
  rl_Repository :: string
  rl_RunID :: int
  rl_RunURL :: string

record Run =
  run_ID :: int
  run_Name :: string
  run_DisplayTitle :: string
  run_Status :: string
  run_Conclusion :: string
  run_RunURL :: string
  run_HeadSHA :: string
  run_CreatedAt :: gotime
  run_UpdatedAt :: gotime
  run_RunStartedAt :: "gotime option"

record Step =
  step_Name :: string
  step_Status :: string
  step_Conclusion :: string
  step_Number :: int
  step_StartedAt :: "gotime option"
  step_CompletedAt :: "gotime option"

record Job =
  job_ID :: int
  job_Name :: string
  job_Status :: string
  job_Conclusion :: string
  job_HeadBranch :: string
  job_StartedAt :: "gotime option"
  job_CompletedAt :: "gotime option"
  job_RunURL :: string
  job_CheckRunURL :: string
  job_RunnerID :: int
  job_Steps :: "Step list"

record ListRunsOptions =
  lo_PerPage :: int
  lo_Page :: int
  lo_Created :: string
  lo_Branch :: string
  lo_Event :: string
  lo_Status :: string

record CheckRunOutput =
  co_Title :: "string option"
  co_Summary :: "string option"
  co_Text :: "string option"
  co_AnnotationsURL :: string

record DeploymentInfo =
  dp_ID :: int
  dp_Environment :: string
  dp_OriginalEnvironment :: string

record CheckRun =
  cr_ID :: int
  cr_Name :: string
  cr_RunURL :: string
  cr_DetailsURL :: string
  cr_Status :: string
  cr_Conclusion :: string
  cr_Output :: CheckRunOutput
  cr_Deployment :: "DeploymentInfo option"

record CheckRunAnnotation =
  an_Path :: string
  an_StartLine :: int
  an_AnnotationLevel :: string
  an_Title :: string
  an_Message :: string
  an_BlobHref :: string

record BranchPolicy =
  bp_ID :: int
  bp_Name :: string
  bp_Type :: string

section \<open>internal/telemetry/collector.go\<close>

record ToolMetric =
  tm_Calls :: int
  tm_Errors :: int
  tm_P95LatencyMS :: int
  tm_AverageLatencyMS :: int
  tm_ConfidenceSamples :: int
  tm_AverageConfidence :: float64
  tm_LastObservedAt :: string
  tm_latencies :: "int list"
  tm_totalLatency :: int
  tm_confidenceAggregate :: float64

end
