(* ===== verification/Go_Net.thy ===== *)
theory Go_Net
  imports Go_Strings "HOL-Library.List_Lexorder" "HOL-Library.Char_ord" "HOL-Library.Monad_Syntax"
begin

text \<open>
  The parts of Go's packages path, path/filepath and net/url that the program calls: \<open>Clean\<close> and
  \<open>Dir\<close>, \<open>url.Parse\<close> with its checks of the host, port and escapes, and the encoding of query
  values and path segments. Of a URL only the parts the program reads are kept. The text of an
  error about an IP literal between brackets is one fixed string; all the others are the package's own.
\<close>

section \<open>path.Clean and filepath.Dir\<close>

text \<open>The elements that remain, last one first.\<close>

fun clean_step :: "bool \<Rightarrow> string list \<Rightarrow> string \<Rightarrow> string list" where
  "clean_step rooted out e =
     (if e = '''' \<or> e = ''.'' then out
      else if e = ''..'' then
        (case out of
           [] \<Rightarrow> if rooted then [] else [''..'']
         | t # out' \<Rightarrow> if t = ''..'' then ''..'' # out else out')
      else e # out)"

definition Clean :: "string \<Rightarrow> string" where
  "Clean p =
     (let rooted = prefix ''/'' p;
          out = join ''/'' (rev (foldl (clean_step rooted) [] (split_on (CHR ''/'') p)))
      in if rooted then ''/'' @ out else if out = [] then ''.'' else out)"

definition Dir :: "string \<Rightarrow> string" where
  "Dir p = Clean (rev (dropWhile (\<lambda>c. c \<noteq> CHR ''/'') (rev p)))"

section \<open>Escapes\<close>

datatype encoding = encodePath | encodePathSegment | encodeHost | encodeZone
  | encodeUserPassword | encodeQueryComponent | encodeFragment

definition is_alnum :: "char \<Rightarrow> bool" where
  "is_alnum c \<longleftrightarrow> is_digit c \<or> (65 \<le> byte c \<and> byte c \<le> 90) \<or> (97 \<le> byte c \<and> byte c \<le> 122)"

definition shouldEscape :: "char \<Rightarrow> encoding \<Rightarrow> bool" where
  "shouldEscape c mode =
     (if is_alnum c then False
      else if mode \<in> {encodeHost, encodeZone} \<and> c \<in> set ([CHR 0x27, dquote] @ ''!$&()*+,;=:[]<>'') then False
      else if c \<in> set ''-_.~'' then False
      else if c \<in> set ''$&+,/:;=?@'' then
        (case mode of
           encodePath \<Rightarrow> c = CHR ''?''
         | encodePathSegment \<Rightarrow> c \<in> set ''/;,?''
         | encodeUserPassword \<Rightarrow> c \<in> set ''@/?:''
         | encodeFragment \<Rightarrow> False
         | _ \<Rightarrow> True)
      else if mode = encodeFragment \<and> c \<in> set ''!()*'' then False
      else True)"

definition ishex :: "char \<Rightarrow> bool" where
  "ishex c \<longleftrightarrow> is_digit c \<or> (97 \<le> byte c \<and> byte c \<le> 102) \<or> (65 \<le> byte c \<and> byte c \<le> 70)"

definition unhex :: "char \<Rightarrow> nat" where
  "unhex c = (if is_digit c then byte c - 48 else if 97 \<le> byte c then byte c - 87 else byte c - 55)"

definition EscapeError :: "string \<Rightarrow> string" where
  "EscapeError s = ''invalid URL escape '' @ Quote s"

definition InvalidHostError :: "string \<Rightarrow> string" where
  "InvalidHostError s = ''invalid character '' @ Quote s @ '' in host name''"

text \<open>
  The check of the escapes comes before the decoding and stops at the first error, so one pass
  over the string does both.
\<close>

fun unescape :: "encoding \<Rightarrow> string \<Rightarrow> string + string" where
  "unescape mode [] = Inr []"
| "unescape mode (c # s) =
     (if c = CHR ''%'' then
        (case s of
           a # b # r \<Rightarrow>
             let v = char_of (16 * unhex a + unhex b) :: char in
             if \<not> (ishex a \<and> ishex b) then Inl (EscapeError [c, a, b])
             else if mode = encodeHost \<and> unhex a < 8 \<and> [a, b] \<noteq> ''25'' then Inl (EscapeError [c, a, b])
             else if mode = encodeZone \<and> [a, b] \<noteq> ''25'' \<and> v \<noteq> CHR '' '' \<and> shouldEscape v encodeHost
               then Inl (EscapeError [c, a, b])
             else (case unescape mode r of Inl e \<Rightarrow> Inl e | Inr t \<Rightarrow> Inr (v # t))
         | _ \<Rightarrow> Inl (EscapeError (c # s)))
      else if mode \<in> {encodeHost, encodeZone} \<and> byte c < 128 \<and> shouldEscape c mode then
        Inl (InvalidHostError [c])
      else
        (case unescape mode s of
           Inl e \<Rightarrow> Inl e
         | Inr t \<Rightarrow> Inr ((if mode = encodeQueryComponent \<and> c = CHR ''+'' then CHR '' '' else c) # t)))"

definition upper_hex :: "nat \<Rightarrow> char" where
  "upper_hex n = (if n < 10 then char_of (48 + n) else char_of (55 + n))"

definition escape_byte :: "encoding \<Rightarrow> char \<Rightarrow> string" where
  "escape_byte mode c =
     (if shouldEscape c mode then
        if c = CHR '' '' \<and> mode = encodeQueryComponent then ''+''
        else [CHR ''%'', upper_hex (byte c div 16), upper_hex (byte c mod 16)]
      else [c])"

definition escape :: "encoding \<Rightarrow> string \<Rightarrow> string" where
  "escape mode s = concat (map (escape_byte mode) s)"

definition QueryEscape :: "string \<Rightarrow> string" where "QueryEscape = escape encodeQueryComponent"
definition PathEscape :: "string \<Rightarrow> string" where "PathEscape = escape encodePathSegment"

section \<open>url.Parse\<close>

record URL =
  u_Scheme :: string
  u_Opaque :: string
  u_Host :: string
  u_Path :: string

text \<open>The part before the first \<open>c\<close> and, if there is one, the part behind it.\<close>

definition Cut :: "char \<Rightarrow> string \<Rightarrow> string \<times> string option" where
  "Cut c s = (takeWhile (\<lambda>x. x \<noteq> c) s,
     (case dropWhile (\<lambda>x. x \<noteq> c) s of [] \<Rightarrow> None | _ # r \<Rightarrow> Some r))"

text \<open>The part before the last \<open>c\<close>, if there is one, and the part behind it.\<close>

definition CutLast :: "char \<Rightarrow> string \<Rightarrow> string option \<times> string" where
  "CutLast c s = (case Cut c (rev s) of (b, a) \<Rightarrow> (map_option rev a, rev b))"

definition is_letter :: "char \<Rightarrow> bool" where
  "is_letter c \<longleftrightarrow> is_alnum c \<and> \<not> is_digit c"

fun scheme_scan :: "string \<Rightarrow> string \<Rightarrow> (string \<times> string) option" where
  "scheme_scan acc [] = None"
| "scheme_scan acc (c # s) =
     (if is_alnum c \<or> c \<in> set ''+-.'' then scheme_scan (acc @ [c]) s
      else if c = CHR '':'' then Some (acc, s) else None)"

definition getScheme :: "string \<Rightarrow> string + string \<times> string" where
  "getScheme s =
     (case s of
        [] \<Rightarrow> Inr ('''', s)
      | c # _ \<Rightarrow>
          if c = CHR '':'' then Inl ''missing protocol scheme''
          else if \<not> is_letter c then Inr ('''', s)
          else (case scheme_scan [] s of None \<Rightarrow> Inr ('''', s) | Some r \<Rightarrow> Inr r))"

definition validOptionalPort :: "string \<Rightarrow> bool" where
  "validOptionalPort p \<longleftrightarrow> p = [] \<or> (hd p = CHR '':'' \<and> list_all is_digit (tl p))"

definition validUserinfo :: "string \<Rightarrow> bool" where
  "validUserinfo s \<longleftrightarrow> list_all (\<lambda>c. is_alnum c \<or> c = CHR 0x27 \<or> c \<in> set ''-._:~!$&()*+,;=%@'') s"

text \<open>An IPv6 address: eight groups of one to four hex digits, one run of them replaced by \<open>::\<close>.\<close>

definition dotted_quad :: "string \<Rightarrow> bool" where
  "dotted_quad s \<longleftrightarrow>
     (let ps = split_on (CHR ''.'') s in
      length ps = 4 \<and>
      list_all (\<lambda>p. p \<noteq> [] \<and> list_all is_digit p \<and> length p \<le> 3 \<and> (length p = 1 \<or> hd p \<noteq> CHR ''0'') \<and>
        (case ParseInt p of Inl _ \<Rightarrow> False | Inr n \<Rightarrow> n \<le> 255)) ps)"

text \<open>The number of groups of a colon-separated list; a dotted quad at its end counts for two.\<close>

fun hex_groups :: "bool \<Rightarrow> string list \<Rightarrow> nat option" where
  "hex_groups v4 [] = Some 0"
| "hex_groups v4 (g # gs) =
     (if g \<noteq> [] \<and> length g \<le> 4 \<and> list_all ishex g then map_option Suc (hex_groups v4 gs)
      else if v4 \<and> gs = [] \<and> dotted_quad g then Some 2
      else None)"

fun split_double_colon :: "string \<Rightarrow> (string \<times> string) option" where
  "split_double_colon (a # b # s) =
     (if a = CHR '':'' \<and> b = CHR '':'' then Some ([], s)
      else map_option (\<lambda>(p, q). (a # p, q)) (split_double_colon (b # s)))"
| "split_double_colon _ = None"

definition group_list :: "string \<Rightarrow> string list" where
  "group_list s = (if s = [] then [] else split_on (CHR '':'') s)"

definition is_ipv6 :: "string \<Rightarrow> bool" where
  "is_ipv6 s =
     (case Cut (CHR ''%'') s of (a, zone) \<Rightarrow>
        zone \<noteq> Some [] \<and>
        (case split_double_colon a of
           None \<Rightarrow> hex_groups True (group_list a) = Some 8
         | Some (l, r) \<Rightarrow>
             (case (hex_groups False (group_list l), hex_groups True (group_list r)) of
                (Some m, Some n) \<Rightarrow> m + n \<le> 7 | _ \<Rightarrow> False)))"

definition bad_ip_literal :: string where "bad_ip_literal = ''invalid IP-literal''"

text \<open>The part before the first \<open>%25\<close> and the rest, which starts with it.\<close>

fun cut_zone :: "string \<Rightarrow> string \<times> string" where
  "cut_zone [] = ([], [])"
| "cut_zone (c # s) =
     (if prefix ''%25'' (c # s) then ([], c # s) else (case cut_zone s of (p, q) \<Rightarrow> (c # p, q)))"

definition bad_port :: "string \<Rightarrow> string" where
  "bad_port p = ''invalid port '' @ Quote p @ '' after host''"

definition parse_bracketed :: "string \<Rightarrow> string + string" where
  "parse_bracketed host =
     (case CutLast (CHR '']'') host of
        (None, _) \<Rightarrow> Inl (''missing '' @ [CHR 0x27] @ '']'' @ [CHR 0x27] @ '' in host'')
      | (Some lit, port) \<Rightarrow>
          if \<not> validOptionalPort port then Inl (bad_port port)
          else (case cut_zone (tl lit) of (a, zone) \<Rightarrow>
            (case unescape encodeHost a of
               Inl e \<Rightarrow> Inl e
             | Inr a' \<Rightarrow>
                 (case unescape encodeZone zone of
                    Inl e \<Rightarrow> Inl e
                  | Inr z \<Rightarrow>
                      if is_ipv6 (a' @ z) then Inr (''['' @ a' @ z @ '']'' @ port)
                      else Inl bad_ip_literal))))"

definition parseHost :: "string \<Rightarrow> string + string" where
  "parseHost host =
     (if CHR ''['' \<in> set (tl host) then Inl bad_ip_literal
      else if prefix ''['' host then parse_bracketed host
      else (case Cut (CHR '':'') host of
          (_, Some p) \<Rightarrow>
            if validOptionalPort (CHR '':'' # p) then unescape encodeHost host
            else Inl (bad_port (CHR '':'' # p))
        | (_, None) \<Rightarrow> unescape encodeHost host))"

definition parseAuthority :: "string \<Rightarrow> string + string" where
  "parseAuthority authority =
     (case CutLast (CHR ''@'') authority of
        (None, _) \<Rightarrow> parseHost authority
      | (Some userinfo, host) \<Rightarrow>
          (case parseHost host of
             Inl e \<Rightarrow> Inl e
           | Inr h \<Rightarrow>
               if \<not> validUserinfo userinfo then Inl ''net/url: invalid userinfo''
               else (case unescape encodeUserPassword userinfo of Inl e \<Rightarrow> Inl e | Inr _ \<Rightarrow> Inr h)))"

definition is_ctl :: "char \<Rightarrow> bool" where
  "is_ctl c \<longleftrightarrow> byte c < 32 \<or> byte c = 127"

text \<open>An authority is present after two slashes, but three without a scheme are a path.\<close>

definition has_authority :: "string \<Rightarrow> string \<Rightarrow> bool" where
  "has_authority scheme rest \<longleftrightarrow>
     (scheme \<noteq> [] \<or> \<not> prefix ''///'' rest) \<and> prefix ''//'' rest"

definition parse_rest :: "string \<Rightarrow> string \<Rightarrow> string + URL" where
  "parse_rest scheme s =
     (let rest = fst (Cut (CHR ''?'') s) in
      if \<not> prefix ''/'' rest \<and> scheme \<noteq> [] then
        Inr \<lparr>u_Scheme = scheme, u_Opaque = rest, u_Host = [], u_Path = []\<rparr>
      else if \<not> prefix ''/'' rest \<and> CHR '':'' \<in> set (fst (Cut (CHR ''/'') rest)) then
        Inl ''first path segment in URL cannot contain colon''
      else
        (let auth = (if has_authority scheme rest then takeWhile (\<lambda>c. c \<noteq> CHR ''/'') (drop 2 rest) else []);
             pth = (if has_authority scheme rest then dropWhile (\<lambda>c. c \<noteq> CHR ''/'') (drop 2 rest) else rest)
         in case parseAuthority auth of
              Inl e \<Rightarrow> Inl e
            | Inr host \<Rightarrow>
                (case unescape encodePath pth of
                   Inl e \<Rightarrow> Inl e
                 | Inr p \<Rightarrow> Inr \<lparr>u_Scheme = scheme, u_Opaque = [], u_Host = host, u_Path = p\<rparr>)))"

definition parse_url :: "string \<Rightarrow> string + URL" where
  "parse_url s =
     (if list_ex is_ctl s then Inl ''net/url: invalid control character in URL''
      else if s = ''*'' then Inr \<lparr>u_Scheme = [], u_Opaque = [], u_Host = [], u_Path = ''*''\<rparr>
      else case getScheme s of
        Inl e \<Rightarrow> Inl e
      | Inr (scheme, rest) \<Rightarrow> parse_rest (ToLower scheme) rest)"

text \<open>\<open>url.Parse\<close>; an error is the text of the \<open>url.Error\<close>.\<close>

definition url_error :: "string \<Rightarrow> string \<Rightarrow> string" where
  "url_error u e = ''parse '' @ Quote u @ '': '' @ e"

definition url_Parse :: "string \<Rightarrow> string + URL" where
  "url_Parse raw =
     (case Cut (CHR ''#'') raw of
        (u, frag) \<Rightarrow>
          (case parse_url u of
             Inl e \<Rightarrow> Inl (url_error u e)
           | Inr url \<Rightarrow>
               (case unescape encodeFragment (case frag of None \<Rightarrow> [] | Some f \<Rightarrow> f) of
                  Inl e \<Rightarrow> Inl (url_error raw e)
                | Inr _ \<Rightarrow> Inr url)))"

section \<open>url.Values\<close>

text \<open>\<open>Set\<close> on the association list that stands for the map; \<open>Encode\<close> sorts by key.\<close>

type_synonym Values = "(string \<times> string) list"

definition Set :: "string \<Rightarrow> string \<Rightarrow> Values \<Rightarrow> Values" where
  "Set k v q = filter (\<lambda>(k', _). k' \<noteq> k) q @ [(k, v)]"

definition Encode :: "Values \<Rightarrow> string" where
  "Encode q = join ''&'' (map (\<lambda>(k, v). QueryEscape k @ ''='' @ QueryEscape v)
     (stable_sort (\<lambda>a b. fst a < fst b) q))"

end
