(* ===== verification/Go_Json.thy ===== *)
theory Go_Json
  imports Go_Net Go_Time
begin

text \<open>
  Go's package encoding/json, as far as the program uses it: \<open>Unmarshal\<close> of a response body into
  structs of strings, integers, times, pointers and slices, and \<open>Marshal\<close> of strings. A value keeps
  its strings in the escaped form of the text, since \<open>time.Time\<close> reads that form. Left out: the
  package's limit of 10000 on the nesting depth, and the merging of two structs or slices given under one
  repeated key, where the later value is taken as a whole.
\<close>

section \<open>UTF-8\<close>

definition cont_byte :: "char \<Rightarrow> bool" where
  "cont_byte c \<longleftrightarrow> 128 \<le> byte c \<and> byte c < 192"

text \<open>The length of the rune a string starts with; 0 if it starts with no valid encoding.\<close>

definition rune_len :: "string \<Rightarrow> nat" where
  "rune_len s =
     (case s of
        [] \<Rightarrow> 0
      | a # r \<Rightarrow>
          if byte a < 128 then 1
          else if 194 \<le> byte a \<and> byte a < 224 \<and> 1 \<le> length r \<and> cont_byte (r ! 0) then 2
          else if 224 \<le> byte a \<and> byte a < 240 \<and> 2 \<le> length r \<and> cont_byte (r ! 0) \<and> cont_byte (r ! 1) \<and>
            (byte a = 224 \<longrightarrow> 160 \<le> byte (r ! 0)) \<and> (byte a = 237 \<longrightarrow> byte (r ! 0) < 160) then 3
          else if 240 \<le> byte a \<and> byte a < 245 \<and> 3 \<le> length r \<and> cont_byte (r ! 0) \<and> cont_byte (r ! 1) \<and>
            cont_byte (r ! 2) \<and>
            (byte a = 240 \<longrightarrow> 144 \<le> byte (r ! 0)) \<and> (byte a = 244 \<longrightarrow> byte (r ! 0) < 144) then 4
          else 0)"

lemma rune_len_high:
  "2 \<le> rune_len s \<Longrightarrow> x \<in> set (take (rune_len s) s) \<Longrightarrow> 128 \<le> byte x"
  by (cases s; cases "tl s"; cases "tl (tl s)"; cases "tl (tl (tl s))")
     (auto simp: rune_len_def cont_byte_def numeral_3_eq_3 numeral_2_eq_2 split: if_splits)

definition utf8_encode :: "nat \<Rightarrow> string" where
  "utf8_encode r =
     (if r < 128 then [char_of r]
      else if r < 2048 then [char_of (192 + r div 64), char_of (128 + r mod 64)]
      else if r < 65536 then
        [char_of (224 + r div 4096), char_of (128 + r div 64 mod 64), char_of (128 + r mod 64)]
      else
        [char_of (240 + r div 262144), char_of (128 + r div 4096 mod 64),
         char_of (128 + r div 64 mod 64), char_of (128 + r mod 64)])"

definition replacement :: string where "replacement = utf8_encode 65533"

section \<open>Values and their syntax\<close>

datatype json = JNull | JBool bool | JNum string | JStr string | JArr "json list"
  | JObj "(string \<times> json) list"

definition is_ws :: "char \<Rightarrow> bool" where
  "is_ws c \<longleftrightarrow> byte c \<in> {9, 10, 13, 32}"

abbreviation skip_ws :: "string \<Rightarrow> string" where
  "skip_ws \<equiv> dropWhile is_ws"

text \<open>The raw contents of a string, up to the closing quote, and the rest behind it.\<close>

fun scan_string :: "string \<Rightarrow> (string \<times> string) option" where
  "scan_string [] = None"
| "scan_string (c # s) =
     (if c = dquote then Some ([], s)
      else if byte c < 32 then None
      else if c = backslash then
        (case s of
           [] \<Rightarrow> None
         | e # r \<Rightarrow>
             if e \<in> set ([dquote, backslash] @ ''/bfnrt'') then
               map_option (\<lambda>(x, t). (c # e # x, t)) (scan_string r)
             else if e = CHR ''u'' then
               (case r of
                  h1 # h2 # h3 # h4 # r' \<Rightarrow>
                    if list_all ishex [h1, h2, h3, h4] then
                      map_option (\<lambda>(x, t). (c # e # h1 # h2 # h3 # h4 # x, t)) (scan_string r')
                    else None
                | _ \<Rightarrow> None)
             else None)
      else map_option (\<lambda>(x, t). (c # x, t)) (scan_string s))"

definition scan_frac :: "string \<Rightarrow> (string \<times> string) option" where
  "scan_frac s =
     (if prefix ''.'' s then
        (let ds = takeWhile is_digit (tl s) in
         if ds = [] then None else Some (''.'' @ ds, drop (length ds) (tl s)))
      else Some ([], s))"

definition scan_exp :: "string \<Rightarrow> (string \<times> string) option" where
  "scan_exp s =
     (if prefix ''e'' s \<or> prefix ''E'' s then
        (let sg = takeWhile (\<lambda>c. c \<in> set ''+-'') (take 1 (tl s));
             ds = takeWhile is_digit (drop (length sg) (tl s)) in
         if ds = [] then None
         else Some ([hd s] @ sg @ ds, drop (length sg + length ds) (tl s)))
      else Some ([], s))"

definition scan_int :: "string \<Rightarrow> (string \<times> string) option" where
  "scan_int s =
     (case s of
        [] \<Rightarrow> None
      | c # r \<Rightarrow>
          if c = CHR ''0'' then Some ([c], r)
          else if is_digit c then Some (takeWhile is_digit s, dropWhile is_digit s)
          else None)"

definition scan_number :: "string \<Rightarrow> (string \<times> string) option" where
  "scan_number s = do {
     let sg = (if prefix ''-'' s then ''-'' else []);
     (i, r) \<leftarrow> scan_int (drop (length sg) s);
     (f, r) \<leftarrow> scan_frac r;
     (e, r) \<leftarrow> scan_exp r;
     Some (sg @ i @ f @ e, r)
   }"

section \<open>Strings\<close>

definition hex4 :: "char list \<Rightarrow> nat" where
  "hex4 hs = foldl (\<lambda>a c. 16 * a + unhex c) 0 hs"

definition is_surrogate :: "nat \<Rightarrow> bool" where
  "is_surrogate r \<longleftrightarrow> 55296 \<le> r \<and> r < 57344"

definition unescape_char :: "char \<Rightarrow> char" where
  "unescape_char e =
     (if e = CHR ''b'' then CHR 0x08 else if e = CHR ''f'' then CHR 0x0C
      else if e = CHR ''n'' then CHR 0x0A else if e = CHR ''r'' then CHR 0x0D
      else if e = CHR ''t'' then CHR 0x09 else e)"

text \<open>The second half of a surrogate pair, if the text goes on with one.\<close>

definition low_surrogate :: "string \<Rightarrow> nat option" where
  "low_surrogate s =
     (if 6 \<le> length s \<and> take 2 s = [backslash, CHR ''u''] \<and> 56320 \<le> hex4 (take 4 (drop 2 s)) \<and>
         hex4 (take 4 (drop 2 s)) < 57344 \<and> list_all ishex (take 4 (drop 2 s))
      then Some (hex4 (take 4 (drop 2 s))) else None)"

fun unquote :: "string \<Rightarrow> string" where
  "unquote [] = []"
| "unquote (c # s) =
     (if c = backslash then
        (case s of
           [] \<Rightarrow> []
         | e # r \<Rightarrow>
             if e = CHR ''u'' then
               (let u = hex4 (take 4 r); r' = drop 4 r in
                if is_surrogate u then
                  (case (if u < 56320 then low_surrogate r' else None) of
                     Some v \<Rightarrow> utf8_encode (65536 + (u - 55296) * 1024 + (v - 56320)) @ unquote (drop 6 r')
                   | None \<Rightarrow> replacement @ unquote r')
                else utf8_encode u @ unquote r')
             else unescape_char e # unquote r)
      else
        (let n = rune_len (c # s) in
         if n = 0 then replacement @ unquote s else take n (c # s) @ unquote (drop (n - 1) s)))"

text \<open>\<open>appendString\<close> with HTML escaping, as \<open>Marshal\<close> calls it.\<close>

definition u_escape :: "char \<Rightarrow> string" where
  "u_escape c = [backslash] @ ''u00'' @ hex_byte c"

definition json_byte :: "char \<Rightarrow> string" where
  "json_byte c =
     (if c = dquote \<or> c = backslash then [backslash, c]
      else if byte c = 8 then [backslash, CHR ''b'']
      else if byte c = 12 then [backslash, CHR ''f'']
      else if byte c = 10 then [backslash, CHR ''n'']
      else if byte c = 13 then [backslash, CHR ''r'']
      else if byte c = 9 then [backslash, CHR ''t'']
      else if byte c < 32 \<or> c \<in> set ''<>&'' then u_escape c
      else [c])"

fun json_escape :: "string \<Rightarrow> string" where
  "json_escape [] = []"
| "json_escape (c # s) =
     (let n = rune_len (c # s) in
      if n = 0 then [backslash] @ ''ufffd'' @ json_escape s
      else if n = 1 then json_byte c @ json_escape s
      else if take 3 (c # s) = [CHR 0xE2, CHR 0x80, CHR 0xA8] then [backslash] @ ''u2028'' @ json_escape (drop 2 s)
      else if take 3 (c # s) = [CHR 0xE2, CHR 0x80, CHR 0xA9] then [backslash] @ ''u2029'' @ json_escape (drop 2 s)
      else take n (c # s) @ json_escape (drop (n - 1) s))"

definition json_string :: "string \<Rightarrow> string" where
  "json_string s = [dquote] @ json_escape s @ [dquote]"

section \<open>The parser\<close>

text \<open>The fuel bounds the number of calls; two per character of the text are enough.\<close>

fun jval :: "nat \<Rightarrow> string \<Rightarrow> (json \<times> string) option"
and jarr :: "nat \<Rightarrow> string \<Rightarrow> (json list \<times> string) option"
and jobj :: "nat \<Rightarrow> string \<Rightarrow> ((string \<times> json) list \<times> string) option" where
  "jval 0 s = None"
| "jval (Suc n) s =
     (case skip_ws s of
        [] \<Rightarrow> None
      | c # r \<Rightarrow>
          if c = dquote then map_option (\<lambda>(x, t). (JStr x, t)) (scan_string r)
          else if c = CHR ''['' then
            (if prefix '']'' (skip_ws r) then Some (JArr [], tl (skip_ws r))
             else map_option (\<lambda>(x, t). (JArr x, t)) (jarr n r))
          else if c = CHR ''{'' then
            (if prefix ''}'' (skip_ws r) then Some (JObj [], tl (skip_ws r))
             else map_option (\<lambda>(x, t). (JObj x, t)) (jobj n r))
          else if prefix ''null'' (c # r) then Some (JNull, drop 3 r)
          else if prefix ''true'' (c # r) then Some (JBool True, drop 3 r)
          else if prefix ''false'' (c # r) then Some (JBool False, drop 4 r)
          else map_option (\<lambda>(x, t). (JNum x, t)) (scan_number (c # r)))"
| "jarr 0 s = None"
| "jarr (Suc n) s =
     (case jval n s of
        None \<Rightarrow> None
      | Some (v, r) \<Rightarrow>
          (case skip_ws r of
             [] \<Rightarrow> None
           | c # r' \<Rightarrow>
               if c = CHR '']'' then Some ([v], r')
               else if c = CHR '','' then map_option (\<lambda>(vs, t). (v # vs, t)) (jarr n r')
               else None))"
| "jobj 0 s = None"
| "jobj (Suc n) s =
     (case skip_ws s of
        [] \<Rightarrow> None
      | q # r \<Rightarrow>
          if q \<noteq> dquote then None
          else (case scan_string r of
            None \<Rightarrow> None
          | Some (k, r) \<Rightarrow>
              if \<not> prefix '':'' (skip_ws r) then None
              else (case jval n (tl (skip_ws r)) of
                None \<Rightarrow> None
              | Some (v, r) \<Rightarrow>
                  (case skip_ws r of
                     [] \<Rightarrow> None
                   | c # r' \<Rightarrow>
                       if c = CHR ''}'' then Some ([(unquote k, v)], r')
                       else if c = CHR '','' then
                         map_option (\<lambda>(vs, t). ((unquote k, v) # vs, t)) (jobj n r')
                       else None))))"

definition json_parse :: "string \<Rightarrow> json option" where
  "json_parse s =
     (case jval (2 * length s + 2) s of
        Some (v, r) \<Rightarrow> if skip_ws r = [] then Some v else None
      | None \<Rightarrow> None)"

section \<open>Decoding into Go values\<close>

text \<open>
  A decoder gives the value an element takes, the zero value for \<open>null\<close>; None is an
  \<open>UnmarshalTypeError\<close>. A struct field matches a key up to case; unknown keys are skipped;
  \<open>null\<close> leaves a scalar field as it is and clears a pointer or slice.
\<close>

type_synonym 'a decoder = "json \<Rightarrow> 'a option"

fun dec_string :: "string decoder" where
  "dec_string (JStr s) = Some (unquote s)"
| "dec_string JNull = Some []"
| "dec_string _ = None"

fun dec_int :: "int decoder" where
  "dec_int (JNum s) = (case ParseInt s of Inl _ \<Rightarrow> None | Inr i \<Rightarrow> Some i)"
| "dec_int JNull = Some 0"
| "dec_int _ = None"

fun dec_time :: "int decoder" where
  "dec_time (JStr s) = ParseRFC3339 s"
| "dec_time JNull = Some 0"
| "dec_time _ = None"

definition dec_pointer :: "'a decoder \<Rightarrow> 'a option decoder" where
  "dec_pointer d v = (if v = JNull then Some None else map_option Some (d v))"

fun dec_slice :: "'a decoder \<Rightarrow> 'a list decoder" where
  "dec_slice d (JArr vs) = those (map d vs)"
| "dec_slice d JNull = Some []"
| "dec_slice d _ = None"

fun members :: "json \<Rightarrow> (string \<times> json) list option" where
  "members (JObj kvs) = Some kvs"
| "members JNull = Some []"
| "members _ = None"

fun decode_field :: "bool \<Rightarrow> 'a decoder \<Rightarrow> string \<Rightarrow> 'a \<Rightarrow> (string \<times> json) list \<Rightarrow> 'a option" where
  "decode_field scalar d name z [] = Some z"
| "decode_field scalar d name z ((k, v) # kvs) =
     (if \<not> EqualFold k name \<or> (scalar \<and> v = JNull) then decode_field scalar d name z kvs
      else (case d v of None \<Rightarrow> None | Some x \<Rightarrow> decode_field scalar d name x kvs))"

abbreviation string_field :: "(string \<times> json) list \<Rightarrow> string \<Rightarrow> string option" where
  "string_field kvs name \<equiv> decode_field True dec_string name [] kvs"

abbreviation int_field :: "(string \<times> json) list \<Rightarrow> string \<Rightarrow> int option" where
  "int_field kvs name \<equiv> decode_field True dec_int name 0 kvs"

abbreviation time_field :: "(string \<times> json) list \<Rightarrow> string \<Rightarrow> int option" where
  "time_field kvs name \<equiv> decode_field True dec_time name 0 kvs"

abbreviation pointer_field :: "'a decoder \<Rightarrow> (string \<times> json) list \<Rightarrow> string \<Rightarrow> 'a option option" where
  "pointer_field d kvs name \<equiv> decode_field False (dec_pointer d) name None kvs"

abbreviation slice_field :: "'a decoder \<Rightarrow> (string \<times> json) list \<Rightarrow> string \<Rightarrow> 'a list option" where
  "slice_field d kvs name \<equiv> decode_field False (dec_slice d) name [] kvs"

definition Unmarshal :: "'a decoder \<Rightarrow> string \<Rightarrow> 'a option" where
  "Unmarshal d body = (case json_parse body of None \<Rightarrow> None | Some v \<Rightarrow> d v)"

end
