(* ===== verification/World.thy ===== *)
theory World
  imports Domain Go_Json "HOL-Library.State_Monad"
begin

text \<open>
  What the program does to its surroundings, as explicit state passing. A \<open>world\<close> holds the trace of
  everything the process did so far, the files, and the telemetry counters; an operation is a state
  transformer on it. What the surroundings answer (the GitHub API behind net/http, the clock, the
  cancellation of a request, the operating system, the reader of archive/zip, the decimal form of a
  \<open>float64\<close> in JSON, the order in which \<open>range\<close> visits a map) is a record \<open>env\<close> of
  functions of the trace, so any behaviour of theirs is an instance, and every theorem holds for each.
  The program's mutexes make its shared operations atomic; the model runs them one after the other here,
  and interleaves those of different calls in \<open>Interleaving\<close>.
\<close>

section \<open>Errors\<close>

text \<open>
  A Go error: a package-level value of \<open>errors.New\<close> (compared by identity, here by its text, which
  no two of them share), or one built by \<open>fmt.Errorf\<close>, with the error it wraps if the format has
  a \<open>%w\<close>. Both hold the full text that \<open>Error()\<close> returns.
\<close>

datatype go_error = New string | Errorf string | Wrap string go_error

fun Error :: "go_error \<Rightarrow> string" where
  "Error (New s) = s"
| "Error (Errorf s) = s"
| "Error (Wrap s e) = s"

fun errors_Is :: "go_error \<Rightarrow> go_error \<Rightarrow> bool" where
  "errors_Is (Wrap s e) t \<longleftrightarrow> Wrap s e = t \<or> errors_Is e t"
| "errors_Is e t \<longleftrightarrow> e = t"

text \<open>\<open>fmt.Errorf("prefix: %w", err)\<close> and \<open>fmt.Errorf("%w: text", err)\<close>\<close>

definition wrap_in :: "string \<Rightarrow> go_error \<Rightarrow> go_error" where
  "wrap_in pre e = Wrap (pre @ '': '' @ Error e) e"

definition wrap_with :: "go_error \<Rightarrow> string \<Rightarrow> go_error" where
  "wrap_with e s = Wrap (Error e @ '': '' @ s) e"

type_synonym 'a result = "go_error + 'a"

lemma errors_Is_refl [simp]: "errors_Is e e"
  by (cases e) simp_all

lemma errors_Is_wrap_in [simp]: "errors_Is (wrap_in p e) (New s) = errors_Is e (New s)"
  by (simp add: wrap_in_def)

lemma errors_Is_wrap_with [simp]: "errors_Is (wrap_with e p) (New s) = errors_Is e (New s)"
  by (simp add: wrap_with_def)

section \<open>Events\<close>

record http_request =
  rq_Method :: string
  rq_URL :: string
  rq_Header :: "(string \<times> string) list"
  rq_Body :: string

text \<open>A response: its body may break off while it is read.\<close>

record http_response =
  rs_Status :: int
  rs_Header :: "string \<Rightarrow> string"
  rs_Body :: "string + string"

datatype log_level = LevelDebug | LevelInfo | LevelWarn | LevelError

text \<open>\<open>slog.Level\<close>: the levels are numbers, and compared as such.\<close>

fun level_number :: "log_level \<Rightarrow> int" where
  "level_number LevelDebug = -4"
| "level_number LevelInfo = 0"
| "level_number LevelWarn = 4"
| "level_number LevelError = 8"

instantiation log_level :: linorder
begin

definition less_eq_log_level :: "log_level \<Rightarrow> log_level \<Rightarrow> bool" where
  "l \<le> m \<longleftrightarrow> level_number l \<le> level_number m"

definition less_log_level :: "log_level \<Rightarrow> log_level \<Rightarrow> bool" where
  "l < m \<longleftrightarrow> level_number l < level_number m"

instance
proof
  show "l = m" if "l \<le> m" "m \<le> l" for l m :: log_level
    using that by (cases l; cases m) (simp_all add: less_eq_log_level_def)
qed (auto simp: less_eq_log_level_def less_log_level_def)

end

datatype syscall =
    SysStat string
  | SysRead string
  | SysMkdirAll string nat
  | SysOpenAppend string nat
  | SysCreate string
  | SysChmod string nat
  | SysWrite string string

datatype event =
    Requested http_request
  | Waited int
  | ReadClock
  | Logged log_level string
  | Called syscall

record zip_entry =
  ze_Name :: string
  ze_Opens :: bool
  ze_Data :: string
  ze_ReadError :: "string option"

text \<open>Why a context is done.\<close>

datatype ctx_error = Canceled | DeadlineExceeded

definition ctx_Err :: "ctx_error \<Rightarrow> go_error" where
  "ctx_Err d = New (case d of Canceled \<Rightarrow> ''context canceled'' | DeadlineExceeded \<Rightarrow> ''context deadline exceeded'')"

record env =
  e_http :: "event list \<Rightarrow> http_request \<Rightarrow> string + http_response"
  e_done :: "event list \<Rightarrow> ctx_error option"
  e_now :: "event list \<Rightarrow> gotime"
  e_os :: "event list \<Rightarrow> syscall \<Rightarrow> (nat \<times> string) option"
  e_zip :: "string \<Rightarrow> zip_entry list option"
  e_float :: "float64 \<Rightarrow> string"
  e_order :: "event list \<Rightarrow> string list \<Rightarrow> string list"

text \<open>A file has permission bits and contents; the names of the model are paths.\<close>

datatype node = Directory | File nat string

record world =
  w_trace :: "event list"
  w_fs :: "string \<rightharpoonup> node"
  w_metrics :: "(string \<times> ToolMetric) list"

type_synonym 'a io = "(world, 'a) state"

abbreviation ret :: "'a \<Rightarrow> 'a io" where "ret \<equiv> State_Monad.return"

text \<open>What an operation returns and what it leaves behind.\<close>

definition val :: "'a io \<Rightarrow> world \<Rightarrow> 'a" where "val m w = fst (run_state m w)"
definition after :: "'a io \<Rightarrow> world \<Rightarrow> world" where "after m w = snd (run_state m w)"

text \<open>\<open>x, err := m; if err != nil { return err }\<close>\<close>

definition and_then :: "('e + 'a) io \<Rightarrow> ('a \<Rightarrow> ('e + 'b) io) \<Rightarrow> ('e + 'b) io" where
  "and_then m f = do { r \<leftarrow> m; (case r of Inl e \<Rightarrow> ret (Inl e) | Inr x \<Rightarrow> f x) }"

definition emit :: "event \<Rightarrow> unit io" where
  "emit e = State (\<lambda>w. ((), w\<lparr>w_trace := w_trace w @ [e]\<rparr>))"

definition now :: "env \<Rightarrow> gotime io" where
  "now E = do { emit ReadClock; w \<leftarrow> State_Monad.get; ret (e_now E (w_trace w)) }"

text \<open>
  The keys of a map in the order a \<open>range\<close> loop visits them, which the language leaves open. An answer
  of the surroundings that is no arrangement of the keys counts as the order of insertion.
\<close>

definition range_keys :: "env \<Rightarrow> string list \<Rightarrow> string list io" where
  "range_keys E keys = do {
     w \<leftarrow> State_Monad.get;
     ret (if mset (e_order E (w_trace w) keys) = mset keys then e_order E (w_trace w) keys else keys)
   }"

definition log_msg :: "log_level \<Rightarrow> string \<Rightarrow> unit io" where
  "log_msg l s = emit (Logged l s)"

lemma val_ret [simp]: "val (ret x) w = x" and after_ret [simp]: "after (ret x) w = w"
  by (simp_all add: val_def after_def)

lemma val_bind [simp]: "val (m \<bind> f) w = val (f (val m w)) (after m w)"
  and after_bind [simp]: "after (m \<bind> f) w = after (f (val m w)) (after m w)"
  by (simp_all add: val_def after_def split: prod.splits)

lemma val_emit [simp]: "val (emit e) w = ()"
  and after_emit [simp]: "after (emit e) w = w\<lparr>w_trace := w_trace w @ [e]\<rparr>"
  by (simp_all add: val_def after_def emit_def)

lemma val_get [simp]: "val State_Monad.get w = w" and after_get [simp]: "after State_Monad.get w = w"
  by (simp_all add: val_def after_def)

lemma val_set [simp]: "val (State_Monad.set s) w = ()" and after_set [simp]: "after (State_Monad.set s) w = s"
  by (simp_all add: val_def after_def)

lemma val_and_then:
  "val (and_then m f) w = (case val m w of Inl e \<Rightarrow> Inl e | Inr x \<Rightarrow> val (f x) (after m w))"
  by (simp add: and_then_def split: sum.split)

lemma after_and_then:
  "after (and_then m f) w = (case val m w of Inl e \<Rightarrow> after m w | Inr x \<Rightarrow> after (f x) (after m w))"
  by (simp add: and_then_def split: sum.split)

lemmas and_then_simps = val_and_then after_and_then

lemma after_now [simp]: "after (now E) w = w\<lparr>w_trace := w_trace w @ [ReadClock]\<rparr>"
  and val_now [simp]: "val (now E) w = e_now E (w_trace w @ [ReadClock])"
  by (simp_all add: now_def)

lemma after_log_msg [simp]: "after (log_msg l s) w = w\<lparr>w_trace := w_trace w @ [Logged l s]\<rparr>"
  by (simp add: log_msg_def)

lemma mset_range_keys [simp]: "mset (val (range_keys E keys) w) = mset keys"
  and after_range_keys [simp]: "after (range_keys E keys) w = w"
  by (simp_all add: range_keys_def)

section \<open>What an operation may do\<close>

text \<open>
  A reflexive and transitive relation between the world before and after is kept by composition; the
  theorems on what a component does to its surroundings are instances.
\<close>

definition moves :: "(world \<Rightarrow> world \<Rightarrow> bool) \<Rightarrow> 'a io \<Rightarrow> bool" where
  "moves R m \<longleftrightarrow> (\<forall>w. R w (after m w))"

locale effect =
  fixes R :: "world \<Rightarrow> world \<Rightarrow> bool"
  assumes refl: "R w w"
    and trans: "R u v \<Longrightarrow> R v w \<Longrightarrow> R u w"
begin

lemma ret_moves: "moves R (ret x)"
  by (simp add: moves_def refl)

lemma get_moves: "moves R State_Monad.get"
  by (simp add: moves_def refl)

lemma bind_moves: "moves R m \<Longrightarrow> (\<And>x. moves R (f x)) \<Longrightarrow> moves R (m \<bind> f)"
  by (simp add: moves_def) (blast intro: trans)

lemma and_then_moves: "moves R m \<Longrightarrow> (\<And>x. moves R (f x)) \<Longrightarrow> moves R (and_then m f)"
  unfolding and_then_def
  by (rule bind_moves) (auto split: sum.splits intro: ret_moves)

text \<open>The rest of an operation may rely on what the first part returned.\<close>

lemma and_then_val_moves:
  "moves R m \<Longrightarrow> (\<And>w x. val m w = Inr x \<Longrightarrow> moves R (f x)) \<Longrightarrow> moves R (and_then m f)"
  by (auto simp: moves_def and_then_simps split: sum.split) (blast intro: trans)

lemma if_moves: "(b \<Longrightarrow> moves R m) \<Longrightarrow> (\<not> b \<Longrightarrow> moves R n) \<Longrightarrow> moves R (if b then m else n)"
  by simp

lemma option_moves:
  "(x = None \<Longrightarrow> moves R m) \<Longrightarrow> (\<And>y. x = Some y \<Longrightarrow> moves R (f y)) \<Longrightarrow>
   moves R (case x of None \<Rightarrow> m | Some y \<Rightarrow> f y)"
  by (cases x) simp_all

lemma sum_moves:
  "(\<And>y. x = Inl y \<Longrightarrow> moves R (g y)) \<Longrightarrow> (\<And>y. x = Inr y \<Longrightarrow> moves R (f y)) \<Longrightarrow>
   moves R (case x of Inl y \<Rightarrow> g y | Inr y \<Rightarrow> f y)"
  by (cases x) simp_all

lemma prod_moves: "(\<And>y z. x = (y, z) \<Longrightarrow> moves R (f y z)) \<Longrightarrow> moves R (case x of (y, z) \<Rightarrow> f y z)"
  by (cases x) simp

lemma list_moves:
  "(x = [] \<Longrightarrow> moves R m) \<Longrightarrow> (\<And>y z. x = y # z \<Longrightarrow> moves R (f y z)) \<Longrightarrow>
   moves R (case x of [] \<Rightarrow> m | y # z \<Rightarrow> f y z)"
  by (cases x) simp_all

lemma let_moves: "(\<And>y. y = x \<Longrightarrow> moves R (f y)) \<Longrightarrow> moves R (let y = x in f y)"
  by (simp add: Let_def)

lemmas rules = ret_moves get_moves bind_moves and_then_moves if_moves option_moves sum_moves
  prod_moves list_moves let_moves

end

lemma movesD: "moves R m \<Longrightarrow> R w (after m w)"
  by (simp add: moves_def)

text \<open>The trace only grows, and only by events of a given kind.\<close>

definition grows :: "(event \<Rightarrow> bool) \<Rightarrow> world \<Rightarrow> world \<Rightarrow> bool" where
  "grows P w w' \<longleftrightarrow> (\<exists>es. w_trace w' = w_trace w @ es \<and> list_all P es)"

abbreviation emits :: "(event \<Rightarrow> bool) \<Rightarrow> 'a io \<Rightarrow> bool" where
  "emits P \<equiv> moves (grows P)"

interpretation emits: effect "grows P" for P
proof
  show "grows P w w" for w by (simp add: grows_def)
  show "grows P u w" if "grows P u v" "grows P v w" for u v w
    using that by (auto simp: grows_def)
qed

text \<open>The same, with the files and the counters left as they are.\<close>

definition quiet :: "(event \<Rightarrow> bool) \<Rightarrow> world \<Rightarrow> world \<Rightarrow> bool" where
  "quiet P w w' \<longleftrightarrow> grows P w w' \<and> w_fs w' = w_fs w \<and> w_metrics w' = w_metrics w"

interpretation quiet: effect "quiet P" for P
  by unfold_locales (auto simp: quiet_def emits.refl intro: emits.trans)

lemma quiet_emit [simp]: "moves (quiet P) (emit e) = P e"
  by (simp add: moves_def quiet_def grows_def)

lemma quiet_emits: "moves (quiet P) m \<Longrightarrow> emits P m"
  by (simp add: moves_def quiet_def)

lemma quiet_mono: "moves (quiet P) m \<Longrightarrow> (\<And>e. P e \<Longrightarrow> Q e) \<Longrightarrow> moves (quiet Q) m"
  by (auto simp: moves_def quiet_def grows_def) (metis list.pred_mono_strong)

text \<open>The files and the counters stay as they are.\<close>

definition same_files :: "world \<Rightarrow> world \<Rightarrow> bool" where
  "same_files w w' \<longleftrightarrow> w_fs w' = w_fs w"

definition same_metrics :: "world \<Rightarrow> world \<Rightarrow> bool" where
  "same_metrics w w' \<longleftrightarrow> w_metrics w' = w_metrics w"

interpretation same_files: effect same_files
  by unfold_locales (simp_all add: same_files_def)

interpretation same_metrics: effect same_metrics
  by unfold_locales (simp_all add: same_metrics_def)

lemma emits_emit [simp]: "emits P (emit e) = P e"
  by (simp add: moves_def grows_def)

lemma emits_now: "P ReadClock \<Longrightarrow> emits P (now E)"
  by (simp add: now_def emits.rules)

lemma emits_log: "P (Logged l s) \<Longrightarrow> emits P (log_msg l s)"
  by (simp add: log_msg_def)

lemma same_emit [simp]: "moves same_files (emit e)" "moves same_metrics (emit e)"
  by (simp_all add: moves_def same_files_def same_metrics_def)

lemma same_now [simp]: "moves same_files (now E)" "moves same_metrics (now E)"
  by (simp_all add: moves_def same_files_def same_metrics_def)

lemma same_log [simp]: "moves same_files (log_msg l s)" "moves same_metrics (log_msg l s)"
  by (simp_all add: log_msg_def)

lemma emits_mono: "emits P m \<Longrightarrow> (\<And>e. P e \<Longrightarrow> Q e) \<Longrightarrow> emits Q m"
  by (auto simp: moves_def grows_def) (metis list.pred_mono_strong)

section \<open>Files\<close>

definition ErrNotExist :: go_error where "ErrNotExist = New ''file does not exist''"

definition path_error :: "string \<Rightarrow> string \<Rightarrow> string \<Rightarrow> go_error" where
  "path_error op p e = Errorf (op @ '' '' @ p @ '': '' @ e)"

definition no_such_file :: "string \<Rightarrow> string \<Rightarrow> go_error" where
  "no_such_file op p = Wrap (op @ '' '' @ p @ '': no such file or directory'') ErrNotExist"

text \<open>A call is recorded, and the operating system may refuse it for reasons of its own.\<close>

definition syscall :: "env \<Rightarrow> syscall \<Rightarrow> ((nat \<times> string) option) io" where
  "syscall E c = do { emit (Called c); w \<leftarrow> State_Monad.get; ret (e_os E (w_trace w) c) }"

definition node_at :: "string \<Rightarrow> node option io" where
  "node_at p = do { w \<leftarrow> State_Monad.get; ret (w_fs w p) }"

definition put_node :: "string \<Rightarrow> node \<Rightarrow> unit io" where
  "put_node p n = State (\<lambda>w. ((), w\<lparr>w_fs := (w_fs w)(p \<mapsto> n)\<rparr>))"

lemma put_node_simps [simp]:
  "val (put_node p n) w = ()" "after (put_node p n) w = w\<lparr>w_fs := (w_fs w)(p \<mapsto> n)\<rparr>"
  "val (node_at p) w = w_fs w p" "after (node_at p) w = w"
  "after (syscall E c) w = w\<lparr>w_trace := w_trace w @ [Called c]\<rparr>"
  "val (syscall E c) w = e_os E (w_trace w @ [Called c]) c"
  by (simp_all add: val_def after_def put_node_def node_at_def syscall_def emit_def)

definition os_Stat :: "env \<Rightarrow> string \<Rightarrow> node result io" where
  "os_Stat E p = do {
     f \<leftarrow> syscall E (SysStat p);
     n \<leftarrow> node_at p;
     ret (case f of Some (_, e) \<Rightarrow> Inl (path_error ''stat'' p e)
          | None \<Rightarrow> (case n of None \<Rightarrow> Inl (no_such_file ''stat'' p) | Some x \<Rightarrow> Inr x))
   }"

definition os_ReadFile :: "env \<Rightarrow> string \<Rightarrow> string result io" where
  "os_ReadFile E p = do {
     f \<leftarrow> syscall E (SysRead p);
     n \<leftarrow> node_at p;
     ret (case f of Some (_, e) \<Rightarrow> Inl (path_error ''open'' p e)
          | None \<Rightarrow>
              (case n of
                 None \<Rightarrow> Inl (no_such_file ''open'' p)
               | Some Directory \<Rightarrow> Inl (path_error ''read'' p ''is a directory'')
               | Some (File _ c) \<Rightarrow> Inr c))
   }"

text \<open>The directories a path goes through, itself last.\<close>

definition path_chain :: "string \<Rightarrow> string list" where
  "path_chain p =
     filter (\<lambda>q. q \<notin> {'''', ''.'', ''/''})
       (map (\<lambda>n. join ''/'' (take n (split_on (CHR ''/'') p))) [1..<Suc (length (split_on (CHR ''/'') p))])"

definition mkdirs :: "string list \<Rightarrow> (string \<rightharpoonup> node) \<Rightarrow> (string \<rightharpoonup> node)" where
  "mkdirs ps fs = (\<lambda>q. if q \<in> set ps \<and> fs q = None then Some Directory else fs q)"

definition is_file :: "node option \<Rightarrow> bool" where
  "is_file n \<longleftrightarrow> (case n of Some (File _ _) \<Rightarrow> True | _ \<Rightarrow> False)"

definition os_MkdirAll :: "env \<Rightarrow> string \<Rightarrow> nat \<Rightarrow> unit result io" where
  "os_MkdirAll E p perm = do {
     f \<leftarrow> syscall E (SysMkdirAll p perm);
     w \<leftarrow> State_Monad.get;
     (case f of
        Some (_, e) \<Rightarrow> ret (Inl (path_error ''mkdir'' p e))
      | None \<Rightarrow>
          if list_ex (\<lambda>q. is_file (w_fs w q)) (path_chain p) then ret (Inl (path_error ''mkdir'' p ''not a directory''))
          else do {
            State_Monad.set (w\<lparr>w_fs := mkdirs (path_chain p) (w_fs w)\<rparr>);
            ret (Inr ())
          })
   }"

definition dir_exists :: "(string \<rightharpoonup> node) \<Rightarrow> string \<Rightarrow> bool" where
  "dir_exists fs d \<longleftrightarrow> d \<in> {''.'', ''/'', ''''} \<or> fs d = Some Directory"

text \<open>
  \<open>OpenFile\<close> with O_CREATE, O_APPEND and O_WRONLY, and \<open>Create\<close>, which truncates. The
  handle is the path.
\<close>

definition open_with :: "env \<Rightarrow> syscall \<Rightarrow> string \<Rightarrow> (node option \<Rightarrow> node) \<Rightarrow> unit result io" where
  "open_with E c p upd = do {
     f \<leftarrow> syscall E c;
     w \<leftarrow> State_Monad.get;
     (case f of
        Some (_, e) \<Rightarrow> ret (Inl (path_error ''open'' p e))
      | None \<Rightarrow>
          if w_fs w p = Some Directory then ret (Inl (path_error ''open'' p ''is a directory''))
          else if \<not> dir_exists (w_fs w) (Dir p) then ret (Inl (no_such_file ''open'' p))
          else do { put_node p (upd (w_fs w p)); ret (Inr ()) })
   }"

definition os_OpenAppend :: "env \<Rightarrow> string \<Rightarrow> nat \<Rightarrow> unit result io" where
  "os_OpenAppend E p perm =
     open_with E (SysOpenAppend p perm) p (\<lambda>n. case n of Some x \<Rightarrow> x | None \<Rightarrow> File perm [])"

definition os_Create :: "env \<Rightarrow> string \<Rightarrow> unit result io" where
  "os_Create E p =
     open_with E (SysCreate p) p (\<lambda>n. case n of Some (File m _) \<Rightarrow> File m [] | _ \<Rightarrow> File 420 [])"

definition os_Chmod :: "env \<Rightarrow> string \<Rightarrow> nat \<Rightarrow> unit result io" where
  "os_Chmod E p perm = do {
     f \<leftarrow> syscall E (SysChmod p perm);
     n \<leftarrow> node_at p;
     (case f of
        Some (_, e) \<Rightarrow> ret (Inl (path_error ''chmod'' p e))
      | None \<Rightarrow>
          (case n of
             None \<Rightarrow> ret (Inl (no_such_file ''chmod'' p))
           | Some Directory \<Rightarrow> ret (Inr ())
           | Some (File _ c) \<Rightarrow> do { put_node p (File perm c); ret (Inr ()) }))
   }"

text \<open>A write at the end of the file; one that fails may have written a part.\<close>

definition file_Write :: "env \<Rightarrow> string \<Rightarrow> string \<Rightarrow> unit result io" where
  "file_Write E p s = do {
     f \<leftarrow> syscall E (SysWrite p s);
     n \<leftarrow> node_at p;
     (case n of
        Some (File m c) \<Rightarrow>
          (case f of
             Some (k, e) \<Rightarrow> do { put_node p (File m (c @ take k s)); ret (Inl (path_error ''write'' p e)) }
           | None \<Rightarrow> do { put_node p (File m (c @ s)); ret (Inr ()) })
      | _ \<Rightarrow> ret (Inl (path_error ''write'' p ''bad file descriptor'')))
   }"

lemma same_metrics_os [simp]:
  "moves same_metrics (syscall E c)" "moves same_metrics (node_at p)" "moves same_metrics (put_node p n)"
  "moves same_metrics (os_Stat E p)" "moves same_metrics (os_MkdirAll E p perm)"
  "moves same_metrics (open_with E c p upd)" "moves same_metrics (os_OpenAppend E p perm)"
  "moves same_metrics (os_Create E p)" "moves same_metrics (os_Chmod E p perm)"
  "moves same_metrics (file_Write E p s)"
  by (auto simp: moves_def same_metrics_def os_Stat_def os_MkdirAll_def open_with_def os_OpenAppend_def
      os_Create_def os_Chmod_def file_Write_def split: option.split node.split prod.split)

lemma emits_os:
  assumes "\<And>c. P (Called c)"
  shows "emits P (syscall E c)" "emits P (node_at p)" "emits P (put_node p n)"
    "emits P (os_Stat E p)" "emits P (os_MkdirAll E p perm)" "emits P (open_with E c p upd)"
    "emits P (os_OpenAppend E p perm)" "emits P (os_Create E p)" "emits P (os_Chmod E p perm)"
    "emits P (file_Write E p s)"
  using assms
  by (auto simp: moves_def grows_def os_Stat_def os_MkdirAll_def open_with_def os_OpenAppend_def
      os_Create_def os_Chmod_def file_Write_def split: option.split node.split prod.split)

text \<open>How a program ends: what it printed, the line on stderr that says why it failed, and its exit code.\<close>

record process_exit =
  px_Output :: string
  px_Failure :: string
  px_Code :: nat

definition empty_world :: world where
  "empty_world = \<lparr>w_trace = [], w_fs = (\<lambda>_. None), w_metrics = []\<rparr>"

end
