(* ===== verification/Providers.thy ===== *)
theory Providers
  imports World
begin

text \<open>
  internal/providers: the \<open>Adapter\<close> interface as a record of its methods, and the registry of
  adapters. A method that reaches the provider is a state transformer; the context argument is part
  of the surroundings. A check run may be nil without an error, and the service looks for that; a run that
  is returned without an error is not nil, which \<open>Service.GetRun\<close> relies on in the code.
\<close>

section \<open>Adapters\<close>

record Adapter =
  ad_ProviderID :: string
  ad_ParseRepository :: "string \<Rightarrow> string result"
  ad_ParseRunURL :: "string \<Rightarrow> RunLocator result"
  ad_ParseCheckRunURL :: "string \<Rightarrow> int result"
  ad_RunURL :: "string \<Rightarrow> int \<Rightarrow> string"
  ad_GetRun :: "string \<Rightarrow> int \<Rightarrow> Run result io"
  ad_ListRunJobs :: "string \<Rightarrow> int \<Rightarrow> Job list result io"
  ad_DownloadRunLogs :: "string \<Rightarrow> int \<Rightarrow> int \<Rightarrow> string result io"
  ad_ListRepositoryRuns :: "string \<Rightarrow> ListRunsOptions \<Rightarrow> int \<Rightarrow> Run list result io"
  ad_GetCheckRun :: "string \<Rightarrow> int \<Rightarrow> CheckRun option result io"
  ad_GetCheckRunAnnotations :: "string \<Rightarrow> int \<Rightarrow> CheckRunAnnotation list result io"
  ad_ListDeploymentBranchPolicies :: "string \<Rightarrow> string \<Rightarrow> BranchPolicy list result io"
  ad_Rerun :: "string \<Rightarrow> int \<Rightarrow> bool \<Rightarrow> unit result io"
  ad_IsLogsUnavailable :: "go_error \<Rightarrow> bool"
  ad_MapError :: "go_error \<Rightarrow> ToolError"

section \<open>The registry\<close>

record Registry =
  rg_defaultProvider :: string
  rg_adapters :: "string \<rightharpoonup> Adapter"
  rg_ordered :: "Adapter list"

text \<open>The loop of \<open>NewRegistry\<close>; an adapter may be nil.\<close>

fun register :: "Registry \<Rightarrow> Adapter option list \<Rightarrow> Registry result" where
  "register r [] = Inr r"
| "register r (None # as) = Inl (Errorf ''provider adapter cannot be nil'')"
| "register r (Some a # as) =
     (let providerID = TrimSpace (ad_ProviderID a) in
      if providerID = '''' then Inl (Errorf ''provider adapter returned an empty provider id'')
      else if rg_adapters r providerID \<noteq> None then
        Inl (Errorf (''provider '' @ Quote providerID @ '' is registered more than once''))
      else register (r\<lparr>rg_adapters := (rg_adapters r)(providerID \<mapsto> a), rg_ordered := rg_ordered r @ [a]\<rparr>) as)"

definition empty_registry :: "string \<Rightarrow> Registry" where
  "empty_registry defaultProvider =
     \<lparr>rg_defaultProvider = TrimSpace defaultProvider, rg_adapters = (\<lambda>_. None), rg_ordered = []\<rparr>"

definition NewRegistry :: "string \<Rightarrow> Adapter option list \<Rightarrow> Registry result" where
  "NewRegistry defaultProvider adapters =
     (case register (empty_registry defaultProvider) adapters of
        Inl e \<Rightarrow> Inl e
      | Inr r \<Rightarrow>
          if rg_ordered r = [] then Inl (Errorf ''at least one provider adapter is required'')
          else if rg_defaultProvider r = '''' then Inl (Errorf ''default provider is required'')
          else if rg_adapters r (rg_defaultProvider r) = None then
            Inl (Errorf (''default provider '' @ Quote (rg_defaultProvider r) @ '' is not registered''))
          else Inr r)"

text \<open>The methods take a pointer, which may be nil.\<close>

definition DefaultProviderID :: "Registry option \<Rightarrow> string" where
  "DefaultProviderID r = (case r of None \<Rightarrow> [] | Some r \<Rightarrow> rg_defaultProvider r)"

definition ProviderIDs :: "Registry option \<Rightarrow> string list" where
  "ProviderIDs r = (case r of None \<Rightarrow> [] | Some r \<Rightarrow> map ad_ProviderID (rg_ordered r))"

definition not_configured :: go_error where
  "not_configured = Errorf ''provider registry is not configured''"

definition selected_provider :: "Registry \<Rightarrow> string \<Rightarrow> string" where
  "selected_provider r providerID =
     (let selected = TrimSpace providerID in if selected = '''' then rg_defaultProvider r else selected)"

definition Resolve :: "Registry option \<Rightarrow> string \<Rightarrow> Adapter result" where
  "Resolve r providerID =
     (case r of
        None \<Rightarrow> Inl not_configured
      | Some reg \<Rightarrow>
          let selected = selected_provider reg providerID
          in case rg_adapters reg selected of
            None \<Rightarrow> Inl (Errorf (''unsupported provider '' @ Quote selected @ '' (supported: '' @
                      join '', '' (ProviderIDs r) @ '')''))
          | Some a \<Rightarrow> Inr a)"

fun first_match :: "Adapter list \<Rightarrow> string \<Rightarrow> (Adapter \<times> RunLocator) option" where
  "first_match [] raw = None"
| "first_match (a # as) raw =
     (case ad_ParseRunURL a raw of Inl _ \<Rightarrow> first_match as raw | Inr l \<Rightarrow> Some (a, l))"

definition parse_with :: "Adapter \<Rightarrow> string \<Rightarrow> (Adapter \<times> RunLocator) result" where
  "parse_with a raw = (case ad_ParseRunURL a raw of Inl e \<Rightarrow> Inl e | Inr l \<Rightarrow> Inr (a, l))"

definition ResolveRunURL :: "Registry option \<Rightarrow> string \<Rightarrow> string \<Rightarrow> (Adapter \<times> RunLocator) result" where
  "ResolveRunURL r providerID raw =
     (case r of
        None \<Rightarrow> Inl not_configured
      | Some reg \<Rightarrow>
          let explicit = TrimSpace providerID in
          if explicit \<noteq> '''' then
            (case Resolve r explicit of Inl e \<Rightarrow> Inl e | Inr a \<Rightarrow> parse_with a raw)
          else if length (rg_ordered reg) = 1 then parse_with (hd (rg_ordered reg)) raw
          else (case first_match (rg_ordered reg) raw of
              Some al \<Rightarrow> Inr al
            | None \<Rightarrow> Inl (Errorf (''run_url did not match any configured provider (supported: '' @
                        join '', '' (ProviderIDs r) @ '')''))))"

section \<open>What a registry holds\<close>

definition provider_key :: "Adapter \<Rightarrow> string" where
  "provider_key a = TrimSpace (ad_ProviderID a)"

text \<open>The map and the list agree, and the default provider is registered.\<close>

definition wf_registry :: "Registry \<Rightarrow> bool" where
  "wf_registry r \<longleftrightarrow>
     rg_adapters r = map_of (map (\<lambda>a. (provider_key a, a)) (rg_ordered r)) \<and>
     distinct (map provider_key (rg_ordered r)) \<and>
     list_all (\<lambda>a. provider_key a \<noteq> []) (rg_ordered r) \<and>
     rg_defaultProvider r \<in> provider_key ` set (rg_ordered r) \<and>
     TrimSpace (rg_defaultProvider r) = rg_defaultProvider r"

definition agrees :: "Registry \<Rightarrow> bool" where
  "agrees r \<longleftrightarrow>
     rg_adapters r = map_of (map (\<lambda>a. (provider_key a, a)) (rg_ordered r)) \<and>
     distinct (map provider_key (rg_ordered r)) \<and>
     list_all (\<lambda>a. provider_key a \<noteq> []) (rg_ordered r)"

lemma map_of_snoc: "k \<notin> fst ` set xs \<Longrightarrow> map_of (xs @ [(k, v)]) = (map_of xs)(k \<mapsto> v)"
  by (induction xs) auto

lemma agrees_extend:
  "agrees r \<Longrightarrow> provider_key a \<noteq> [] \<Longrightarrow> rg_adapters r (provider_key a) = None \<Longrightarrow>
   agrees (r\<lparr>rg_adapters := (rg_adapters r)(provider_key a \<mapsto> a), rg_ordered := rg_ordered r @ [a]\<rparr>)"
  by (auto simp: agrees_def map_of_eq_None_iff image_image map_of_snoc simp del: map_of_append)

lemma agrees_lookup: "agrees r \<Longrightarrow> rg_adapters r k = None \<longleftrightarrow> k \<notin> provider_key ` set (rg_ordered r)"
  by (auto simp: agrees_def map_of_eq_None_iff image_image)


text \<open>Which registrations succeed, and with which result.\<close>

lemma register_iff:
  "agrees r \<Longrightarrow>
   register r as = Inr r' \<longleftrightarrow>
   None \<notin> set as \<and> list_all (\<lambda>a. provider_key a \<noteq> []) (map the as) \<and>
   distinct (map provider_key (rg_ordered r @ map the as)) \<and>
   rg_defaultProvider r' = rg_defaultProvider r \<and> rg_ordered r' = rg_ordered r @ map the as \<and> agrees r'"
proof (induction r as rule: register.induct)
  case (1 r)
  then show ?case
    by (cases r; cases r') (auto simp: agrees_def)
next
  case (2 r as)
  then show ?case by simp
next
  case (3 r a as)
  have key: "TrimSpace (ad_ProviderID a) = provider_key a" by (simp add: provider_key_def)
  show ?case
  proof (cases "provider_key a = [] \<or> rg_adapters r (provider_key a) \<noteq> None")
    case True
    with "3.prems" have "provider_key a = [] \<or> provider_key a \<in> provider_key ` set (rg_ordered r)"
      by (auto simp: agrees_def map_of_eq_None_iff image_image)
    with True show ?thesis by (auto simp: key Let_def)
  next
    case False
    then have "agrees (r\<lparr>rg_adapters := (rg_adapters r)(provider_key a \<mapsto> a), rg_ordered := rg_ordered r @ [a]\<rparr>)"
      using "3.prems" by (intro agrees_extend) auto
    with False "3.IH" [OF refl] show ?thesis by (simp add: key Let_def)
  qed
qed

text \<open>C37. \<open>NewRegistry\<close> succeeds exactly for a non-empty list of non-nil adapters with distinct non-empty
  ids (blanks around them aside) among which the default provider is; the registry then holds these
  adapters in their order, its map finds each under its id, and the default provider is registered.\<close>

theorem NewRegistry_iff:
  "NewRegistry d as = Inr r \<longleftrightarrow>
   None \<notin> set as \<and> distinct (map provider_key (map the as)) \<and>
   list_all (\<lambda>a. provider_key a \<noteq> []) (map the as) \<and> TrimSpace d \<in> provider_key ` set (map the as) \<and>
   rg_ordered r = map the as \<and> rg_defaultProvider r = TrimSpace d \<and> wf_registry r"
proof -
  have e: "agrees (empty_registry d)" by (simp add: agrees_def empty_registry_def)
  have wf: "wf_registry r \<longleftrightarrow> agrees r \<and> rg_defaultProvider r \<in> provider_key ` set (rg_ordered r) \<and>
      TrimSpace (rg_defaultProvider r) = rg_defaultProvider r" for r
    by (auto simp: wf_registry_def agrees_def)
  have "NewRegistry d as = Inr r \<longleftrightarrow> register (empty_registry d) as = Inr r \<and> rg_ordered r \<noteq> [] \<and>
      rg_defaultProvider r \<noteq> [] \<and> rg_adapters r (rg_defaultProvider r) \<noteq> None"
    by (auto simp: NewRegistry_def split: sum.splits if_splits)
  also have "\<dots> \<longleftrightarrow> register (empty_registry d) as = Inr r \<and> rg_defaultProvider r \<in> provider_key ` set (rg_ordered r)"
  proof -
    have "rg_ordered r \<noteq> [] \<and> rg_defaultProvider r \<noteq> [] \<and> rg_adapters r (rg_defaultProvider r) \<noteq> None \<longleftrightarrow>
        rg_defaultProvider r \<in> provider_key ` set (rg_ordered r)" if "agrees r"
      unfolding agrees_lookup [OF that] using that by (auto simp: agrees_def list_all_iff)
    then show ?thesis using register_iff [OF e, of as r] by blast
  qed
  also have "\<dots> \<longleftrightarrow> (None \<notin> set as \<and> list_all (\<lambda>a. provider_key a \<noteq> []) (map the as) \<and>
      distinct (map provider_key (map the as)) \<and> rg_defaultProvider r = TrimSpace d \<and>
      rg_ordered r = map the as \<and> agrees r) \<and> rg_defaultProvider r \<in> provider_key ` set (rg_ordered r)"
    unfolding register_iff [OF e] by (auto simp: empty_registry_def)
  finally show ?thesis
    unfolding wf by (metis TrimSpace_idem)
qed

section \<open>Resolution\<close>

lemma wf_agrees: "wf_registry r \<Longrightarrow> agrees r"
  by (simp add: wf_registry_def agrees_def)

lemma wf_lookup:
  assumes "wf_registry r"
  shows "rg_adapters r k = Some a \<longleftrightarrow> a \<in> set (rg_ordered r) \<and> provider_key a = k"
proof -
  have "distinct (map fst (map (\<lambda>a. (provider_key a, a)) (rg_ordered r)))"
    using assms by (simp add: wf_registry_def o_def)
  from map_of_eq_Some_iff [OF this] assms show ?thesis
    by (auto simp: wf_registry_def)
qed

text \<open>On a well-formed registry, resolving a provider gives the registered adapter with that id, the
  default one for a blank id, and it fails exactly for an id that no adapter has.\<close>

theorem Resolve_spec:
  assumes "wf_registry r"
  shows "case Resolve (Some r) p of
      Inr a \<Rightarrow> a \<in> set (rg_ordered r) \<and> provider_key a = (if TrimSpace p = '''' then rg_defaultProvider r else TrimSpace p)
    | Inl _ \<Rightarrow> TrimSpace p \<notin> provider_key ` set (rg_ordered r) \<and> TrimSpace p \<noteq> ''''"
proof (cases "rg_adapters r (selected_provider r p)")
  case None
  have "selected_provider r p \<notin> provider_key ` set (rg_ordered r)"
    using None agrees_lookup [OF wf_agrees [OF assms]] by blast
  moreover from this have "TrimSpace p \<noteq> ''''"
    using assms by (auto simp: selected_provider_def wf_registry_def)
  ultimately show ?thesis using None by (simp add: Resolve_def selected_provider_def)
next
  case (Some a)
  then have "a \<in> set (rg_ordered r) \<and> provider_key a = selected_provider r p" using wf_lookup [OF assms] by blast
  moreover have "Resolve (Some r) p = Inr a" by (simp add: Resolve_def Some)
  ultimately show ?thesis by (simp add: selected_provider_def Let_def)
qed

lemma first_match_Some:
  "first_match as raw = Some (a, l) \<longleftrightarrow>
   (\<exists>us vs. as = us @ a # vs \<and> ad_ParseRunURL a raw = Inr l \<and> list_all (\<lambda>u. isl (ad_ParseRunURL u raw)) us)"
proof (induction as)
  case (Cons b as)
  show ?case
  proof (cases "ad_ParseRunURL b raw")
    case (Inl e)
    have "(\<exists>us vs. b # as = us @ a # vs \<and> ad_ParseRunURL a raw = Inr l \<and> list_all (\<lambda>u. isl (ad_ParseRunURL u raw)) us) \<longleftrightarrow>
        (\<exists>us vs. as = us @ a # vs \<and> ad_ParseRunURL a raw = Inr l \<and> list_all (\<lambda>u. isl (ad_ParseRunURL u raw)) us)"
      (is "(\<exists>us. ?L us) \<longleftrightarrow> (\<exists>us. ?R us)")
    proof
      assume "\<exists>us. ?L us"
      then obtain us vs where "b # as = us @ a # vs" "ad_ParseRunURL a raw = Inr l" "list_all (\<lambda>u. isl (ad_ParseRunURL u raw)) us"
        by blast
      with Inl show "\<exists>us. ?R us" by (cases us) auto
    next
      assume "\<exists>us. ?R us"
      then obtain us where "?R us" by blast
      with Inl have "?L (b # us)" by simp
      then show "\<exists>us. ?L us" by blast
    qed
    with Cons Inl show ?thesis by simp
  next
    case (Inr l')
    then show ?thesis by (auto simp: Cons_eq_append_conv)
  qed
qed simp

lemma first_match_None: "first_match as raw = None \<longleftrightarrow> list_all (\<lambda>a. isl (ad_ParseRunURL a raw)) as"
  by (induction as) (auto split: sum.splits)

lemma Resolve_member: "wf_registry r \<Longrightarrow> Resolve (Some r) p = Inr a \<Longrightarrow> a \<in> set (rg_ordered r)"
  by (auto simp: Resolve_def Let_def wf_lookup split: option.splits)

text \<open>On a well-formed registry, a run URL is resolved without naming a provider exactly if some
  adapter accepts it; the adapter returned is registered, the locator is its own reading of the URL, and
  every adapter before it refuses the URL.\<close>

theorem ResolveRunURL_first:
  assumes "wf_registry r" "TrimSpace p = ''''"
  shows "case ResolveRunURL (Some r) p raw of
      Inr (a, l) \<Rightarrow> (\<exists>us vs. rg_ordered r = us @ a # vs \<and> ad_ParseRunURL a raw = Inr l \<and>
        list_all (\<lambda>u. isl (ad_ParseRunURL u raw)) us)
    | Inl _ \<Rightarrow> list_all (\<lambda>a. isl (ad_ParseRunURL a raw)) (rg_ordered r)"
proof (cases "length (rg_ordered r) = 1")
  case True
  then obtain a where "rg_ordered r = [a]" by (auto simp: length_Suc_conv)
  then show ?thesis
    using assms(2) by (auto simp: ResolveRunURL_def parse_with_def Cons_eq_append_conv split: sum.split)
next
  case False
  show ?thesis
  proof (cases "first_match (rg_ordered r) raw")
    case None
    then have "list_all (\<lambda>a. isl (ad_ParseRunURL a raw)) (rg_ordered r)" by (simp add: first_match_None)
    with None False assms(2) show ?thesis by (simp add: ResolveRunURL_def)
  next
    case (Some al)
    obtain a l where "al = (a, l)" by (cases al)
    with Some have m: "first_match (rg_ordered r) raw = Some (a, l)" by simp
    with False assms(2) have "ResolveRunURL (Some r) p raw = Inr (a, l)" by (simp add: ResolveRunURL_def)
    with m [unfolded first_match_Some] show ?thesis by simp
  qed
qed

lemma ResolveRunURL_member:
  assumes "wf_registry r" "ResolveRunURL (Some r) p raw = Inr (a, l)"
  shows "a \<in> set (rg_ordered r) \<and> ad_ParseRunURL a raw = Inr l"
proof (cases "TrimSpace p = ''''")
  case True
  with assms show ?thesis
    by (auto simp: ResolveRunURL_def parse_with_def first_match_Some length_Suc_conv
        split: if_splits sum.splits option.splits)
next
  case False
  with assms show ?thesis
    by (auto simp: ResolveRunURL_def parse_with_def Let_def dest: Resolve_member split: sum.splits)
qed

section \<open>The contract of an adapter\<close>

text \<open>
  What the service relies on: an adapter normalises repositories, names the errors that stand for
  missing logs as such, and its reads stay within the effect \<open>R\<close>.
\<close>

locale provider = effect R for R +
  fixes A :: Adapter
  assumes ParseRepository_idem: "ad_ParseRepository A s = Inr r \<Longrightarrow> ad_ParseRepository A r = Inr r"
    and logs_unavailable: "ad_IsLogsUnavailable A e \<Longrightarrow> te_Code (ad_MapError A e) = ErrorCodeLogUnavailable"
    and GetRun_moves: "moves R (ad_GetRun A s i)"
    and ListRunJobs_moves: "moves R (ad_ListRunJobs A s i)"
    and DownloadRunLogs_moves: "moves R (ad_DownloadRunLogs A s i n)"
    and ListRepositoryRuns_moves: "moves R (ad_ListRepositoryRuns A s opts n)"
    and GetCheckRun_moves: "moves R (ad_GetCheckRun A s i)"
    and GetCheckRunAnnotations_moves: "moves R (ad_GetCheckRunAnnotations A s i)"
    and ListDeploymentBranchPolicies_moves: "moves R (ad_ListDeploymentBranchPolicies A s t)"
begin

lemmas reads = GetRun_moves ListRunJobs_moves DownloadRunLogs_moves ListRepositoryRuns_moves
  GetCheckRun_moves GetCheckRunAnnotations_moves ListDeploymentBranchPolicies_moves

end

lemma provider_mono:
  assumes "provider R A" "effect R'" "\<And>w w'. R w w' \<Longrightarrow> R' w w'"
  shows "provider R' A"
proof -
  have m: "moves R m \<Longrightarrow> moves R' m" for m using assms(3) by (simp add: moves_def)
  show ?thesis
    using assms(2) provider.ParseRepository_idem [OF assms(1)] provider.logs_unavailable [OF assms(1)]
      provider.reads [OF assms(1), THEN m]
    by (simp add: provider_def provider_axioms_def)
qed

end
