(* ===== verification/Go_Regex.thy ===== *)
theory Go_Regex
  imports Go_Strings
begin

text \<open>
  Go's package regexp for the patterns the program compiles: rune classes with greedy repetition,
  sequence, alternation, capture groups, multi-line \<open>^\<close> and the ASCII word boundary. The
  matcher enumerates the ways a pattern can match at a position in the order of preference of a
  backtracking search; Go returns the first of them (leftmost-first). No pattern of the program
  matches the empty string (\<open>nullable\<close>), so the special treatment of empty matches by the
  \<open>All\<close> functions has no equation here.
\<close>

text \<open>A class: single bytes by a predicate, and the UTF-8 encodings of further runes.\<close>

type_synonym rclass = "(char \<Rightarrow> bool) \<times> string list"

datatype re =
    Eps
  | One rclass
  | Rep rclass nat "nat option"
  | Cat re re
  | Alt re re
  | Grp nat re
  | Bol
  | WordB

type_synonym caps = "(nat \<times> string) list"

text \<open>A position: the byte before it (none at the start of the text), the rest, the groups so far.\<close>

type_synonym mstate = "char option \<times> string \<times> caps"

definition is_word :: "char \<Rightarrow> bool" where
  "is_word c \<longleftrightarrow> (48 \<le> byte c \<and> byte c \<le> 57) \<or> (65 \<le> byte c \<and> byte c \<le> 90) \<or> byte c = 95 \<or>
     (97 \<le> byte c \<and> byte c \<le> 122)"

fun adv :: "rclass \<Rightarrow> mstate \<Rightarrow> mstate option" where
  "adv k (p, [], c) = None"
| "adv k (p, x # xs, c) =
     (if fst k x then Some (Some x, xs, c)
      else case strip_any (snd k) (x # xs) of
        None \<Rightarrow> None
      | Some r \<Rightarrow> if length r < length (x # xs) then Some (Some x, r, c) else None)"

fun iter_steps :: "nat \<Rightarrow> rclass \<Rightarrow> mstate \<Rightarrow> mstate list" where
  "iter_steps 0 k st = [st]"
| "iter_steps (Suc n) k st = st # (case adv k st of None \<Rightarrow> [] | Some st' \<Rightarrow> iter_steps n k st')"

definition at_word_boundary :: "char option \<Rightarrow> string \<Rightarrow> bool" where
  "at_word_boundary p s \<longleftrightarrow>
     (case p of None \<Rightarrow> False | Some x \<Rightarrow> is_word x) \<noteq> (case s of [] \<Rightarrow> False | y # _ \<Rightarrow> is_word y)"

fun ms :: "re \<Rightarrow> mstate \<Rightarrow> mstate list" where
  "ms Eps st = [st]"
| "ms (One k) st = (case adv k st of None \<Rightarrow> [] | Some st' \<Rightarrow> [st'])"
| "ms (Rep k lo hi) (p, s, c) =
     rev (drop lo (iter_steps (case hi of None \<Rightarrow> length s | Some h \<Rightarrow> h) k (p, s, c)))"
| "ms (Cat a b) st = concat (map (ms b) (ms a st))"
| "ms (Alt a b) st = ms a st @ ms b st"
| "ms (Grp n a) (p, s, c) =
     map (\<lambda>(p', s', c'). (p', s', (n, take (length s - length s') s) # c')) (ms a (p, s, c))"
| "ms Bol (p, s, c) = (if p = None \<or> p = Some (CHR 0x0A) then [(p, s, c)] else [])"
| "ms WordB (p, s, c) = (if at_word_boundary p s then [(p, s, c)] else [])"

text \<open>Leftmost match: what is skipped, the match, its groups, and where the search goes on.\<close>

fun search :: "re \<Rightarrow> char option \<Rightarrow> string \<Rightarrow> (string \<times> string \<times> caps \<times> char option \<times> string) option" where
  "search r p s =
     (case ms r (p, s, []) of
        (p', s', c) # _ \<Rightarrow> Some ([], take (length s - length s') s, c, p', s')
      | [] \<Rightarrow>
          (case s of
             [] \<Rightarrow> None
           | x # xs \<Rightarrow> map_option (\<lambda>(g, m, rest). (x # g, m, rest)) (search r (Some x) xs)))"

declare search.simps [simp del]

lemma adv_suffix: "adv k (p, s, c) = Some (p', s', c') \<Longrightarrow> suffix s' s \<and> length s' < length s \<and> c' = c"
  by (cases s) (auto simp: suffix_def split: if_splits option.splits dest: strip_any_Some)

lemma iter_steps_suffix:
  "(p', s', c') \<in> set (iter_steps n k (p, s, c)) \<Longrightarrow> suffix s' s \<and> c' = c"
proof (induction n arbitrary: p s c)
  case (Suc n)
  show ?case
  proof (cases "adv k (p, s, c)")
    case None
    with Suc.prems show ?thesis by simp
  next
    case (Some st)
    obtain q t d where st: "st = (q, t, d)" by (cases st)
    with Some have "suffix t s" "d = c" by (auto dest: adv_suffix)
    with Suc Some st show ?thesis by (auto intro: suffix_order.trans)
  qed
qed simp

lemma ms_suffix: "(p', s', c') \<in> set (ms r (p, s, c)) \<Longrightarrow> suffix s' s"
proof (induction r arbitrary: p s c p' s' c')
  case (One k)
  then show ?case by (auto split: option.splits dest: adv_suffix adv_suffix [OF sym])
next
  case (Rep k lo hi)
  then show ?case by (auto dest!: in_set_dropD dest: iter_steps_suffix)
next
  case (Cat a b)
  then show ?case by (fastforce intro: suffix_order.trans)
next
  case (Grp n a)
  then show ?case by fastforce
qed (auto split: if_splits)

lemma search_split: "search r p s = Some (g, m, c, p', s') \<Longrightarrow> s = g @ m @ s'"
proof (induction r p s arbitrary: g rule: search.induct)
  case (1 r p s)
  show ?case
  proof (cases "ms r (p, s, [])")
    case (Cons st sts)
    obtain q t d where st: "st = (q, t, d)" by (cases st)
    with Cons have "suffix t s" by (intro ms_suffix [of q t d r p s "[]"]) simp
    moreover from Cons st "1.prems" have "g = [] \<and> m = take (length s - length t) s \<and> s' = t"
      by (auto simp: search.simps [of r p s])
    ultimately show ?thesis by (clarsimp simp: suffix_def)
  next
    case Nil
    with "1.prems" obtain x xs g' where x: "s = x # xs" "g = x # g'"
      "search r (Some x) xs = Some (g', m, c, p', s')"
      by (auto simp: search.simps [of r p s] split: list.splits)
    with "1.IH" [OF Nil x(1) x(3)] show ?thesis by simp
  qed
qed

text \<open>All matches, left to right: what lies before each match, the match and its groups; then the tail.\<close>

function scan :: "re \<Rightarrow> char option \<Rightarrow> string \<Rightarrow> (string \<times> string \<times> caps) list \<times> string" where
  "scan r p s =
     (case search r p s of
        None \<Rightarrow> ([], s)
      | Some (g, m, c, p', s') \<Rightarrow>
          if m = [] then ([], s)
          else let (l, rest) = scan r p' s' in ((g, m, c) # l, rest))"
  by pat_completeness auto
termination
  by (relation "measure (\<lambda>(r, p, s). length s)") (auto dest: search_split)

declare scan.simps [simp del]

section \<open>The functions of the package\<close>

fun num_groups :: "re \<Rightarrow> nat" where
  "num_groups (Cat a b) = num_groups a + num_groups b"
| "num_groups (Alt a b) = num_groups a + num_groups b"
| "num_groups (Grp n a) = Suc (num_groups a)"
| "num_groups _ = 0"

definition MatchString :: "re \<Rightarrow> string \<Rightarrow> bool" where
  "MatchString r s \<longleftrightarrow> search r None s \<noteq> None"

text \<open>The match and its groups; a group that took no part is the empty string.\<close>

definition submatch :: "re \<Rightarrow> string \<Rightarrow> caps \<Rightarrow> string list" where
  "submatch r m c =
     m # map (\<lambda>i. case map_of c i of None \<Rightarrow> [] | Some t \<Rightarrow> t) [1..<Suc (num_groups r)]"

definition FindStringSubmatch :: "re \<Rightarrow> string \<Rightarrow> string list" where
  "FindStringSubmatch r s =
     (case search r None s of None \<Rightarrow> [] | Some (g, m, c, p', s') \<Rightarrow> submatch r m c)"

definition FindAllStringSubmatch :: "re \<Rightarrow> string \<Rightarrow> string list list" where
  "FindAllStringSubmatch r s = map (\<lambda>(g, m, c). submatch r m c) (fst (scan r None s))"

fun index_matches :: "nat \<Rightarrow> (string \<times> string \<times> caps) list \<Rightarrow> (nat \<times> nat) list" where
  "index_matches i [] = []"
| "index_matches i ((g, m, c) # l) =
     (i + length g, i + length g + length m) # index_matches (i + length g + length m) l"

definition FindAllStringIndex :: "re \<Rightarrow> string \<Rightarrow> (nat \<times> nat) list" where
  "FindAllStringIndex r s = index_matches 0 (fst (scan r None s))"

definition ReplaceAllStringFunc :: "re \<Rightarrow> (string \<Rightarrow> string) \<Rightarrow> string \<Rightarrow> string" where
  "ReplaceAllStringFunc r f s =
     (case scan r None s of (l, rest) \<Rightarrow> concat (map (\<lambda>(g, m, c). g @ f m) l) @ rest)"

section \<open>Building patterns\<close>

definition chr1 :: "char \<Rightarrow> rclass" where "chr1 a = ((\<lambda>c. c = a), [])"
definition ascii :: "(char \<Rightarrow> bool) \<Rightarrow> rclass" where "ascii P = (P, [])"

text \<open>Under \<open>(?i)\<close> the letters s and k also match U+017F and U+212A.\<close>

definition fold_runes :: "char \<Rightarrow> string list" where
  "fold_runes a =
     (if a = CHR ''s'' then [[CHR 0xC5, CHR 0xBF]]
      else if a = CHR ''k'' then [[CHR 0xE2, CHR 0x84, CHR 0xAA]] else [])"

definition chri :: "char \<Rightarrow> rclass" where
  "chri a = ((\<lambda>c. lower_byte c = a), fold_runes a)"

fun lit :: "string \<Rightarrow> re" where
  "lit [] = Eps"
| "lit (a # as) = Cat (One (chr1 a)) (lit as)"

fun liti :: "string \<Rightarrow> re" where
  "liti [] = Eps"
| "liti (a # as) = Cat (One (chri a)) (liti as)"

definition plus :: "rclass \<Rightarrow> re" where "plus k = Rep k 1 None"
definition star :: "rclass \<Rightarrow> re" where "star k = Rep k 0 None"
definition opt :: "rclass \<Rightarrow> re" where "opt k = Rep k 0 (Some 1)"

text \<open>\<open>\s\<close>, \<open>\S\<close>, \<open>\d\<close> and \<open>.\<close>; the byte form of a negated class covers whole runes.\<close>

definition is_blank :: "char \<Rightarrow> bool" where
  "is_blank c \<longleftrightarrow> byte c \<in> {9, 10, 12, 13, 32}"

definition cls_s :: rclass where "cls_s = ascii is_blank"
definition cls_S :: rclass where "cls_S = ascii (\<lambda>c. \<not> is_blank c)"
definition cls_d :: rclass where "cls_d = ascii is_digit"
definition cls_dot :: rclass where "cls_dot = ascii (\<lambda>c. c \<noteq> CHR 0x0A)"

fun cats :: "re list \<Rightarrow> re" where
  "cats [] = Eps"
| "cats [r] = r"
| "cats (r # rs) = Cat r (cats rs)"

fun alts :: "re list \<Rightarrow> re" where
  "alts [] = Eps"
| "alts [r] = r"
| "alts (r # rs) = Alt r (alts rs)"

section \<open>Facts\<close>

fun nullable :: "re \<Rightarrow> bool" where
  "nullable (One k) = False"
| "nullable (Rep k lo hi) = (lo = 0)"
| "nullable (Cat a b) = (nullable a \<and> nullable b)"
| "nullable (Alt a b) = (nullable a \<or> nullable b)"
| "nullable (Grp n a) = nullable a"
| "nullable _ = True"

lemma iter_steps_nth:
  "i < length (iter_steps n k (p, s, c)) \<Longrightarrow> iter_steps n k (p, s, c) ! i = (p', s', c') \<Longrightarrow>
   length s' + i \<le> length s"
proof (induction n arbitrary: i p s c)
  case (Suc n)
  show ?case
  proof (cases i)
    case (Suc j)
    with Suc.prems obtain q t d where "adv k (p, s, c) = Some (q, t, d)"
      and j: "j < length (iter_steps n k (q, t, d))" "iter_steps n k (q, t, d) ! j = (p', s', c')"
      by (auto split: option.splits)
    then have "length t < length s" by (auto dest: adv_suffix adv_suffix [OF sym])
    with Suc.IH [OF j] Suc show ?thesis by simp
  qed (use Suc.prems in simp)
qed simp

lemma ms_progress:
  "\<not> nullable r \<Longrightarrow> (p', s', c') \<in> set (ms r (p, s, c)) \<Longrightarrow> length s' < length s"
proof (induction r arbitrary: p s c p' s' c')
  case (One k)
  then show ?case by (auto split: option.splits dest: adv_suffix adv_suffix [OF sym])
next
  case (Rep k lo hi)
  let ?l = "iter_steps (case hi of None \<Rightarrow> length s | Some h \<Rightarrow> h) k (p, s, c)"
  from Rep.prems have "(p', s', c') \<in> set (drop lo ?l)" by simp
  then obtain i where "i < length (drop lo ?l)" "drop lo ?l ! i = (p', s', c')"
    by (metis in_set_conv_nth)
  then have "lo + i < length ?l" "?l ! (lo + i) = (p', s', c')" by simp_all
  from iter_steps_nth [OF this] Rep.prems show ?case by simp
next
  case (Cat a b)
  then obtain q t d where ab: "(q, t, d) \<in> set (ms a (p, s, c))" "(p', s', c') \<in> set (ms b (q, t, d))"
    by auto
  then have "length t \<le> length s" "length s' \<le> length t"
    by (meson ms_suffix suffix_length_le)+
  with Cat.IH(1) [OF _ ab(1)] Cat.IH(2) [OF _ ab(2)] Cat.prems(1) show ?case by fastforce
next
  case (Alt a b)
  then show ?case by auto
next
  case (Grp n a)
  then show ?case by fastforce
qed (auto split: if_splits)

lemma search_nonempty: "\<not> nullable r \<Longrightarrow> search r p s = Some (g, m, c, p', s') \<Longrightarrow> m \<noteq> []"
proof (induction r p s arbitrary: g rule: search.induct)
  case (1 r p s)
  show ?case
  proof (cases "ms r (p, s, [])")
    case (Cons st sts)
    obtain q t d where st: "st = (q, t, d)" by (cases st)
    with Cons "1.prems"(1) have "length t < length s" by (intro ms_progress [of r q t d p s "[]"]) simp_all
    with Cons st "1.prems" show ?thesis by (auto simp: search.simps [of r p s])
  next
    case Nil
    with 1 show ?thesis by (auto simp: search.simps [of r p s] split: list.splits)
  qed
qed

text \<open>
  Nothing that the pattern finds regardless of context starts before a leftmost match, nor anywhere
  when there is none.
\<close>

lemma search_skips:
  "search r p s = Some (g, m, c, p', s') \<Longrightarrow> s = u @ t \<Longrightarrow> length u < length g \<Longrightarrow>
   \<exists>q. ms r (q, t, []) = []"
proof (induction r p s arbitrary: g u rule: search.induct)
  case (1 r p s)
  show ?case
  proof (cases "ms r (p, s, [])")
    case (Cons st sts)
    with "1.prems"(1) have "g = []" by (auto simp: search.simps [of r p s] split: prod.splits)
    with "1.prems"(3) show ?thesis by simp
  next
    case Nil
    with "1.prems"(1) obtain x xs g' where x: "s = x # xs" "g = x # g'"
      "search r (Some x) xs = Some (g', m, c, p', s')"
      by (auto simp: search.simps [of r p s] split: list.splits)
    with 1 Nil show ?thesis by (cases u) auto
  qed
qed

lemma search_none: "search r p s = None \<Longrightarrow> s = u @ t \<Longrightarrow> \<exists>q. ms r (q, t, []) = []"
proof (induction r p s arbitrary: u rule: search.induct)
  case (1 r p s)
  from "1.prems"(1) have Nil: "ms r (p, s, []) = []"
    by (auto simp: search.simps [of r p s] split: list.splits)
  show ?case
  proof (cases u)
    case Nil
    with \<open>ms r (p, s, []) = []\<close> "1.prems"(2) show ?thesis by auto
  next
    case (Cons x v)
    with "1.prems" have s: "s = x # v @ t" by simp
    with "1.prems"(1) Nil have "search r (Some x) (v @ t) = None"
      by (subst (asm) search.simps) simp
    with "1.IH" [OF Nil s] show ?thesis by blast
  qed
qed

lemma scan_split: "scan r p s = (l, rest) \<Longrightarrow> s = concat (map (\<lambda>(g, m, c). g @ m) l) @ rest"
proof (induction r p s arbitrary: l rule: scan.induct)
  case (1 r p s)
  show ?case
  proof (cases "search r p s")
    case None
    with "1.prems" show ?thesis by (simp add: scan.simps [of r p s])
  next
    case (Some z)
    obtain g m c p' s' where z: "z = (g, m, c, p', s')" by (cases z)
    obtain l' rest' where sc: "scan r p' s' = (l', rest')" by fastforce
    from Some z have eq: "s = g @ m @ s'" by (simp add: search_split)
    show ?thesis
    proof (cases "m = []")
      case True
      with "1.prems" Some z show ?thesis by (simp add: scan.simps [of r p s])
    next
      case False
      with "1.prems" Some z sc have l: "l = (g, m, c) # l'" "rest = rest'"
        by (simp_all add: scan.simps [of r p s])
      from "1.IH" [OF Some, of g _ m _ c _ p' s' l'] False z sc l(2)
      have "s' = concat (map (\<lambda>(g, m, c). g @ m) l') @ rest" by simp
      with eq l show ?thesis by simp
    qed
  qed
qed

text \<open>Induction along the matches of a pattern that is never empty.\<close>

lemma scan_induct [consumes 2, case_names none step]:
  assumes "scan r p s = (l, rest)" "\<not> nullable r"
    and none: "\<And>p s. search r p s = None \<Longrightarrow> P p s [] s"
    and step: "\<And>p s g m c p' s' l rest. search r p s = Some (g, m, c, p', s') \<Longrightarrow> m \<noteq> [] \<Longrightarrow>
      s = g @ m @ s' \<Longrightarrow> scan r p' s' = (l, rest) \<Longrightarrow> P p' s' l rest \<Longrightarrow> P p s ((g, m, c) # l) rest"
  shows "P p s l rest"
  using assms(1)
proof (induction s arbitrary: p l rest rule: length_induct)
  case (1 s)
  show ?case
  proof (cases "search r p s")
    case None
    with 1(2) none show ?thesis by (simp add: scan.simps [of r p s])
  next
    case (Some z)
    obtain g m c p' s' where z: "z = (g, m, c, p', s')" by (cases z)
    obtain l' rest' where sc: "scan r p' s' = (l', rest')" by fastforce
    from search_nonempty [OF assms(2) Some [unfolded z]] have m: "m \<noteq> []" .
    from search_split [OF Some [unfolded z]] have s: "s = g @ m @ s'" .
    from m s have "length s' < length s" by simp
    with 1(1) sc have "P p' s' l' rest'" by blast
    moreover have "l = (g, m, c) # l'" "rest = rest'"
      using 1(2) Some z sc m by (simp_all add: scan.simps [of r p s])
    ultimately show ?thesis using step [OF Some [unfolded z] m s] sc by simp
  qed
qed

lemma index_matches_sound:
  "(a, b) \<in> set (index_matches i l) \<Longrightarrow>
   \<exists>pre g m c post. l = pre @ (g, m, c) # post \<and>
     a = i + length (concat (map (\<lambda>(g, m, c). g @ m) pre)) + length g \<and> b = a + length m"
proof (induction l arbitrary: i)
  case (Cons x l)
  obtain g m c where x: "x = (g, m, c)" by (cases x)
  consider "a = i + length g" "b = a + length m"
    | "(a, b) \<in> set (index_matches (i + length g + length m) l)"
    using Cons.prems x by auto
  then show ?case
  proof cases
    case 1
    with x show ?thesis by (intro exI [of _ "[]"] exI) auto
  next
    case 2
    from Cons.IH [OF this] obtain pre g' m' c' post where "l = pre @ (g', m', c') # post"
      "a = i + length g + length m + length (concat (map (\<lambda>(g, m, c). g @ m) pre)) + length g'"
      "b = a + length m'" by blast
    with x show ?thesis by (intro exI [of _ "x # pre"] exI) auto
  qed
qed simp

lemma length_index_matches [simp]: "length (index_matches i l) = length l"
  by (induction i l rule: index_matches.induct) auto

lemma FindAllStringIndex_bounds:
  assumes "(a, b) \<in> set (FindAllStringIndex r s)"
  shows "a \<le> b \<and> b \<le> length s"
proof -
  obtain l rest where sc: "scan r None s = (l, rest)" by fastforce
  with assms obtain pre g m c post where *: "l = pre @ (g, m, c) # post"
    "a = length (concat (map (\<lambda>(g, m, c). g @ m) pre)) + length g" "b = a + length m"
    by (auto simp: FindAllStringIndex_def dest!: index_matches_sound)
  with scan_split [OF sc] show ?thesis by auto
qed

text \<open>Captured text is part of the text searched.\<close>

lemma ms_caps:
  "(p', s', c') \<in> set (ms r (p, s, c)) \<Longrightarrow> (i, t) \<in> set c' \<Longrightarrow> (i, t) \<in> set c \<or> sublist t s"
proof (induction r arbitrary: p s c p' s' c')
  case (One k)
  then show ?case by (auto split: option.splits dest: adv_suffix adv_suffix [OF sym])
next
  case (Rep k lo hi)
  then show ?case by (auto dest!: in_set_dropD dest: iter_steps_suffix)
next
  case (Cat a b)
  then obtain q u d where ab: "(q, u, d) \<in> set (ms a (p, s, c))" "(p', s', c') \<in> set (ms b (q, u, d))"
    by auto
  then have "sublist u s" by (simp add: ms_suffix suffix_imp_sublist)
  with Cat.IH(1) [OF ab(1)] Cat.IH(2) [OF ab(2) Cat.prems(2)] show ?case
    by (meson sublist_order.order_trans)
next
  case (Alt a b)
  then show ?case by auto blast+
next
  case (Grp n a)
  then show ?case by fastforce
qed (auto split: if_splits)

text \<open>
  A pattern without \<open>^\<close> and \<open>\b\<close> matches the text it consumed when that text stands
  alone: this is what \<open>FindStringSubmatch\<close> on a match relies on.
\<close>

fun context_free :: "re \<Rightarrow> bool" where
  "context_free (Cat a b) = (context_free a \<and> context_free b)"
| "context_free (Alt a b) = (context_free a \<and> context_free b)"
| "context_free (Grp n a) = context_free a"
| "context_free Bol = False"
| "context_free WordB = False"
| "context_free _ = True"

lemma strip_any_alone:
  "strip_any es (s @ t) = Some (r @ t) \<Longrightarrow> strip_any es s = Some r"
proof (induction es)
  case (Cons e es)
  show ?case
  proof (cases "drop_prefix e (s @ t)")
    case None
    then have "drop_prefix e s = None"
      by (metis append.assoc drop_prefix_Some option.exhaust option.simps(3))
    with None Cons show ?thesis by simp
  next
    case (Some z)
    with Cons.prems have "s = e @ r" by (simp add: drop_prefix_Some)
    then have "drop_prefix e s = Some r" by (simp add: drop_prefix_Some)
    then show ?thesis by simp
  qed
qed simp

lemma adv_alone:
  assumes "adv k (p, s @ t, c) = Some (p', s' @ t, c')"
  shows "adv k (q, s, c) = Some (p', s', c')"
proof -
  from assms have "length s' < length s" by (auto dest: adv_suffix)
  then obtain x xs where s: "s = x # xs" by (cases s) auto
  show ?thesis
  proof (cases "fst k x")
    case True
    with assms s show ?thesis by simp
  next
    case False
    with assms s have "strip_any (snd k) ((x # xs) @ t) = Some (s' @ t)" "p' = Some x" "c' = c"
      by (auto split: option.splits if_splits)
    with strip_any_alone [OF this(1)] \<open>length s' < length s\<close> s False show ?thesis by simp
  qed
qed

lemma iter_steps_alone:
  "iter_steps n k (p, s @ t, c) ! j = (p', s' @ t, c') \<Longrightarrow> j < length (iter_steps n k (p, s @ t, c)) \<Longrightarrow>
   j \<le> n' \<Longrightarrow>
   \<exists>q'. iter_steps n' k (q, s, c) ! j = (q', s', c') \<and> j < length (iter_steps n' k (q, s, c))"
proof (induction j arbitrary: n n' p q s c)
  case 0
  then show ?case by (cases n; cases n') auto
next
  case (Suc j)
  then obtain m m' where n: "n = Suc m" "n' = Suc m'" by (cases n; cases n') auto
  with Suc.prems obtain st where st: "adv k (p, s @ t, c) = Some st"
    "iter_steps m k st ! j = (p', s' @ t, c')" "j < length (iter_steps m k st)"
    by (auto split: option.splits)
  obtain pa u d where [simp]: "st = (pa, u, d)" by (cases st)
  from st have "(p', s' @ t, c') \<in> set (iter_steps m k (pa, u, d))" by (metis \<open>st = _\<close> nth_mem)
  then have "suffix (s' @ t) u" by (auto dest: iter_steps_suffix)
  then obtain u' where u: "u = u' @ t" by (auto simp: suffix_def)
  with st have "adv k (q, s, c) = Some (pa, u', d)" by (auto intro: adv_alone)
  with Suc.IH [of m pa u' d m' pa] st u n Suc.prems(3) show ?case by simp
qed

lemma ms_alone:
  "context_free r \<Longrightarrow> (p', s' @ t, c') \<in> set (ms r (p, s @ t, c)) \<Longrightarrow>
   \<exists>q'. (q', s', c') \<in> set (ms r (q, s, c))"
proof (induction r arbitrary: p p' q s s' c c')
  case (One k)
  then have "adv k (p, s @ t, c) = Some (p', s' @ t, c')" by (auto split: option.splits)
  from adv_alone [OF this, of q] show ?case by auto
next
  case (Rep k lo hi)
  let ?n = "case hi of None \<Rightarrow> length (s @ t) | Some h \<Rightarrow> h"
  let ?m = "case hi of None \<Rightarrow> length s | Some h \<Rightarrow> h"
  let ?l = "iter_steps ?n k (p, s @ t, c)"
  from Rep.prems obtain i where "i < length (drop lo ?l)" "drop lo ?l ! i = (p', s' @ t, c')"
    by (metis in_set_conv_nth ms.simps(3) set_rev)
  then have i: "?l ! (lo + i) = (p', s' @ t, c')" "lo + i < length ?l" by simp_all
  have "length s' + (lo + i) \<le> length s" using iter_steps_nth [OF i(2,1)] by simp
  moreover have "length (iter_steps n k st) \<le> Suc n" for n k st
    by (induction n arbitrary: st) (auto split: option.splits)
  from this [of ?n k "(p, s @ t, c)"] i(2) have "lo + i \<le> ?n" by linarith
  ultimately have "lo + i \<le> ?m" by (cases hi) auto
  from iter_steps_alone [OF i this, of q] obtain q' where
    q: "iter_steps ?m k (q, s, c) ! (lo + i) = (q', s', c')" "lo + i < length (iter_steps ?m k (q, s, c))"
    by blast
  then have "(q', s', c') \<in> set (drop lo (iter_steps ?m k (q, s, c)))"
    by (auto simp: in_set_conv_nth intro!: exI [of _ i])
  then show ?case by auto
next
  case (Cat a b)
  then obtain pa u d where ab: "(pa, u, d) \<in> set (ms a (p, s @ t, c))"
    "(p', s' @ t, c') \<in> set (ms b (pa, u, d))" by auto
  from ms_suffix [OF ab(2)] obtain u' where u: "u = u' @ t" by (auto simp: suffix_def)
  with ab Cat.prems Cat.IH(1) [of pa u' d p s c q] obtain qa where
    "(qa, u', d) \<in> set (ms a (q, s, c))" by auto
  moreover from ab u Cat.prems Cat.IH(2) [of p' s' c' pa u' d qa] obtain q' where
    "(q', s', c') \<in> set (ms b (qa, u', d))" by auto
  ultimately show ?case by auto
next
  case (Alt a b)
  then show ?case by (auto, metis+)
next
  case (Grp n a)
  then obtain d where d: "(p', s' @ t, d) \<in> set (ms a (p, s @ t, c))"
    "c' = (n, take (length s - length s') (s @ t)) # d" by auto
  then have "length (s' @ t) \<le> length (s @ t)" by (meson ms_suffix suffix_length_le)
  with d(2) have "c' = (n, take (length s - length s') s) # d" by simp
  with d(1) Grp.IH [of p' s' d p s c q] Grp.prems(1) show ?case by force
qed auto

lemma search_alone:
  assumes "context_free r" "search r p s = Some (g, m, c, p', s')"
  shows "\<exists>m' c' q t. search r None m = Some ([], m', c', q, t)"
proof -
  have "\<exists>p c q. (q, s', c) \<in> set (ms r (p, m @ s', []))"
    using assms(2)
  proof (induction r p s arbitrary: g rule: search.induct)
    case (1 r p s)
    show ?case
    proof (cases "ms r (p, s, [])")
      case (Cons st sts)
      obtain q t d where st: "st = (q, t, d)" by (cases st)
      with Cons "1.prems" have "g = [] \<and> s' = t" by (auto simp: search.simps [of r p s])
      with search_split [OF "1.prems"] Cons st show ?thesis by (metis append_Nil list.set_intros(1))
    next
      case Nil
      with "1.prems" obtain x xs g' where x: "s = x # xs" "g = x # g'"
        "search r (Some x) xs = Some (g', m, c, p', s')"
        by (auto simp: search.simps [of r p s] split: list.splits)
      with "1.IH" [OF Nil x(1) x(3)] show ?thesis by simp
    qed
  qed
  then obtain p1 c1 q1 where "(q1, [] @ s', c1) \<in> set (ms r (p1, m @ s', []))" by auto
  from ms_alone [OF assms(1) this, of None] have "ms r (None, m, []) \<noteq> []" by auto
  then show ?thesis by (cases "ms r (None, m, [])") (auto simp: search.simps [of r None m])
qed

lemma search_caps:
  "search r p s = Some (g, m, c, p', s') \<Longrightarrow> (i, t) \<in> set c \<Longrightarrow> sublist t s"
proof (induction r p s arbitrary: g rule: search.induct)
  case (1 r p s)
  show ?case
  proof (cases "ms r (p, s, [])")
    case (Cons st sts)
    obtain q u d where st: "st = (q, u, d)" by (cases st)
    with Cons "1.prems" have "(q, u, d) \<in> set (ms r (p, s, []))" "d = c"
      by (auto simp: search.simps [of r p s])
    with ms_caps [of q u d r p s "[]" i t] "1.prems"(2) show ?thesis by simp
  next
    case Nil
    with "1.prems"(1) obtain x xs g' where x: "s = x # xs" "search r (Some x) xs = Some (g', m, c, p', s')"
      by (auto simp: search.simps [of r p s] split: list.splits)
    from "1.IH" [OF Nil x "1.prems"(2)] x(1) show ?thesis by (simp add: sublist_Cons_right)
  qed
qed

lemma search_submatch:
  assumes "search r p s = Some (g, m, c, p', s')" "t \<in> set (submatch r m c)"
  shows "sublist t s"
proof -
  have "sublist m s" using search_split [OF assms(1)] by simp
  moreover have "sublist u s" if "map_of c i = Some u" for i u
    using search_caps [OF assms(1) map_of_SomeD [OF that]] .
  ultimately show ?thesis using assms(2) by (auto simp: submatch_def split: option.splits)
qed

lemma scan_submatch:
  "(g, m, c) \<in> set (fst (scan r p s)) \<Longrightarrow> t \<in> set (submatch r m c) \<Longrightarrow> sublist t s"
proof (induction r p s rule: scan.induct)
  case (1 r p s)
  show ?case
  proof (cases "search r p s")
    case None
    with "1.prems" show ?thesis by (simp add: scan.simps [of r p s])
  next
    case (Some z)
    obtain g' m' c' p' s' where z: "z = (g', m', c', p', s')" by (cases z)
    have sub: "sublist s' s"
      using search_split [OF Some [unfolded z]] by (metis append.assoc suffixI suffix_imp_sublist)
    show ?thesis
    proof (cases "m' = [] \<or> (g, m, c) = (g', m', c')")
      case True
      then show ?thesis
        using "1.prems" Some z search_submatch [OF Some [unfolded z], of t]
        by (auto simp: scan.simps [of r p s] split: if_splits)
    next
      case False
      with "1.prems"(1) Some z have "(g, m, c) \<in> set (fst (scan r p' s'))"
        by (auto simp: scan.simps [of r p s] split: prod.splits)
      from "1.IH" [OF Some z [symmetric] refl refl refl _ this "1.prems"(2)] False have "sublist t s'" by blast
      with sub show ?thesis by (rule sublist_order.order_trans [rotated])
    qed
  qed
qed

text \<open>Every submatch is part of the text.\<close>

lemma FindAllStringSubmatch_sublist:
  "ss \<in> set (FindAllStringSubmatch r s) \<Longrightarrow> t \<in> set ss \<Longrightarrow> sublist t s"
  by (auto simp: FindAllStringSubmatch_def dest: scan_submatch)

lemma FindStringSubmatch_sublist: "t \<in> set (FindStringSubmatch r s) \<Longrightarrow> sublist t s"
  by (auto simp: FindStringSubmatch_def split: option.splits intro: search_submatch [OF sym])

end
