(* ===== verification/Redaction.thy ===== *)
theory Redaction
  imports Go_Regex
begin

text \<open>
  internal/analysis/redaction.go: the five patterns, \<open>RedactSecrets\<close>, and what it promises.
  \<open>secret_token\<close> says what a GitHub token or an AWS access key id looks like without any
  regular expression; the theorems show that no such string is left in redacted text, and that
  redaction never makes a new one.
\<close>

section \<open>The code\<close>

definition is_upper_alnum :: "char \<Rightarrow> bool" where
  "is_upper_alnum c \<longleftrightarrow> is_digit c \<or> (65 \<le> byte c \<and> byte c \<le> 90)"

definition pat_gh_token :: re where
  "pat_gh_token = Cat (lit ''gh'') (Cat (One (ascii (\<lambda>c. c \<in> set ''pousr'')))
     (Cat (lit ''_'') (Rep (ascii is_word) 20 None)))"

definition pat_github_pat :: re where
  "pat_github_pat = Cat (lit ''github_pat_'') (Rep (ascii is_word) 20 None)"

definition pat_akia :: re where
  "pat_akia = Cat (lit ''AKIA'') (Rep (ascii is_upper_alnum) 16 (Some 16))"

definition pat_key_value :: re where
  "pat_key_value =
     Cat (Grp 1 (alts [liti ''token'', liti ''password'', liti ''secret'',
            cats [liti ''api'', opt (ascii (\<lambda>c. c \<in> set ''_-'')), liti ''key'']]))
    (Cat (Grp 2 (cats [star cls_s, One (ascii (\<lambda>c. c \<in> set '':='')), star cls_s]))
         (Grp 3 (plus (ascii (\<lambda>c. \<not> is_blank c \<and> c \<noteq> dquote \<and> c \<noteq> CHR 0x27)))))"

definition pat_bearer :: re where
  "pat_bearer = cats [liti ''authorization:'', star cls_s, liti ''bearer'', plus cls_s,
     plus ((\<lambda>c. (97 \<le> byte (lower_byte c) \<and> byte (lower_byte c) \<le> 122) \<or> is_digit c \<or> c \<in> set ''._-''),
           fold_runes CHR ''s'' @ fold_runes CHR ''k'')]"

definition redactionPatterns :: "re list" where
  "redactionPatterns = [pat_gh_token, pat_github_pat, pat_akia, pat_key_value, pat_bearer]"

definition redact_match :: "re \<Rightarrow> string \<Rightarrow> string" where
  "redact_match pattern match =
     (let sub = FindStringSubmatch pattern match in
      if length sub = 4 then sub ! 1 @ sub ! 2 @ ''[REDACTED]'' else ''[REDACTED]'')"

definition RedactSecrets :: "string \<Rightarrow> string" where
  "RedactSecrets raw =
     foldl (\<lambda>redacted pattern. ReplaceAllStringFunc pattern (redact_match pattern) redacted)
       raw redactionPatterns"

section \<open>What a secret looks like\<close>

definition classic_token :: "string \<Rightarrow> bool" where
  "classic_token v \<longleftrightarrow>
     (case drop_prefix ''gh'' v of
        Some (c # u # t) \<Rightarrow> c \<in> set ''pousr'' \<and> u = CHR ''_'' \<and> 20 \<le> length t \<and> list_all is_word t
      | _ \<Rightarrow> False)"

definition fine_grained_token :: "string \<Rightarrow> bool" where
  "fine_grained_token v \<longleftrightarrow>
     (case drop_prefix ''github_pat_'' v of
        Some t \<Rightarrow> 20 \<le> length t \<and> list_all is_word t
      | None \<Rightarrow> False)"

definition aws_key_id :: "string \<Rightarrow> bool" where
  "aws_key_id v \<longleftrightarrow>
     (case drop_prefix ''AKIA'' v of
        Some t \<Rightarrow> length t = 16 \<and> list_all is_upper_alnum t
      | None \<Rightarrow> False)"

definition secret_token :: "string \<Rightarrow> bool" where
  "secret_token v \<longleftrightarrow> classic_token v \<or> fine_grained_token v \<or> aws_key_id v"

definition token_free :: "string \<Rightarrow> bool" where
  "token_free s \<longleftrightarrow> (\<forall>v. sublist v s \<longrightarrow> \<not> secret_token v)"

section \<open>Patterns that must match\<close>

text \<open>\<open>r\<close> can consume exactly \<open>v\<close> wherever it stands.\<close>

definition forced :: "re \<Rightarrow> string \<Rightarrow> bool" where
  "forced r v \<longleftrightarrow> (\<forall>p w c. \<exists>p'. (p', w, c) \<in> set (ms r (p, v @ w, c)))"

lemma forced_Eps: "forced Eps []"
  by (simp add: forced_def)

lemma forced_One: "fst k x \<Longrightarrow> forced (One k) [x]"
  by (simp add: forced_def)

lemma forced_Cat: "forced a v \<Longrightarrow> forced b w \<Longrightarrow> forced (Cat a b) (v @ w)"
  unfolding forced_def by (simp add: Bex_def [symmetric]) (metis append.assoc)

lemma forced_lit: "forced (lit v) v"
proof (induction v)
  case (Cons x v)
  have "forced (Cat (One (chr1 x)) (lit v)) ([x] @ v)"
    by (intro forced_Cat forced_One Cons.IH) (simp add: chr1_def)
  then show ?case by simp
qed (simp add: forced_Eps)

lemma iter_steps_reach:
  "list_all P v \<Longrightarrow> length v \<le> n \<Longrightarrow>
   length v < length (iter_steps n (ascii P) (p, v @ w, c)) \<and>
   (\<exists>p'. iter_steps n (ascii P) (p, v @ w, c) ! length v = (p', w, c))"
proof (induction v arbitrary: n p)
  case Nil
  then show ?case by (cases n) auto
next
  case (Cons x v)
  then obtain m where m: "n = Suc m" "length v \<le> m" by (cases n) auto
  have "adv (ascii P) (p, (x # v) @ w, c) = Some (Some x, v @ w, c)"
    using Cons.prems by (simp add: ascii_def)
  with m Cons.IH [of m "Some x"] Cons.prems show ?case by simp
qed

lemma forced_Rep:
  assumes "list_all P v" "lo \<le> length v" "\<And>h. hi = Some h \<Longrightarrow> length v \<le> h"
  shows "forced (Rep (ascii P) lo hi) v"
  unfolding forced_def
proof (intro allI)
  fix p w c
  let ?n = "case hi of None \<Rightarrow> length (v @ w) | Some h \<Rightarrow> h"
  have "length v \<le> ?n" using assms(3) by (cases hi) auto
  from iter_steps_reach [OF assms(1) this] obtain p' where
    *: "length v < length (iter_steps ?n (ascii P) (p, v @ w, c))"
       "iter_steps ?n (ascii P) (p, v @ w, c) ! length v = (p', w, c)" by blast
  with assms(2) have "(p', w, c) \<in> set (drop lo (iter_steps ?n (ascii P) (p, v @ w, c)))"
    by (auto simp: in_set_conv_nth intro!: exI [of _ "length v - lo"])
  then show "\<exists>p'. (p', w, c) \<in> set (ms (Rep (ascii P) lo hi) (p, v @ w, c))"
    by auto
qed

lemma forced_found: "forced r v \<Longrightarrow> ms r (q, v @ w, []) \<noteq> []"
  unfolding forced_def by (metis empty_iff list.set(1))

section \<open>One pass\<close>

lemma scan_gap_avoids:
  assumes "scan r p s = (l, rest)" "\<not> nullable r" and v: "forced r v" "v \<noteq> []"
  shows "(\<forall>(g, m, c) \<in> set l. \<not> sublist v g) \<and> \<not> sublist v rest"
  using assms(1,2)
proof (induction rule: scan_induct)
  case (none p s)
  have "\<not> sublist v s"
  proof
    assume "sublist v s"
    then obtain u w where "s = u @ v @ w" by (auto simp: sublist_def)
    from search_none [OF none this] forced_found [OF v(1)] show False by blast
  qed
  then show ?case by simp
next
  case (step p s g m c p' s' l rest)
  have "\<not> sublist v g"
  proof
    assume "sublist v g"
    then obtain u w where g: "g = u @ v @ w" by (auto simp: sublist_def)
    with step.hyps(3) have s: "s = u @ (v @ w @ m @ s')" by simp
    have "length u < length g" using g v(2) by simp
    from search_skips [OF step.hyps(1) s this] forced_found [OF v(1)] show False by blast
  qed
  with step.IH show ?case by simp
qed

text \<open>Text that cannot straddle the replacement.\<close>

definition marker_free :: "string \<Rightarrow> bool" where
  "marker_free v \<longleftrightarrow> CHR ''['' \<notin> set v \<and> CHR '']'' \<notin> set v \<and> \<not> sublist v ''REDACTED''"

lemma sublist_marker:
  assumes "marker_free v" "sublist v (a @ ''[REDACTED]'' @ b)"
  shows "sublist v a \<or> sublist v b"
proof -
  have "sublist v (a @ CHR ''['' # (''REDACTED]'' @ b))" using assms(2) by simp
  with assms(1) consider "sublist v a" | "sublist v (''REDACTED]'' @ b)"
    by (auto simp: marker_free_def dest: sublist_avoid)
  then show ?thesis
  proof cases
    case 2
    then have "sublist v (''REDACTED'' @ CHR '']'' # b)" by simp
    with assms(1) show ?thesis by (metis marker_free_def sublist_avoid)
  qed simp
qed

lemma replaced_sublist:
  assumes "marker_free v"
    and "\<forall>(g, m, c) \<in> set l. f m = k m @ ''[REDACTED]''"
    and "sublist v (concat (map (\<lambda>(g, m, c). g @ f m) l) @ rest)"
  shows "(\<exists>(g, m, c) \<in> set l. sublist v (g @ k m)) \<or> sublist v rest"
  using assms(2,3)
proof (induction l)
  case (Cons x l)
  obtain g m c where x: "x = (g, m, c)" by (cases x)
  with Cons.prems have "sublist v ((g @ k m) @ ''[REDACTED]'' @ (concat (map (\<lambda>(g, m, c). g @ f m) l) @ rest))"
    by simp
  from sublist_marker [OF assms(1) this] x Cons show ?case by auto
qed simp

text \<open>A pass that puts the marker for the whole match removes every string its pattern must match.\<close>

lemma pass_removes:
  assumes "forced r v" "v \<noteq> []" "\<not> nullable r" "marker_free v"
    and f: "\<And>m. f m = ''[REDACTED]''"
  shows "\<not> sublist v (ReplaceAllStringFunc r f s)"
proof
  obtain l rest where sc: "scan r None s = (l, rest)" by fastforce
  assume "sublist v (ReplaceAllStringFunc r f s)"
  with sc have "sublist v (concat (map (\<lambda>(g, m, c). g @ f m) l) @ rest)"
    by (simp add: ReplaceAllStringFunc_def)
  from replaced_sublist [OF assms(4) _ this, of "\<lambda>_. []"]
  have "(\<exists>(g, m, c) \<in> set l. sublist v g) \<or> sublist v rest" using f by auto
  with scan_gap_avoids [OF sc assms(3,1,2)] show False by auto
qed

text \<open>A pass that keeps at most the head of each match brings in nothing new.\<close>

lemma pass_keeps:
  assumes "marker_free v"
    and f: "\<And>g m c. (g, m, c) \<in> set (fst (scan r None s)) \<Longrightarrow> \<exists>k. f m = k @ ''[REDACTED]'' \<and> prefix k m"
    and "sublist v (ReplaceAllStringFunc r f s)"
  shows "sublist v s"
proof -
  obtain l rest where sc: "scan r None s = (l, rest)" by fastforce
  define k where "k = (\<lambda>m. SOME k. f m = k @ ''[REDACTED]'' \<and> prefix k m)"
  have k: "f m = k m @ ''[REDACTED]''" "prefix (k m) m" if "(g, m, c) \<in> set l" for g m c
    using someI_ex [OF f [of g m c]] that sc by (simp_all add: k_def)
  have "sublist v (concat (map (\<lambda>(g, m, c). g @ f m) l) @ rest)"
    using assms(3) sc by (simp add: ReplaceAllStringFunc_def)
  from replaced_sublist [OF assms(1) _ this, of k] k
  consider (gap) g m c where "(g, m, c) \<in> set l" "sublist v (g @ k m)" | (rest) "sublist v rest"
    by blast
  then show ?thesis
  proof cases
    case gap
    have "prefix (g @ k m) (g @ m)" using k(2) [OF gap(1)] by simp
    with gap(2) have v: "sublist v (g @ m)"
      using prefix_imp_sublist sublist_order.order_trans by blast
    from gap(1) obtain l1 l2 where "l = l1 @ (g, m, c) # l2" by (auto simp: in_set_conv_decomp)
    with scan_split [OF sc] have "s = concat (map (\<lambda>(g, m, c). g @ m) l1) @ (g @ m) @
      (concat (map (\<lambda>(g, m, c). g @ m) l2) @ rest)" by simp
    then have "sublist (g @ m) s" by (simp only: sublist_append_middle)
    with v show ?thesis by (rule sublist_order.order_trans)
  next
    case rest
    moreover have "sublist rest s" using scan_split [OF sc] by simp
    ultimately show ?thesis by (rule sublist_order.order_trans)
  qed
qed

section \<open>The patterns of the program\<close>

lemma not_nullable_redaction:
  "\<not> nullable pat_gh_token" "\<not> nullable pat_github_pat" "\<not> nullable pat_akia"
  "\<not> nullable pat_key_value" "\<not> nullable pat_bearer"
  by (simp_all add: pat_gh_token_def pat_github_pat_def pat_akia_def pat_key_value_def pat_bearer_def
      plus_def)

lemma no_groups:
  "num_groups pat_gh_token = 0" "num_groups pat_github_pat = 0" "num_groups pat_akia = 0"
  "num_groups pat_bearer = 0" "num_groups pat_key_value = 3"
  by (simp_all add: pat_gh_token_def pat_github_pat_def pat_akia_def pat_key_value_def pat_bearer_def
      plus_def star_def opt_def)

lemma redact_match_plain:
  assumes "num_groups r \<noteq> 3"
  shows "redact_match r m = ''[REDACTED]''"
proof -
  have "length (FindStringSubmatch r m) \<noteq> 4"
    using assms by (auto simp: FindStringSubmatch_def submatch_def split: option.splits)
  then show ?thesis by (simp add: redact_match_def)
qed

lemma ms_caps_same:
  "num_groups r = 0 \<Longrightarrow> (p', s', c') \<in> set (ms r (p, s, c)) \<Longrightarrow> c' = c"
proof (induction r arbitrary: p s c p' s' c')
  case (One k)
  then show ?case by (auto split: option.splits dest: adv_suffix adv_suffix [OF sym])
next
  case (Rep k lo hi)
  then show ?case by (auto dest!: in_set_dropD dest: iter_steps_suffix)
next
  case (Cat a b)
  then show ?case by fastforce
next
  case (Alt a b)
  then show ?case by auto
qed (auto split: if_splits)

text \<open>The three groups of a key-value match follow each other.\<close>

lemma ms_three_groups:
  assumes "(p', s', c') \<in> set (ms (Cat (Grp 1 a) (Cat (Grp 2 b) (Grp 3 d))) (p, s, []))"
    and "num_groups a = 0" "num_groups b = 0" "num_groups d = 0"
  obtains x y z where "c' = [(3, z), (2, y), (1, x)]" "s = x @ y @ z @ s'"
proof -
  from assms(1) obtain p1 s1 c1 p2 s2 c2 c3 where
    a: "(p1, s1, c1) \<in> set (ms a (p, s, []))"
    and b: "(p2, s2, c2) \<in> set (ms b (p1, s1, (1, take (length s - length s1) s) # c1))"
    and d: "(p', s', c3) \<in> set (ms d (p2, s2, (2, take (length s1 - length s2) s1) # c2))"
    and c': "c' = (3, take (length s2 - length s') s2) # c3"
    by auto
  from ms_suffix [OF a] ms_suffix [OF b] ms_suffix [OF d] obtain x y z where
    "s = x @ s1" "s1 = y @ s2" "s2 = z @ s'" by (auto simp: suffix_def)
  with c' ms_caps_same [OF assms(2) a] ms_caps_same [OF assms(3) b] ms_caps_same [OF assms(4) d]
  show thesis by (intro that [of z y x]) auto
qed

lemma search_hd:
  "search r p s = Some ([], m, c, p', s') \<Longrightarrow> ms r (p, s, []) \<noteq> [] \<Longrightarrow>
   (p', s', c) \<in> set (ms r (p, s, []))"
  by (cases "ms r (p, s, [])") (auto simp: search.simps [of r p s])

lemma search_no_gap: "search r p s = Some ([], m, c, p', s') \<Longrightarrow> ms r (p, s, []) \<noteq> []"
  by (auto simp: search.simps [of r p s] split: list.splits)

lemma redact_match_key_value:
  assumes "search pat_key_value p s = Some (g, m, c, p', s')"
  shows "\<exists>k. redact_match pat_key_value m = k @ ''[REDACTED]'' \<and> prefix k m"
proof -
  have "context_free pat_key_value"
    by (simp add: pat_key_value_def plus_def star_def opt_def)
  from search_alone [OF this assms] obtain m' c' q t where
    m: "search pat_key_value None m = Some ([], m', c', q, t)" by blast
  obtain x y z where xyz: "c' = [(3, z), (2, y), (1, x)]" "m = x @ y @ z @ t"
    using search_hd [OF m search_no_gap [OF m]] unfolding pat_key_value_def
    by (rule ms_three_groups) (simp_all add: plus_def star_def opt_def)
  have "FindStringSubmatch pat_key_value m = [m', x, y, z]"
    using m xyz(1) by (simp add: FindStringSubmatch_def submatch_def no_groups upt_rec)
  with xyz(2) show ?thesis by (auto simp: redact_match_def prefix_def)
qed

lemma scan_search:
  assumes "scan r p s = (l, rest)" "\<not> nullable r" "(g, m, c) \<in> set l"
  shows "\<exists>p s p' s'. search r p s = Some (g, m, c, p', s')"
  using assms by (induction rule: scan_induct) auto

lemma redact_match_keeps:
  assumes "r \<in> set redactionPatterns" "(g, m, c) \<in> set (fst (scan r None s))"
  shows "\<exists>k. redact_match r m = k @ ''[REDACTED]'' \<and> prefix k m"
proof (cases "r = pat_key_value")
  case True
  obtain l rest where sc: "scan r None s = (l, rest)" by fastforce
  with assms(2) True not_nullable_redaction show ?thesis
    using scan_search [OF sc, of g m c] redact_match_key_value by fastforce
next
  case False
  with assms(1) have "num_groups r \<noteq> 3"
    by (auto simp: redactionPatterns_def no_groups)
  then show ?thesis by (simp add: redact_match_plain)
qed

section \<open>Tokens\<close>

lemma is_word_upper_alnum: "is_upper_alnum c \<Longrightarrow> is_word c"
  by (auto simp: is_upper_alnum_def is_word_def is_digit_def)

lemma classic_tokenE:
  assumes "classic_token v"
  obtains c t where "v = ''gh'' @ [c] @ ''_'' @ t" "c \<in> set ''pousr''" "20 \<le> length t" "list_all is_word t"
  using assms by (auto simp: classic_token_def drop_prefix_Some split: option.splits list.splits)

lemma fine_grained_tokenE:
  assumes "fine_grained_token v"
  obtains t where "v = ''github_pat_'' @ t" "20 \<le> length t" "list_all is_word t"
  using assms by (auto simp: fine_grained_token_def drop_prefix_Some split: option.splits)

lemma aws_key_idE:
  assumes "aws_key_id v"
  obtains t where "v = ''AKIA'' @ t" "length t = 16" "list_all is_upper_alnum t"
  using assms by (auto simp: aws_key_id_def drop_prefix_Some split: option.splits)

lemma classic_token_forced: "classic_token v \<Longrightarrow> forced pat_gh_token v"
  by (elim classic_tokenE, hypsubst, unfold pat_gh_token_def)
     (intro forced_Cat forced_lit forced_One forced_Rep, auto simp: ascii_def)

lemma fine_grained_token_forced: "fine_grained_token v \<Longrightarrow> forced pat_github_pat v"
  by (elim fine_grained_tokenE, hypsubst, unfold pat_github_pat_def)
     (intro forced_Cat forced_lit forced_Rep, auto)

lemma aws_key_id_forced: "aws_key_id v \<Longrightarrow> forced pat_akia v"
  by (elim aws_key_idE, hypsubst, unfold pat_akia_def)
     (intro forced_Cat forced_lit forced_Rep, auto)

lemma secret_token_word:
  assumes "secret_token v"
  shows "20 \<le> length v \<and> list_all is_word v"
proof -
  have w: "list_all is_word ''gh''" "list_all is_word ''pousr''" "list_all is_word ''_''"
    "list_all is_word ''github_pat_''" "list_all is_word ''AKIA''"
    by (simp_all add: is_word_def)
  from assms consider "classic_token v" | "fine_grained_token v" | "aws_key_id v"
    by (auto simp: secret_token_def)
  then show ?thesis
  proof cases
    case 1
    then obtain c t where v: "v = ''gh'' @ [c] @ ''_'' @ t" "c \<in> set ''pousr''" "20 \<le> length t"
      "list_all is_word t" by (rule classic_tokenE)
    then have "is_word c" using w(2) by (simp only: list_all_iff)
    with v w show ?thesis by simp
  next
    case 2
    then show ?thesis using w by (elim fine_grained_tokenE) simp
  next
    case 3
    then obtain t where v: "v = ''AKIA'' @ t" "length t = 16" "list_all is_upper_alnum t"
      by (rule aws_key_idE)
    then have "list_all is_word t" by (simp add: list_all_iff is_word_upper_alnum)
    with v w show ?thesis by simp
  qed
qed

lemma secret_token_marker_free:
  assumes "secret_token v"
  shows "marker_free v" "v \<noteq> []"
proof -
  from secret_token_word [OF assms] have len: "20 \<le> length v" and w: "\<forall>x \<in> set v. is_word x"
    by (auto simp: list_all_iff)
  have "\<not> is_word CHR ''[''" "\<not> is_word CHR '']''" by (simp_all add: is_word_def)
  moreover have "\<not> sublist v ''REDACTED''"
    using len by (auto dest: sublist_length_le)
  ultimately show "marker_free v" "v \<noteq> []"
    using w len by (auto simp: marker_free_def)
qed

section \<open>What RedactSecrets promises\<close>

lemma pass_no_new_token:
  "secret_token v \<Longrightarrow> r \<in> set redactionPatterns \<Longrightarrow>
   sublist v (ReplaceAllStringFunc r (redact_match r) s) \<Longrightarrow> sublist v s"
  by (rule pass_keeps [OF secret_token_marker_free(1)]) (auto intro: redact_match_keeps)

lemma passes_no_new_token:
  "secret_token v \<Longrightarrow> set rs \<subseteq> set redactionPatterns \<Longrightarrow>
   sublist v (foldl (\<lambda>t r. ReplaceAllStringFunc r (redact_match r) t) s rs) \<Longrightarrow> sublist v s"
  by (induction rs arbitrary: s) (auto dest: pass_no_new_token)

lemma pass_removes_token:
  assumes "secret_token v" "forced r v" "num_groups r = 0" "\<not> nullable r"
  shows "\<not> sublist v (ReplaceAllStringFunc r (redact_match r) s)"
  by (rule pass_removes) (use assms secret_token_marker_free in \<open>auto simp: redact_match_plain\<close>)

lemma RedactSecrets_unfold:
  "RedactSecrets raw =
     (let run = foldl (\<lambda>t r. ReplaceAllStringFunc r (redact_match r) t);
          pass = (\<lambda>r t. ReplaceAllStringFunc r (redact_match r) t) in
      run (pass pat_akia (pass pat_github_pat (pass pat_gh_token raw))) [pat_key_value, pat_bearer])"
  by (simp add: RedactSecrets_def redactionPatterns_def)

lemma RedactSecrets_no_token: "token_free (RedactSecrets raw)"
  unfolding token_free_def
proof (intro allI impI notI)
  fix v
  let ?pass = "\<lambda>r t. ReplaceAllStringFunc r (redact_match r) t"
  let ?t1 = "?pass pat_gh_token raw"
  let ?t2 = "?pass pat_github_pat ?t1"
  let ?t3 = "?pass pat_akia ?t2"
  assume sub: "sublist v (RedactSecrets raw)" and v: "secret_token v"
  have in_pats: "pat_gh_token \<in> set redactionPatterns" "pat_github_pat \<in> set redactionPatterns"
    "pat_akia \<in> set redactionPatterns" "set [pat_key_value, pat_bearer] \<subseteq> set redactionPatterns"
    by (simp_all add: redactionPatterns_def)
  from sub have "sublist v (foldl (\<lambda>t r. ?pass r t) ?t3 [pat_key_value, pat_bearer])"
    by (simp only: RedactSecrets_unfold Let_def)
  then have t3: "sublist v ?t3" by (rule passes_no_new_token [OF v in_pats(4)])
  then have t2: "sublist v ?t2" by (rule pass_no_new_token [OF v in_pats(3)])
  then have t1: "sublist v ?t1" by (rule pass_no_new_token [OF v in_pats(2)])
  from v have "forced pat_gh_token v \<or> forced pat_github_pat v \<or> forced pat_akia v"
    unfolding secret_token_def
    by (blast intro: classic_token_forced fine_grained_token_forced aws_key_id_forced)
  with t1 t2 t3 not_nullable_redaction no_groups show False
    by (blast dest: pass_removes_token [OF v])
qed

text \<open>C11. Redacted text contains no GitHub token (classic or fine-grained) and no AWS access key id.\<close>

theorem RedactSecrets_token_free: "token_free (RedactSecrets raw)"
  by (rule RedactSecrets_no_token)

end
