(* ===== verification/Deployment_Gates.thy ===== *)
theory Deployment_Gates
  imports Providers Redaction
begin

text \<open>
  internal/service/service.go, the part that explains a failed job without logs: jobs that failed before
  any step ran are looked up by their check run, and the annotations tell whether environment protection
  rules or a missing approval stopped them. One iteration of the loop is \<open>diagnose_job\<close>, which
  returns nothing where the code continues with the next job.
\<close>

section \<open>Evidence\<close>

definition not_char :: "char \<Rightarrow> rclass" where "not_char a = ascii (\<lambda>c. c \<noteq> a)"

definition envProtectionPattern :: re where
  "envProtectionPattern =
     cats [lit ''Branch '', One (chr1 dquote), Grp 1 (plus (not_char dquote)), One (chr1 dquote),
           lit '' is not allowed to deploy to '', Grp 2 (plus (not_char (CHR '' ''))),
           lit '' due to environment protection rules.'']"

definition approvalRequiredPattern :: re where
  "approvalRequiredPattern =
     Grp 1 (alts [liti ''review required'', liti ''required reviewers'', liti ''approved review'',
       cats [liti ''approval'', plus cls_dot, liti ''required''],
       liti ''not approved by required reviewers'', liti ''awaiting review''])"

definition containsEnvProtectionEvidence :: "EvidenceRef list \<Rightarrow> bool" where
  "containsEnvProtectionEvidence ev \<longleftrightarrow>
     list_ex (\<lambda>item. let lower = ToLower (ev_Snippet item)
       in Contains lower ''environment protection rules'' \<or> Contains lower ''not allowed to deploy'' \<or>
          Contains lower ''deployment was rejected'') ev"

definition containsApprovalGateEvidence :: "EvidenceRef list \<Rightarrow> bool" where
  "containsApprovalGateEvidence ev \<longleftrightarrow>
     list_ex (\<lambda>item. MatchString approvalRequiredPattern (ev_Snippet item)) ev"

text \<open>The loop over the annotations: evidence so far, branch, environment.\<close>

fun read_annotations ::
  "CheckRunAnnotation list \<Rightarrow> EvidenceRef list \<Rightarrow> string \<Rightarrow> string \<Rightarrow> EvidenceRef list \<times> string \<times> string" where
  "read_annotations [] ev branch environment = (ev, branch, environment)"
| "read_annotations (annotation # as) ev branch environment =
     (let message = TrimSpace (an_Message annotation) in
      if message = '''' then read_annotations as ev branch environment
      else
        let ev = ev @ [\<lparr>ev_Source = ''check_run_annotation'', ev_Line = an_StartLine annotation, ev_Snippet = message\<rparr>];
            matches = FindStringSubmatch envProtectionPattern message
        in if length matches = 3 then read_annotations as ev (matches ! 1) (matches ! 2)
           else read_annotations as ev branch environment)"

section \<open>Recommendations\<close>

definition gate_fix :: "string \<Rightarrow> string \<Rightarrow> string \<Rightarrow> float64 \<Rightarrow> string list \<Rightarrow> FixRecommendation" where
  "gate_fix i d impact c refs = \<lparr>fr_RecommendationID = i, fr_Description = d, fr_ExpectedImpact = impact,
     fr_Confidence = c, fr_References = refs\<rparr>"

definition buildEnvProtectionRecommendations :: "string \<Rightarrow> string \<Rightarrow> string list \<Rightarrow> FixRecommendation list" where
  "buildEnvProtectionRecommendations branch environment policyNames =
     (let allowed = (if policyNames \<noteq> [] then join '', '' policyNames else ''the current deployment policy'')
      in [gate_fix ''update-environment-branch-policy''
            (''Allow branch '' @ Quote branch @ '' to deploy to '' @ environment @
             '', or broaden the environment branch policy.'')
            ''Removes the environment gate that is rejecting the job before any steps run.''
            (93 / 100) [''GitHub environment deployment branch policies''],
          gate_fix ''dispatch-from-allowed-branch''
            (''Run the workflow from a branch that matches '' @ allowed @ ''.'')
            ''Lets the deployment proceed without changing repository policy.'' (88 / 100) [],
          gate_fix ''split-environments-by-branch''
            (''Route '' @ Quote branch @ '' dispatches to a less restricted environment instead of '' @ environment @ ''.'')
            ''Preserves production protections while allowing validation runs from the main branch.''
            (79 / 100) []])"

definition buildApprovalGateRecommendations :: "string \<Rightarrow> FixRecommendation list" where
  "buildApprovalGateRecommendations environment =
     [gate_fix ''obtain-required-reviewer-approval''
        (''Request approval from the required reviewers for '' @ environment @ '' before re-running the deployment.'')
        ''Satisfies the environment gate so the job can start executing steps.'' (92 / 100) [],
      gate_fix ''adjust-required-reviewers-policy''
        (''Relax or narrow the required reviewer policy on '' @ environment @
         '' if this workflow should not require manual approval.'')
        ''Removes unnecessary manual blocking for lower-risk validation runs.'' (84 / 100) [],
      gate_fix ''use-separate-nonproduction-environment''
        (''Route validation runs to a separate environment without approval gates instead of '' @ environment @ ''.'')
        ''Preserves approval controls on protected environments while unblocking routine validation.'' (8 / 10) []]"

fun firstNonEmpty :: "string list \<Rightarrow> string" where
  "firstNonEmpty [] = ''''"
| "firstNonEmpty (value # values) = (if TrimSpace value \<noteq> '''' then value else firstNonEmpty values)"

section \<open>The diagnosis\<close>

definition target_environment :: string where "target_environment = ''the target environment''"

type_synonym gate_diagnosis = "FailureDiagnostic \<times> FixRecommendation list"

definition gate_diagnostic :: "string \<Rightarrow> float64 \<Rightarrow> EvidenceRef list \<Rightarrow> Job \<Rightarrow> FailureDiagnostic" where
  "gate_diagnostic rootCause confidence ev job =
     \<lparr>fd_FailureCategory = ''config_error'', fd_SuspectedRootCause = rootCause, fd_Confidence = confidence,
      fd_EvidenceRefs = ev, fd_ImpactedJobs = [job_Name job]\<rparr>"

definition diagnose_approval :: "string \<Rightarrow> EvidenceRef list \<Rightarrow> Job \<Rightarrow> gate_diagnosis option" where
  "diagnose_approval environment ev job =
     (if containsApprovalGateEvidence ev then
        Some (gate_diagnostic (''Deployment to '' @ environment @ '' is blocked pending required reviewer approval.'')
                (92 / 100) ev job, buildApprovalGateRecommendations environment)
      else None)"

definition diagnose_protection ::
  "string \<Rightarrow> string \<Rightarrow> BranchPolicy list \<Rightarrow> EvidenceRef list \<Rightarrow> Job \<Rightarrow> gate_diagnosis" where
  "diagnose_protection branch environment policies ev job =
     (let policyNames = filter (\<lambda>p. TrimSpace p \<noteq> '''') (map bp_Name policies);
          rootCause = ''Branch '' @ Quote branch @ '' is blocked by environment protection rules for '' @ environment @ ''.'';
          rootCause = (if policyNames \<noteq> []
            then rootCause @ '' Allowed deployment branches currently match: '' @ join '', '' policyNames @ ''.''
            else rootCause)
      in (gate_diagnostic rootCause (94 / 100) ev job,
          buildEnvProtectionRecommendations branch environment policyNames))"

definition branch_policies :: "Adapter \<Rightarrow> string \<Rightarrow> string \<Rightarrow> BranchPolicy list io" where
  "branch_policies prov repository environment =
     (if environment \<noteq> target_environment then do {
        r \<leftarrow> ad_ListDeploymentBranchPolicies prov repository environment;
        ret (case r of Inl _ \<Rightarrow> [] | Inr policies \<Rightarrow> policies)
      } else ret [])"

definition deployed_environment :: "CheckRun option result \<Rightarrow> string \<Rightarrow> string" where
  "deployed_environment checkRun environment =
     (case checkRun of
        Inl _ \<Rightarrow> environment
      | Inr None \<Rightarrow> environment
      | Inr (Some c) \<Rightarrow>
          (case cr_Deployment c of
             None \<Rightarrow> environment
           | Some d \<Rightarrow>
               if environment = '''' then firstNonEmpty [dp_OriginalEnvironment d, dp_Environment d]
               else environment))"

definition diagnose_job :: "Adapter \<Rightarrow> string \<Rightarrow> Job \<Rightarrow> gate_diagnosis option io" where
  "diagnose_job prov repository job =
     (if \<not> EqualFold (job_Conclusion job) ''failure'' then ret None
      else if job_Steps job \<noteq> [] \<or> TrimSpace (job_CheckRunURL job) = '''' then ret None
      else case ad_ParseCheckRunURL prov (job_CheckRunURL job) of
        Inl _ \<Rightarrow> ret None
      | Inr checkRunID \<Rightarrow> do {
          annotations \<leftarrow> ad_GetCheckRunAnnotations prov repository checkRunID;
          (case annotations of
             Inl _ \<Rightarrow> ret None
           | Inr as \<Rightarrow>
               let (ev, branch, environment) = read_annotations as [] '''' '''' in
               if ev = [] then ret None
               else do {
                 checkRun \<leftarrow> ad_GetCheckRun prov repository checkRunID;
                 let environment = deployed_environment checkRun environment;
                 let branch = (if branch = '''' then job_HeadBranch job else branch);
                 let environment = (if environment = '''' then target_environment else environment);
                 (if \<not> containsEnvProtectionEvidence ev then ret (diagnose_approval environment ev job)
                  else do {
                    policies \<leftarrow> branch_policies prov repository environment;
                    ret (Some (diagnose_protection branch environment policies ev job))
                  })
               })
        })"

primrec diagnoseMetadataFailure :: "Adapter \<Rightarrow> string \<Rightarrow> Job list \<Rightarrow> gate_diagnosis option io" where
  "diagnoseMetadataFailure prov repository [] = ret None"
| "diagnoseMetadataFailure prov repository (job # jobs) = do {
     d \<leftarrow> diagnose_job prov repository job;
     (case d of
        None \<Rightarrow> diagnoseMetadataFailure prov repository jobs
      | Some x \<Rightarrow> ret (Some x))
   }"

section \<open>What it finds\<close>

text \<open>The jobs the loop looks up, and the evidence of the annotations of one.\<close>

definition gate_candidate :: "Job \<Rightarrow> bool" where
  "gate_candidate job \<longleftrightarrow>
     EqualFold (job_Conclusion job) ''failure'' \<and> job_Steps job = [] \<and> TrimSpace (job_CheckRunURL job) \<noteq> ''''"

definition annotation_evidence :: "CheckRunAnnotation list \<Rightarrow> EvidenceRef list" where
  "annotation_evidence as =
     map (\<lambda>a. \<lparr>ev_Source = ''check_run_annotation'', ev_Line = an_StartLine a, ev_Snippet = TrimSpace (an_Message a)\<rparr>)
       (filter (\<lambda>a. TrimSpace (an_Message a) \<noteq> '''') as)"

lemma read_annotations_evidence: "fst (read_annotations as ev b e) = ev @ annotation_evidence as"
  by (induction as ev b e rule: read_annotations.induct) (auto simp: annotation_evidence_def Let_def)

lemma diagnose_job_skips: "\<not> gate_candidate job \<Longrightarrow> diagnose_job prov repository job = ret None"
  by (auto simp: diagnose_job_def gate_candidate_def)

definition explains_gate :: "CheckRunAnnotation list \<Rightarrow> Job \<Rightarrow> gate_diagnosis \<Rightarrow> bool" where
  "explains_gate as job = (\<lambda>(d, recs).
     fd_FailureCategory d = ''config_error'' \<and> fd_ImpactedJobs d = [job_Name job] \<and> length recs = 3 \<and>
     fd_EvidenceRefs d = annotation_evidence as \<and> annotation_evidence as \<noteq> [] \<and>
     (if containsEnvProtectionEvidence (fd_EvidenceRefs d) then fd_Confidence d = 94 / 100
      else containsApprovalGateEvidence (fd_EvidenceRefs d) \<and> fd_Confidence d = 92 / 100))"

lemma diagnose_approval_explains:
  "diagnose_approval environment (annotation_evidence as) job = Some x \<Longrightarrow> annotation_evidence as \<noteq> [] \<Longrightarrow>
   \<not> containsEnvProtectionEvidence (annotation_evidence as) \<Longrightarrow> explains_gate as job x"
  by (auto simp: diagnose_approval_def explains_gate_def gate_diagnostic_def buildApprovalGateRecommendations_def
      split: if_splits)

lemma diagnose_protection_explains:
  "annotation_evidence as \<noteq> [] \<Longrightarrow> containsEnvProtectionEvidence (annotation_evidence as) \<Longrightarrow>
   explains_gate as job (diagnose_protection branch environment policies (annotation_evidence as) job)"
  by (auto simp: diagnose_protection_def explains_gate_def gate_diagnostic_def buildEnvProtectionRecommendations_def
      Let_def)

text \<open>The diagnosis of a job rests on the annotations that the provider gave for its check run.\<close>

definition gate_explained :: "Adapter \<Rightarrow> string \<Rightarrow> Job \<Rightarrow> gate_diagnosis \<Rightarrow> bool" where
  "gate_explained prov repository job x \<longleftrightarrow> gate_candidate job \<and>
     (\<exists>i v as. ad_ParseCheckRunURL prov (job_CheckRunURL job) = Inr i \<and>
        val (ad_GetCheckRunAnnotations prov repository i) v = Inr as \<and> explains_gate as job x)"

lemma diagnose_job_explains:
  assumes "val (diagnose_job prov repository job) w = Some x"
  shows "gate_explained prov repository job x"
proof -
  have cand: "gate_candidate job" using assms diagnose_job_skips by force
  obtain i where i: "ad_ParseCheckRunURL prov (job_CheckRunURL job) = Inr i"
    using assms cand by (auto simp: diagnose_job_def gate_candidate_def split: sum.splits)
  let ?ann = "ad_GetCheckRunAnnotations prov repository i"
  obtain as where a: "val ?ann w = Inr as"
    using assms cand i by (auto simp: diagnose_job_def gate_candidate_def split: sum.splits)
  obtain branch environment where r: "read_annotations as [] '''' '''' = (annotation_evidence as, branch, environment)"
    using read_annotations_evidence [of as "[]" "''''" "''''"] by (metis append_Nil prod.collapse)
  from assms cand have ne: "annotation_evidence as \<noteq> []"
    by (auto simp: diagnose_job_def gate_candidate_def i a r)
  have "explains_gate as job x"
  proof (cases "containsEnvProtectionEvidence (annotation_evidence as)")
    case True
    with assms cand ne show ?thesis
      by (auto simp: diagnose_job_def gate_candidate_def i a r Let_def intro: diagnose_protection_explains)
  next
    case False
    with assms cand ne show ?thesis
      by (auto simp: diagnose_job_def gate_candidate_def i a r Let_def intro: diagnose_approval_explains)
  qed
  with cand i a show ?thesis unfolding gate_explained_def by blast
qed

lemma diagnoseMetadataFailure_justified:
  "case val (diagnoseMetadataFailure prov repository jobs) w of
     None \<Rightarrow> True
   | Some x \<Rightarrow> \<exists>job. job \<in> set jobs \<and> gate_explained prov repository job x"
proof (induction jobs arbitrary: w)
  case (Cons job jobs)
  show ?case
  proof (cases "val (diagnose_job prov repository job) w")
    case None
    then show ?thesis
      using Cons [of "after (diagnose_job prov repository job) w"] by (auto split: option.splits)
  next
    case (Some x)
    then show ?thesis using diagnose_job_explains [OF Some] by auto
  qed
qed simp

text \<open>C23. A diagnosis from metadata is justified: it names one job of the run that failed before any step ran,
  its evidence is the non-blank messages that the provider gave for the check run of that job, and it claims protection rules, with
  confidence 0.94, if the messages mention them, or else a missing approval, with 0.92, which they mention.\<close>

theorem gate_diagnosis_justified:
  "case val (diagnoseMetadataFailure prov repository jobs) w of
     None \<Rightarrow> True
   | Some x \<Rightarrow> \<exists>job. job \<in> set jobs \<and> gate_explained prov repository job x"
  by (rule diagnoseMetadataFailure_justified)

text \<open>Only jobs that failed without running a step are looked up: with the others removed, the search does
  and answers the same, so a run whose failed jobs all ran a step costs no request here.\<close>

theorem gate_search_candidates:
  "val (diagnoseMetadataFailure prov repository jobs) w =
     val (diagnoseMetadataFailure prov repository (filter gate_candidate jobs)) w \<and>
   after (diagnoseMetadataFailure prov repository jobs) w =
     after (diagnoseMetadataFailure prov repository (filter gate_candidate jobs)) w"
  by (induction jobs arbitrary: w) (auto simp: diagnose_job_skips split: option.split)

text \<open>The search keeps every effect that the reads of the provider keep.\<close>

context provider
begin

lemma diagnose_job_moves: "moves R (diagnose_job A repository job)"
  unfolding diagnose_job_def branch_policies_def by (intro rules reads)

lemma diagnoseMetadataFailure_moves: "moves R (diagnoseMetadataFailure A repository jobs)"
  by (induction jobs) (auto intro!: rules diagnose_job_moves)

end

text \<open>
  The messages of annotations reach the evidence as they are: unlike log lines, they do not pass through
  \<open>RedactSecrets\<close>.
\<close>

definition leaking_annotation :: CheckRunAnnotation where
  "leaking_annotation = \<lparr>an_Path = [], an_StartLine = 1, an_AnnotationLevel = ''failure'', an_Title = [],
     an_Message = ''Deployment was rejected: ghp_aaaaaaaaaaaaaaaaaaaa'', an_BlobHref = []\<rparr>"

lemma token_found: "s = p @ v \<Longrightarrow> secret_token v \<Longrightarrow> \<not> token_free s"
  by (auto simp: token_free_def)

lemma annotation_not_redacted:
  "containsEnvProtectionEvidence (annotation_evidence [leaking_annotation]) \<and>
   \<not> token_free (ev_Snippet (hd (annotation_evidence [leaking_annotation])))"
proof
  show "containsEnvProtectionEvidence (annotation_evidence [leaking_annotation])" by code_simp
  have "ev_Snippet (hd (annotation_evidence [leaking_annotation])) =
      ''Deployment was rejected: '' @ ''ghp_aaaaaaaaaaaaaaaaaaaa''" by code_simp
  then show "\<not> token_free (ev_Snippet (hd (annotation_evidence [leaking_annotation])))"
  proof (rule token_found)
    show "secret_token ''ghp_aaaaaaaaaaaaaaaaaaaa''" by code_simp
  qed
qed

end
