(* ===== verification/Diagnosis.thy ===== *)
theory Diagnosis
  imports Redaction Domain
begin

text \<open>
  internal/analysis/diagnosis.go: the rule table, the scoring of redacted logs against it, the
  ranking of categories and the evidence quoted from the logs.
\<close>

section \<open>Rules\<close>

record categoryRule =
  ru_category :: string
  ru_rootCause :: string
  ru_recommendations :: "FixRecommendation list"
  ru_patterns :: "re list"

record RankedDiagnosis =
  rd_FailureCategory :: string
  rd_SuspectedRootCause :: string
  rd_Confidence :: float64
  rd_Score :: int
  rd_EvidenceRefs :: "EvidenceRef list"
  rd_Recommendations :: "FixRecommendation list"

definition recommend :: "string \<Rightarrow> string \<Rightarrow> string \<Rightarrow> float64 \<Rightarrow> string list \<Rightarrow> FixRecommendation" where
  "recommend i d e c refs =
     \<lparr>fr_RecommendationID = i, fr_Description = d, fr_ExpectedImpact = e, fr_Confidence = c,
      fr_References = refs\<rparr>"

definition diagnosisRules :: "categoryRule list" where
  "diagnosisRules =
    [\<lparr>ru_category = ''test_failure'',
      ru_rootCause = ''One or more tests failed under current repository state.'',
      ru_recommendations =
        [recommend ''re-run-failed-tests-locally''
           ''Reproduce the failing test subset locally with the same test flags.''
           ''Validates deterministic failure and narrows scope.'' (84 / 100)
           [''https://docs.github.com/actions''],
         recommend ''stabilize-test-fixtures''
           ''Harden fixtures/mocks and isolate shared mutable test state.''
           ''Reduces flaky and order-dependent failures.'' (72 / 100) []],
      ru_patterns =
        [cats [Bol, lit ''--- FAIL:'', plus cls_s, plus cls_S],
         cats [WordB, lit ''AssertionError'', WordB],
         cats [WordB, lit ''expected'', WordB, star cls_dot, WordB, lit ''got'', WordB],
         cats [WordB, Grp 1 (plus cls_d), plus cls_s, lit ''test'', opt (chr1 CHR ''s''), plus cls_s,
               lit ''failed'', WordB]]\<rparr>,
     \<lparr>ru_category = ''dependency_outage'',
      ru_rootCause = ''External dependency or package source appears unavailable.'',
      ru_recommendations =
        [recommend ''retry-with-backoff''
           ''Retry pipeline with exponential backoff for transient external dependency errors.''
           ''Improves resilience to temporary outages.'' (8 / 10) [],
         recommend ''cache-dependencies''
           ''Enable or tighten dependency caching in workflow jobs.''
           ''Reduces dependence on upstream availability.'' (74 / 100) []],
      ru_patterns =
        [lit ''could not resolve host'',
         lit ''connection refused'',
         cats [lit ''503'', plus cls_s, lit ''service'', plus cls_s, lit ''unavailable''],
         cats [lit ''429'', plus cls_s, lit ''too'', plus cls_s, lit ''many'', plus cls_s, lit ''requests''],
         cats [lit ''npm'', plus cls_s, lit ''ERR!'', plus cls_s, lit ''network'']]\<rparr>,
     \<lparr>ru_category = ''infra_timeout'',
      ru_rootCause = ''Runner, network, or step execution timed out.'',
      ru_recommendations =
        [recommend ''split-long-running-jobs''
           ''Split long workflow stages into smaller jobs and parallelize where possible.''
           ''Lowers timeout risk and improves observability.'' (76 / 100) [],
         recommend ''increase-timeouts-selectively''
           ''Increase timeout for affected jobs only after verifying workload growth.''
           ''Avoids false failures while limiting regression risk.'' (68 / 100) []],
      ru_patterns =
        [lit ''timed out'',
         lit ''context deadline exceeded'',
         cats [lit ''runner'', plus cls_dot, lit ''lost communication''],
         lit ''no space left on device'']\<rparr>,
     \<lparr>ru_category = ''config_error'',
      ru_rootCause = ''Workflow or environment configuration is invalid.'',
      ru_recommendations =
        [recommend ''validate-workflow-config''
           ''Validate workflow YAML and referenced paths/secrets in the failing job.''
           ''Fixes deterministic configuration failures quickly.'' (81 / 100) [],
         recommend ''check-token-scopes''
           ''Confirm token scopes and permissions required by the failed step.''
           ''Resolves authorization/config mismatches.'' (73 / 100) []],
      ru_patterns =
        [cats [lit ''workflow'', plus cls_s, lit ''is'', plus cls_s, lit ''not'', plus cls_s, lit ''valid''],
         cats [lit ''yaml:'', plus cls_s, lit ''line''],
         lit ''permission denied'',
         lit ''no such file or directory'']\<rparr>,
     \<lparr>ru_category = ''compilation_error'',
      ru_rootCause = ''Build or compilation failed due to code errors.'',
      ru_recommendations =
        [recommend ''fix-build-errors''
           ''Address compile/type errors shown in failed build output.''
           ''Restores buildability and unblocks downstream tests.'' (9 / 10) [],
         recommend ''pin-toolchain''
           ''Pin compiler/runtime versions in CI to avoid environment drift.''
           ''Prevents toolchain-induced regressions.'' (65 / 100) []],
      ru_patterns =
        [lit ''syntax error'',
         cats [lit ''undefined:'', plus cls_s, plus cls_S],
         lit ''cannot find package'',
         lit ''build failed'']\<rparr>]"

section \<open>Jobs\<close>

definition dedupeStrings :: "string list \<Rightarrow> string list" where
  "dedupeStrings xs = (if length xs \<le> 1 then xs else dedupe [] xs)"

definition failedJobs :: "Job list \<Rightarrow> string list" where
  "failedJobs jobs =
     (let out = map job_Name (filter (\<lambda>j. EqualFold (job_Conclusion j) ''failure'' \<or>
                                          EqualFold (job_Status j) ''failed'') jobs);
          out' = (if out = []
                  then map job_Name (filter (\<lambda>j. \<not> EqualFold (job_Conclusion j) ''success'') jobs)
                  else out)
      in dedupeStrings out')"

section \<open>Evidence\<close>

definition evidence :: "string \<Rightarrow> int \<Rightarrow> string \<Rightarrow> EvidenceRef" where
  "evidence src line snippet = \<lparr>ev_Source = src, ev_Line = line, ev_Snippet = snippet\<rparr>"

text \<open>The loop over the lines: its index, the offset of the line, and how many entries may still be added.\<close>

fun evidence_lines :: "(nat \<times> nat) list \<Rightarrow> nat \<Rightarrow> nat \<Rightarrow> nat \<Rightarrow> string list \<Rightarrow> EvidenceRef list" where
  "evidence_lines matches limit idx pos [] = []"
| "evidence_lines matches limit idx pos (line # lines) =
     (let start = pos;
          stop = start + length line;
          hit = (\<exists>m \<in> set matches. start \<le> fst m \<and> fst m \<le> stop);
          here = (if hit then [evidence ''run_logs'' (int idx + 1) (TrimSpace line)] else []);
          left = limit - length here
      in if left = 0 then here
         else here @ evidence_lines matches left (Suc idx) (stop + 1) lines)"

definition extractEvidence :: "string \<Rightarrow> (nat \<times> nat) list \<Rightarrow> nat \<Rightarrow> EvidenceRef list" where
  "extractEvidence logs matches limit =
     (if limit = 0 \<or> matches = [] then []
      else evidence_lines matches limit 0 0 (split_on (CHR 0x0A) logs))"

definition fallbackEvidence :: "string \<Rightarrow> string list \<Rightarrow> EvidenceRef list" where
  "fallbackEvidence logs impactedJobs =
     (if impactedJobs \<noteq> []
      then [evidence ''job_summary'' 0 (''Failed jobs: '' @ join '', '' impactedJobs)] else []) @
     (let trimmed = TrimSpace logs in
      if trimmed \<noteq> [] then [evidence ''run_logs'' 1 (take 220 trimmed)] else [])"

section \<open>Scoring\<close>

definition scoreToConfidence :: "int \<Rightarrow> int \<Rightarrow> int \<Rightarrow> string \<Rightarrow> float64" where
  "scoreToConfidence score evidenceCount impactedJobs category =
     (if category = ''unknown'' then (if 0 < evidenceCount then 4 / 10 else 25 / 100)
      else
        let confidence = 45 / 100 + 8 / 100 * of_int score + 4 / 100 * of_int evidenceCount;
            confidence = (if 0 < impactedJobs then confidence + 3 / 100 else confidence)
        in if 97 / 100 < confidence then 97 / 100 else confidence)"

definition cloneRecommendations :: "FixRecommendation list \<Rightarrow> FixRecommendation list" where
  "cloneRecommendations rs = rs"

definition unknownRecommendations :: "FixRecommendation list" where
  "unknownRecommendations =
     [recommend ''rerun-failed-jobs-only''
        ''Rerun failed jobs to distinguish transient failure from deterministic breakage.''
        ''Quickly detects transient infrastructure issues.'' (58 / 100) [],
      recommend ''collect-more-context''
        ''Retrieve full logs and inspect first failing step in each impacted job.''
        ''Improves diagnosis confidence with richer evidence.'' (55 / 100) []]"

definition unknownRankedDiagnosis :: "string \<Rightarrow> string list \<Rightarrow> RankedDiagnosis" where
  "unknownRankedDiagnosis logs impactedJobs =
     (let ev = fallbackEvidence logs impactedJobs in
      \<lparr>rd_FailureCategory = ''unknown'',
       rd_SuspectedRootCause = ''Unable to infer root cause from available evidence.'',
       rd_Confidence = scoreToConfidence 0 (int (length ev)) (int (length impactedJobs)) ''unknown'',
       rd_Score = 0,
       rd_EvidenceRefs = ev,
       rd_Recommendations = unknownRecommendations\<rparr>)"

text \<open>The inner loop over the patterns of a rule: score and evidence so far.\<close>

fun match_patterns :: "string \<Rightarrow> re list \<Rightarrow> int \<Rightarrow> EvidenceRef list \<Rightarrow> int \<times> EvidenceRef list" where
  "match_patterns logs [] score matched = (score, matched)"
| "match_patterns logs (pattern # patterns) score matched =
     (let found = FindAllStringIndex pattern logs;
          matched' = (if found \<noteq> [] \<and> length matched < 3
                      then matched @ extractEvidence logs found (3 - length matched) else matched)
      in match_patterns logs patterns (score + int (length found)) matched')"

definition recommendation_less :: "FixRecommendation \<Rightarrow> FixRecommendation \<Rightarrow> bool" where
  "recommendation_less a b \<longleftrightarrow> fr_Confidence a > fr_Confidence b"

definition diagnose_rule :: "string \<Rightarrow> string list \<Rightarrow> categoryRule \<Rightarrow> RankedDiagnosis list" where
  "diagnose_rule logs impactedJobs rule =
     (case match_patterns logs (ru_patterns rule) 0 [] of
        (score, matched) \<Rightarrow>
          if score = 0 then []
          else [\<lparr>rd_FailureCategory = ru_category rule,
                 rd_SuspectedRootCause = ru_rootCause rule,
                 rd_Confidence = scoreToConfidence score (int (length matched))
                   (int (length impactedJobs)) (ru_category rule),
                 rd_Score = score,
                 rd_EvidenceRefs = matched,
                 rd_Recommendations =
                   stable_sort recommendation_less (cloneRecommendations (ru_recommendations rule))\<rparr>])"

definition rank_less :: "RankedDiagnosis \<Rightarrow> RankedDiagnosis \<Rightarrow> bool" where
  "rank_less a b \<longleftrightarrow>
     (if rd_Score a = rd_Score b then
        if length (rd_EvidenceRefs a) = length (rd_EvidenceRefs b)
        then rd_Confidence a > rd_Confidence b
        else length (rd_EvidenceRefs a) > length (rd_EvidenceRefs b)
      else rd_Score a > rd_Score b)"

definition rankFailureDiagnoses :: "string \<Rightarrow> Job list \<Rightarrow> RankedDiagnosis list \<times> string list" where
  "rankFailureDiagnoses raw jobs =
     (let logs = RedactSecrets raw;
          impactedJobs = failedJobs jobs;
          ranked = concat (map (diagnose_rule logs impactedJobs) diagnosisRules)
      in if ranked = [] then ([unknownRankedDiagnosis logs impactedJobs], impactedJobs)
         else (stable_sort rank_less ranked, impactedJobs))"

definition RankFailureDiagnoses :: "string \<Rightarrow> Job list \<Rightarrow> RankedDiagnosis list" where
  "RankFailureDiagnoses logs jobs = fst (rankFailureDiagnoses logs jobs)"

definition DiagnoseFailure :: "string \<Rightarrow> Job list \<Rightarrow> FailureDiagnostic \<times> FixRecommendation list" where
  "DiagnoseFailure logs jobs =
     (case rankFailureDiagnoses logs jobs of
        (ranked, impactedJobs) \<Rightarrow>
          let ranked = (if ranked = [] then [unknownRankedDiagnosis (RedactSecrets logs) impactedJobs]
                        else ranked);
              best = hd ranked
          in (\<lparr>fd_FailureCategory = rd_FailureCategory best,
               fd_SuspectedRootCause = rd_SuspectedRootCause best,
               fd_Confidence = rd_Confidence best,
               fd_EvidenceRefs = rd_EvidenceRefs best,
               fd_ImpactedJobs = impactedJobs\<rparr>, rd_Recommendations best))"

section \<open>Comparators and lists\<close>

interpretation recommendation: go_less recommendation_less
  unfolding recommendation_less_def by (rule go_less_key_desc)

interpretation rank: go_less rank_less
  by unfold_locales (auto simp: rank_less_def split: if_splits)

lemma dedupeStrings_eq: "dedupeStrings xs = dedupe [] xs"
  by (cases xs rule: remdups_adj.cases) (auto simp: dedupeStrings_def)

lemma distinct_failedJobs: "distinct (failedJobs jobs)"
  by (simp add: failedJobs_def dedupeStrings_eq distinct_dedupe Let_def)

lemma dedupeStrings_id: "distinct xs \<Longrightarrow> dedupeStrings xs = xs"
  by (simp add: dedupeStrings_eq dedupe_id)

lemma token_free_sublist: "token_free s \<Longrightarrow> sublist t s \<Longrightarrow> token_free t"
  unfolding token_free_def by (meson sublist_order.order_trans)

section \<open>Evidence\<close>

lemma evidence_lines_length: "0 < limit \<Longrightarrow> length (evidence_lines fs limit i pos ls) \<le> limit"
proof (induction ls arbitrary: limit i pos)
  case (Cons l ls)
  let ?hit = "\<exists>m \<in> set fs. pos \<le> fst m \<and> fst m \<le> pos + length l"
  show ?case
    using Cons.prems Cons.IH [of "limit - 1" "Suc i" "pos + length l + 1"]
      Cons.IH [of limit "Suc i" "pos + length l + 1"]
    by (cases ?hit) (auto simp: Let_def)
qed simp

text \<open>Each entry quotes, trimmed, the line whose number it carries.\<close>

lemma evidence_lines_sound:
  "e \<in> set (evidence_lines fs limit i pos ls) \<Longrightarrow>
   \<exists>j < length ls. e = evidence ''run_logs'' (int (i + j) + 1) (TrimSpace (ls ! j))"
proof (induction ls arbitrary: limit i pos)
  case (Cons l ls)
  from Cons.prems consider "e = evidence ''run_logs'' (int i + 1) (TrimSpace l)"
    | left' where "e \<in> set (evidence_lines fs left' (Suc i) (pos + length l + 1) ls)"
    by (auto simp: Let_def split: if_splits)
  then show ?case
  proof cases
    case 1
    then show ?thesis by (intro exI [of _ 0]) simp
  next
    case 2
    from Cons.IH [OF this] obtain j where "j < length ls"
      "e = evidence ''run_logs'' (int (Suc i + j) + 1) (TrimSpace (ls ! j))" by blast
    then show ?thesis by (intro exI [of _ "Suc j"]) simp
  qed
qed simp

text \<open>A match inside the text is quoted.\<close>

lemma evidence_lines_complete:
  assumes "m \<in> set fs" "0 < limit"
  shows "ls \<noteq> [] \<Longrightarrow> pos \<le> fst m \<Longrightarrow> fst m \<le> pos + length (join [c] ls) \<Longrightarrow>
    evidence_lines fs limit i pos ls \<noteq> []"
proof (induction ls arbitrary: i pos)
  case (Cons l ls)
  show ?case
  proof (cases "fst m \<le> pos + length l")
    case True
    with assms Cons.prems have "\<exists>m \<in> set fs. pos \<le> fst m \<and> fst m \<le> pos + length l" by blast
    then show ?thesis by (simp add: Let_def)
  next
    case False
    with Cons.prems have ne: "ls \<noteq> []" by auto
    with False Cons.prems(3) have "fst m \<le> (pos + length l + 1) + length (join [c] ls)"
      by (simp add: join_Cons)
    with Cons.IH [OF ne, of "pos + length l + 1" "Suc i"] False assms(2) show ?thesis
      by (simp add: Let_def)
  qed
qed simp

lemma extractEvidence_length: "length (extractEvidence logs fs limit) \<le> limit"
  by (simp add: extractEvidence_def evidence_lines_length)

text \<open>What an entry quoted from the logs is: a numbered line of them, trimmed.\<close>

definition quotes_line :: "string \<Rightarrow> EvidenceRef \<Rightarrow> bool" where
  "quotes_line logs e \<longleftrightarrow>
     (let ls = split_on (CHR 0x0A) logs; n = ev_Line e in
      ev_Source e = ''run_logs'' \<and> 1 \<le> n \<and> n \<le> int (length ls) \<and>
      ev_Snippet e = TrimSpace (ls ! nat (n - 1)))"

lemma extractEvidence_quotes:
  assumes "e \<in> set (extractEvidence logs fs limit)"
  shows "quotes_line logs e"
proof -
  from assms obtain j where "j < length (split_on (CHR 0x0A) logs)"
    "e = evidence ''run_logs'' (int j + 1) (TrimSpace (split_on (CHR 0x0A) logs ! j))"
    by (auto simp: extractEvidence_def dest: evidence_lines_sound split: if_splits)
  then show ?thesis by (simp add: quotes_line_def evidence_def Let_def)
qed

lemma quotes_line_sublist: "quotes_line logs e \<Longrightarrow> sublist (ev_Snippet e) logs"
proof -
  assume q: "quotes_line logs e"
  let ?ls = "split_on (CHR 0x0A) logs"
  from q have "nat (ev_Line e - 1) < length ?ls" by (auto simp: quotes_line_def Let_def)
  then have "sublist (?ls ! nat (ev_Line e - 1)) logs" by (rule split_on_sublist [OF nth_mem])
  moreover from q have "ev_Snippet e = TrimSpace (?ls ! nat (ev_Line e - 1))"
    by (simp add: quotes_line_def Let_def)
  ultimately show ?thesis using sublist_TrimSpace sublist_order.order_trans by metis
qed

lemma extractEvidence_nonempty:
  assumes "fs = FindAllStringIndex r logs" "fs \<noteq> []" "0 < limit"
  shows "extractEvidence logs fs limit \<noteq> []"
proof -
  from assms(2) obtain a b where ab: "(a, b) \<in> set fs" by (cases fs) auto
  with assms(1) have "a \<le> length logs" using FindAllStringIndex_bounds by fastforce
  with ab assms show ?thesis
    using evidence_lines_complete [of "(a, b)" fs limit "split_on (CHR 0x0A) logs" 0 "CHR 0x0A" 0]
    by (simp add: extractEvidence_def)
qed

section \<open>One rule\<close>

definition total_matches :: "string \<Rightarrow> re list \<Rightarrow> int" where
  "total_matches logs patterns =
     sum_list (map (\<lambda>p. int (length (FindAllStringIndex p logs))) patterns)"

lemma total_matches_nonneg: "0 \<le> total_matches logs ps"
  unfolding total_matches_def by (rule sum_list_nonneg) auto

lemma match_patterns_score:
  "match_patterns logs ps sc ev = (score, ev') \<Longrightarrow> score = sc + total_matches logs ps"
proof (induction ps arbitrary: sc ev)
  case (Cons p ps)
  let ?f = "FindAllStringIndex p logs"
  from Cons.prems obtain ev0 where "match_patterns logs ps (sc + int (length ?f)) ev0 = (score, ev')"
    by (simp add: Let_def)
  from Cons.IH [OF this] show ?case by (simp add: total_matches_def)
qed (simp add: total_matches_def)

lemma match_patterns_evidence:
  "match_patterns logs ps sc ev = (score, ev') \<Longrightarrow> length ev \<le> 3 \<Longrightarrow> \<forall>e \<in> set ev. quotes_line logs e \<Longrightarrow>
   0 \<le> sc \<Longrightarrow> (0 < sc \<Longrightarrow> ev \<noteq> []) \<Longrightarrow>
   length ev' \<le> 3 \<and> (\<forall>e \<in> set ev'. quotes_line logs e) \<and> (0 < score \<longrightarrow> ev' \<noteq> [])"
proof (induction ps arbitrary: sc ev)
  case (Cons p ps)
  let ?f = "FindAllStringIndex p logs"
  let ?ev = "if ?f \<noteq> [] \<and> length ev < 3 then ev @ extractEvidence logs ?f (3 - length ev) else ev"
  have "length ?ev \<le> 3"
    using Cons.prems(2) extractEvidence_length [of logs ?f "3 - length ev"] by auto
  moreover have "\<forall>e \<in> set ?ev. quotes_line logs e"
    using Cons.prems(3) extractEvidence_quotes by auto
  moreover have "?ev \<noteq> []" if "0 < sc + int (length ?f)"
    using that Cons.prems(4,5) extractEvidence_nonempty [OF refl, of p logs "3 - length ev"]
    by (cases "?f = []") auto
  moreover have "match_patterns logs ps (sc + int (length ?f)) ?ev = (score, ev')"
    using Cons.prems(1) by (simp add: Let_def)
  ultimately show ?case using Cons.IH [of "sc + int (length ?f)" ?ev] Cons.prems(4) by linarith
qed simp

lemma diagnose_rule_cases:
  obtains (none) "total_matches logs (ru_patterns rule) = 0" "diagnose_rule logs jobs rule = []"
  | (some) ev where "0 < total_matches logs (ru_patterns rule)"
      "length ev \<le> 3" "ev \<noteq> []" "\<forall>e \<in> set ev. quotes_line logs e"
      "diagnose_rule logs jobs rule =
         [\<lparr>rd_FailureCategory = ru_category rule, rd_SuspectedRootCause = ru_rootCause rule,
           rd_Confidence = scoreToConfidence (total_matches logs (ru_patterns rule)) (int (length ev))
             (int (length jobs)) (ru_category rule),
           rd_Score = total_matches logs (ru_patterns rule), rd_EvidenceRefs = ev,
           rd_Recommendations = stable_sort recommendation_less (ru_recommendations rule)\<rparr>]"
proof -
  obtain score ev where m: "match_patterns logs (ru_patterns rule) 0 [] = (score, ev)" by fastforce
  from match_patterns_score [OF m] have s: "score = total_matches logs (ru_patterns rule)" by simp
  show thesis
  proof (cases "score = 0")
    case True
    with m s none show ?thesis by (simp add: diagnose_rule_def)
  next
    case False
    with s total_matches_nonneg [of logs "ru_patterns rule"]
    have pos: "0 < total_matches logs (ru_patterns rule)" by linarith
    from match_patterns_evidence [OF m] pos s
    have "length ev \<le> 3 \<and> (\<forall>e \<in> set ev. quotes_line logs e) \<and> ev \<noteq> []" by simp
    with some [OF pos, of ev] m s False show ?thesis
      by (simp add: diagnose_rule_def cloneRecommendations_def)
  qed
qed

section \<open>The ranking\<close>

text \<open>The categories of a log before sorting.\<close>

definition scored :: "string \<Rightarrow> Job list \<Rightarrow> RankedDiagnosis list" where
  "scored raw jobs = concat (map (diagnose_rule (RedactSecrets raw) (failedJobs jobs)) diagnosisRules)"

lemma RankFailureDiagnoses_eq:
  "RankFailureDiagnoses raw jobs =
     (if scored raw jobs = [] then [unknownRankedDiagnosis (RedactSecrets raw) (failedJobs jobs)]
      else stable_sort rank_less (scored raw jobs))"
  by (simp add: RankFailureDiagnoses_def rankFailureDiagnoses_def scored_def Let_def)

lemma RankFailureDiagnoses_not_Nil [simp]: "RankFailureDiagnoses raw jobs \<noteq> []"
  by (simp add: RankFailureDiagnoses_eq)

lemma scored_rule:
  "d \<in> set (scored raw jobs) \<Longrightarrow>
   \<exists>rule \<in> set diagnosisRules. diagnose_rule (RedactSecrets raw) (failedJobs jobs) rule = [d]"
proof -
  assume "d \<in> set (scored raw jobs)"
  then obtain rule where rule: "rule \<in> set diagnosisRules"
    "d \<in> set (diagnose_rule (RedactSecrets raw) (failedJobs jobs) rule)"
    by (auto simp: scored_def)
  then have "diagnose_rule (RedactSecrets raw) (failedJobs jobs) rule = [d]"
    by (cases rule: diagnose_rule_cases [of "RedactSecrets raw" rule "failedJobs jobs"]) simp_all
  with rule(1) show ?thesis by blast
qed

lemma set_RankFailureDiagnoses:
  "scored raw jobs \<noteq> [] \<Longrightarrow> set (RankFailureDiagnoses raw jobs) = set (scored raw jobs)"
  by (simp add: RankFailureDiagnoses_eq)

lemma rule_categories: "map ru_category diagnosisRules =
  [''test_failure'', ''dependency_outage'', ''infra_timeout'', ''config_error'', ''compilation_error'']"
  by (simp add: diagnosisRules_def)

lemma rule_category_known: "rule \<in> set diagnosisRules \<Longrightarrow> ru_category rule \<noteq> ''unknown''"
  by (auto simp: diagnosisRules_def)

lemma diagnose_rule_category: "map rd_FailureCategory (diagnose_rule logs jobs rule) \<in> {[], [ru_category rule]}"
  by (rule diagnose_rule_cases [of logs rule jobs]) auto

lemma distinct_concat_categories:
  "distinct (map ru_category rules) \<Longrightarrow>
   distinct (map rd_FailureCategory (concat (map (diagnose_rule logs jobs) rules))) \<and>
   set (map rd_FailureCategory (concat (map (diagnose_rule logs jobs) rules))) \<subseteq> set (map ru_category rules)"
proof (induction rules)
  case (Cons r rules)
  let ?cs = "map rd_FailureCategory (concat (map (diagnose_rule logs jobs) rules))"
  from Cons have IH: "distinct ?cs" "set ?cs \<subseteq> set (map ru_category rules)" by simp_all
  with Cons.prems have "ru_category r \<notin> set ?cs" by auto
  moreover have "map rd_FailureCategory (concat (map (diagnose_rule logs jobs) (r # rules))) =
      map rd_FailureCategory (diagnose_rule logs jobs r) @ ?cs" by simp
  ultimately show ?case
    using IH diagnose_rule_category [of logs jobs r] by (simp only:) auto
qed simp

lemma distinct_scored: "distinct (map rd_FailureCategory (scored raw jobs))"
  using distinct_concat_categories [of diagnosisRules "RedactSecrets raw" "failedJobs jobs"]
  by (simp add: scored_def rule_categories)

lemma scoreToConfidence_bounds:
  "0 \<le> score \<Longrightarrow> 0 \<le> ev \<Longrightarrow>
   25 / 100 \<le> scoreToConfidence score ev jobs c \<and> scoreToConfidence score ev jobs c \<le> 97 / 100"
proof -
  assume nn: "0 \<le> score" "0 \<le> ev"
  then have "0 \<le> (of_int score :: rat)" "0 \<le> (of_int ev :: rat)" by simp_all
  then show ?thesis by (simp add: scoreToConfidence_def Let_def)
qed

lemma rank_member_cases:
  assumes "d \<in> set (RankFailureDiagnoses raw jobs)"
  obtains (rule) rule ev where "rule \<in> set diagnosisRules"
      "0 < total_matches (RedactSecrets raw) (ru_patterns rule)"
      "length ev \<le> 3" "ev \<noteq> []" "\<forall>e \<in> set ev. quotes_line (RedactSecrets raw) e"
      "rd_FailureCategory d = ru_category rule"
      "rd_Score d = total_matches (RedactSecrets raw) (ru_patterns rule)"
      "rd_EvidenceRefs d = ev"
      "rd_Confidence d = scoreToConfidence (rd_Score d) (int (length ev))
         (int (length (failedJobs jobs))) (ru_category rule)"
  | (unknown) "scored raw jobs = []"
      "d = unknownRankedDiagnosis (RedactSecrets raw) (failedJobs jobs)"
proof (cases "scored raw jobs = []")
  case True
  with assms unknown show thesis by (simp add: RankFailureDiagnoses_eq)
next
  case False
  with assms have "d \<in> set (scored raw jobs)" by (simp add: set_RankFailureDiagnoses)
  then obtain r where r: "r \<in> set diagnosisRules"
    "diagnose_rule (RedactSecrets raw) (failedJobs jobs) r = [d]" by (blast dest: scored_rule)
  show thesis
    by (rule diagnose_rule_cases [of "RedactSecrets raw" r "failedJobs jobs"])
       (use r rule in auto)
qed

lemma DiagnoseFailure_eq:
  "DiagnoseFailure logs jobs =
    (let best = hd (RankFailureDiagnoses logs jobs) in
      (\<lparr>fd_FailureCategory = rd_FailureCategory best, fd_SuspectedRootCause = rd_SuspectedRootCause best,
        fd_Confidence = rd_Confidence best, fd_EvidenceRefs = rd_EvidenceRefs best,
        fd_ImpactedJobs = failedJobs jobs\<rparr>, rd_Recommendations best))"
  by (simp add: DiagnoseFailure_def rankFailureDiagnoses_def RankFailureDiagnoses_def Let_def)

lemma hd_rank_max:
  assumes "d \<in> set (RankFailureDiagnoses logs jobs)"
  shows "rd_Score d \<le> rd_Score (hd (RankFailureDiagnoses logs jobs))"
proof (cases "scored logs jobs = []")
  case True
  with assms show ?thesis by (simp add: RankFailureDiagnoses_eq)
next
  case False
  with assms have "\<not> rank_less d (hd (RankFailureDiagnoses logs jobs))"
    using rank.hd_stable_sort by (simp add: RankFailureDiagnoses_eq)
  then show ?thesis by (simp add: rank_less_def split: if_splits)
qed

lemma run_log_evidence:
  assumes "e \<in> set (fd_EvidenceRefs (fst (DiagnoseFailure logs jobs)))" "ev_Source e = ''run_logs''"
  shows "token_free (ev_Snippet e)"
proof -
  let ?d = "hd (RankFailureDiagnoses logs jobs)"
  from assms(1) have e: "e \<in> set (rd_EvidenceRefs ?d)"
    by (simp add: DiagnoseFailure_eq Let_def)
  have "sublist (ev_Snippet e) (RedactSecrets logs)"
  proof (rule rank_member_cases [OF hd_in_set [OF RankFailureDiagnoses_not_Nil], of logs jobs])
    fix ev assume "\<forall>e \<in> set ev. quotes_line (RedactSecrets logs) e" "rd_EvidenceRefs ?d = ev"
    with e show ?thesis by (auto intro: quotes_line_sublist)
  next
    assume "?d = unknownRankedDiagnosis (RedactSecrets logs) (failedJobs jobs)"
    with e assms(2) have "ev_Snippet e = take 220 (TrimSpace (RedactSecrets logs))"
      by (auto simp: unknownRankedDiagnosis_def fallbackEvidence_def evidence_def Let_def split: if_splits)
    then show ?thesis by (metis sublist_TrimSpace sublist_order.order_trans sublist_take)
  qed
  then show ?thesis by (rule token_free_sublist [OF RedactSecrets_no_token])
qed

section \<open>Properties\<close>

text \<open>Evidence that DiagnoseFailure quotes from the run logs never contains a GitHub token or an
  AWS access key id, whatever the logs contain.\<close>

theorem DiagnoseFailure_evidence_token_free:
  assumes "e \<in> set (fd_EvidenceRefs (fst (DiagnoseFailure logs jobs)))" "ev_Source e = ''run_logs''"
  shows "token_free (ev_Snippet e)"
  by (rule run_log_evidence [OF assms])

theorem DiagnoseFailure_evidence_token_free_witness:
  "fd_EvidenceRefs (fst (DiagnoseFailure ''build failed ghp_aaaaaaaaaaaaaaaaaaaa'' [])) =
     [evidence ''run_logs'' 1 ''build failed [REDACTED]''] \<and>
   token_free ''build failed [REDACTED]''"
proof -
  have ev: "fd_EvidenceRefs (fst (DiagnoseFailure ''build failed ghp_aaaaaaaaaaaaaaaaaaaa'' [])) =
     [evidence ''run_logs'' 1 ''build failed [REDACTED]'']" by code_simp
  then show ?thesis
    using DiagnoseFailure_evidence_token_free
      [of "evidence ''run_logs'' 1 ''build failed [REDACTED]''" "''build failed ghp_aaaaaaaaaaaaaaaaaaaa''" "[]"]
    by (simp add: evidence_def)
qed

text \<open>DiagnoseFailure reports the first entry of the ranking, which always exists and has a score that
  no other entry exceeds; it never reads past the ranking.\<close>

theorem DiagnoseFailure_best:
  "RankFailureDiagnoses logs jobs \<noteq> [] \<and>
   (let best = hd (RankFailureDiagnoses logs jobs) in
    DiagnoseFailure logs jobs =
      (\<lparr>fd_FailureCategory = rd_FailureCategory best, fd_SuspectedRootCause = rd_SuspectedRootCause best,
        fd_Confidence = rd_Confidence best, fd_EvidenceRefs = rd_EvidenceRefs best,
        fd_ImpactedJobs = failedJobs jobs\<rparr>, rd_Recommendations best) \<and>
    list_all (\<lambda>d. rd_Score d \<le> rd_Score best) (RankFailureDiagnoses logs jobs))"
  using hd_rank_max by (simp add: DiagnoseFailure_eq Let_def list_all_iff)

text \<open>C13. The ranking is complete and exact: a category is in it with score n precisely when its patterns
  match n > 0 times in the redacted logs; "unknown" with score 0 appears precisely when no pattern of
  any category matches.\<close>

theorem RankFailureDiagnoses_scores:
  "(c, n) \<in> set (map (\<lambda>d. (rd_FailureCategory d, rd_Score d)) (RankFailureDiagnoses logs jobs)) \<longleftrightarrow>
   (\<exists>rule. rule \<in> set diagnosisRules \<and> c = ru_category rule \<and>
      n = total_matches (RedactSecrets logs) (ru_patterns rule) \<and> 0 < n) \<or>
   (c = ''unknown'' \<and> n = 0 \<and>
      list_all (\<lambda>rule. total_matches (RedactSecrets logs) (ru_patterns rule) = 0) diagnosisRules)"
proof -
  let ?m = "\<lambda>rule. total_matches (RedactSecrets logs) (ru_patterns rule)"
  let ?D = "diagnose_rule (RedactSecrets logs) (failedJobs jobs)"
  have D: "(c, n) \<in> (\<lambda>d. (rd_FailureCategory d, rd_Score d)) ` set (?D r) \<longleftrightarrow>
      c = ru_category r \<and> n = ?m r \<and> 0 < n" for r
    by (rule diagnose_rule_cases [of "RedactSecrets logs" r "failedJobs jobs"]) auto
  have Nil: "?D r = [] \<longleftrightarrow> ?m r = 0" for r
    by (rule diagnose_rule_cases [of "RedactSecrets logs" r "failedJobs jobs"]) auto
  show ?thesis
  proof (cases "scored logs jobs = []")
    case True
    then have "\<forall>r \<in> set diagnosisRules. ?m r = 0" by (simp add: scored_def Nil)
    then show ?thesis
      by (auto simp: RankFailureDiagnoses_eq True unknownRankedDiagnosis_def Let_def list_all_iff)
  next
    case False
    then have "\<not> list_all (\<lambda>r. ?m r = 0) diagnosisRules" by (auto simp: scored_def Nil list_all_iff)
    moreover have "(c, n) \<in> (\<lambda>d. (rd_FailureCategory d, rd_Score d)) ` set (scored logs jobs) \<longleftrightarrow>
      (\<exists>r \<in> set diagnosisRules. c = ru_category r \<and> n = ?m r \<and> 0 < n)"
      unfolding scored_def by (simp only: set_concat set_map image_UN UN_iff D image_image bex_simps)
    ultimately show ?thesis using False by (simp add: set_RankFailureDiagnoses Bex_def)
  qed
qed

text \<open>C14. The ranking is in order (score, then number of evidence entries, then confidence, each descending),
  no category occurs twice, and every confidence lies between 0.25 and 0.97.\<close>

theorem RankFailureDiagnoses_order:
  "sorted_wrt (\<lambda>x y. rd_Score y < rd_Score x \<or> rd_Score x = rd_Score y \<and>
      (length (rd_EvidenceRefs y) < length (rd_EvidenceRefs x) \<or>
       length (rd_EvidenceRefs x) = length (rd_EvidenceRefs y) \<and> rd_Confidence y \<le> rd_Confidence x))
     (RankFailureDiagnoses logs jobs) \<and>
   distinct (map rd_FailureCategory (RankFailureDiagnoses logs jobs)) \<and>
   list_all (\<lambda>d. 25 / 100 \<le> rd_Confidence d \<and> rd_Confidence d \<le> 97 / 100)
     (RankFailureDiagnoses logs jobs)"
proof (intro conjI)
  have "sorted_wrt (\<lambda>x y. \<not> rank_less y x) (RankFailureDiagnoses logs jobs)"
    using rank.in_order_stable_sort by (simp add: RankFailureDiagnoses_eq rank.in_order_def)
  then show "sorted_wrt (\<lambda>x y. rd_Score y < rd_Score x \<or> rd_Score x = rd_Score y \<and>
      (length (rd_EvidenceRefs y) < length (rd_EvidenceRefs x) \<or>
       length (rd_EvidenceRefs x) = length (rd_EvidenceRefs y) \<and> rd_Confidence y \<le> rd_Confidence x))
     (RankFailureDiagnoses logs jobs)"
    by (rule sorted_wrt_mono_rel [rotated]) (auto simp: rank_less_def split: if_splits)
  show "distinct (map rd_FailureCategory (RankFailureDiagnoses logs jobs))"
    using distinct_scored by (simp add: RankFailureDiagnoses_eq)
  have "25 / 100 \<le> rd_Confidence d \<and> rd_Confidence d \<le> 97 / 100"
    if "d \<in> set (RankFailureDiagnoses logs jobs)" for d
    using that
  proof (cases rule: rank_member_cases)
    case (rule r ev)
    then show ?thesis using scoreToConfidence_bounds by simp
  next
    case unknown
    then show ?thesis
      by (simp only: unknownRankedDiagnosis_def Let_def RankedDiagnosis.select_convs)
         (rule scoreToConfidence_bounds, simp_all)
  qed
  then show "list_all (\<lambda>d. 25 / 100 \<le> rd_Confidence d \<and> rd_Confidence d \<le> 97 / 100)
     (RankFailureDiagnoses logs jobs)" by (simp add: list_all_iff)
qed

text \<open>C15. Every ranked category other than "unknown" is backed by one to three evidence entries, each of
  which quotes, trimmed, exactly the line of the redacted logs whose number it carries.\<close>

theorem RankFailureDiagnoses_evidence:
  assumes "d \<in> set (RankFailureDiagnoses logs jobs)" "rd_FailureCategory d \<noteq> ''unknown''"
  shows "1 \<le> length (rd_EvidenceRefs d) \<and> length (rd_EvidenceRefs d) \<le> 3 \<and>
    list_all (quotes_line (RedactSecrets logs)) (rd_EvidenceRefs d)"
  using assms(1)
proof (cases rule: rank_member_cases)
  case (rule r ev)
  then show ?thesis by (cases ev) (auto simp: list_all_iff)
next
  case unknown
  with assms(2) show ?thesis by (simp add: unknownRankedDiagnosis_def Let_def)
qed

theorem RankFailureDiagnoses_evidence_witness:
  "\<exists>d. RankFailureDiagnoses ''ok\<newline>timed out'' [] = [d] \<and>
     list_all (quotes_line (RedactSecrets ''ok\<newline>timed out'')) (rd_EvidenceRefs d) \<and> length (rd_EvidenceRefs d) = 1"
proof -
  let ?l = "''ok\<newline>timed out''"
  have one: "map (\<lambda>d. (rd_FailureCategory d, length (rd_EvidenceRefs d))) (RankFailureDiagnoses ?l []) =
    [(''infra_timeout'', 1)]" by code_simp
  then obtain d where d: "RankFailureDiagnoses ?l [] = [d]" "rd_FailureCategory d = ''infra_timeout''"
    "length (rd_EvidenceRefs d) = 1" by auto
  then show ?thesis using RankFailureDiagnoses_evidence [of d ?l "[]"] by simp
qed

text \<open>The impacted jobs are listed once each: the jobs that concluded "failure" or have status "failed"
  when there are any, and otherwise every job that did not succeed.\<close>

theorem failedJobs_spec:
  "distinct (failedJobs jobs) \<and>
   set (failedJobs jobs) =
     (let failing = {j \<in> set jobs. EqualFold (job_Conclusion j) ''failure'' \<or> EqualFold (job_Status j) ''failed''}
      in if failing = {} then job_Name ` {j \<in> set jobs. \<not> EqualFold (job_Conclusion j) ''success''}
         else job_Name ` failing)"
  by (simp add: distinct_failedJobs)
     (auto simp: failedJobs_def dedupeStrings_eq set_dedupe Let_def filter_empty_conv)

end
