(* ===== verification/Flaky.thy ===== *)
theory Flaky
  imports Diagnosis World Go_Time "HOL-Library.AList"
begin

text \<open>
  internal/analysis/flaky.go: the names of failing tests in the logs of failed runs, counted per run, and
  the report of the ten most frequent ones. The map of aggregates is an association list with one entry
  per name; the loop over it visits the names in an order of the surroundings (\<open>range_keys\<close>), so the
  records that compare equal may come in any order, as in the code.
\<close>

section \<open>Test names\<close>

definition name_char :: "char \<Rightarrow> bool" where
  "name_char c \<longleftrightarrow> is_word c \<or> c = CHR ''.'' \<or> c = CHR ''/'' \<or> c = CHR ''-''"

definition cls_name :: rclass where "cls_name = ascii name_char"

text \<open>The class \<open>[x\<close>, U+2717\<open>]\<close> of the last pattern.\<close>

definition cls_cross :: rclass where
  "cls_cross = ((\<lambda>c. c = CHR ''x''), [[CHR 0xE2, CHR 0x9C, CHR 0x97]])"

definition testNamePatterns :: "re list" where
  "testNamePatterns =
     [cats [Bol, lit ''--- FAIL:'', plus cls_s, Grp 1 (plus cls_name)],
      cats [Bol, lit ''FAIL'', plus cls_s, Grp 1 (plus cls_name)],
      cats [lit ''test'', plus cls_s, One (chr1 dquote), Grp 1 (plus (ascii (\<lambda>c. c \<noteq> dquote))), One (chr1 dquote),
            plus cls_s, lit ''failed''],
      cats [Bol, star cls_s, One cls_cross, plus cls_s, Grp 1 (plus (ascii (\<lambda>c. name_char c \<or> c = CHR '':'')))]]"

definition extractTestNames :: "string \<Rightarrow> string list" where
  "extractTestNames raw =
     (let logs = RedactSecrets raw;
          found = concat (map (\<lambda>pattern. FindAllStringSubmatch pattern logs) testNamePatterns)
      in dedupeStrings (filter (\<lambda>name. name \<noteq> '''')
           (map (\<lambda>match. TrimSpace (match ! 1)) (filter (\<lambda>match. 2 \<le> length match) found))))"

section \<open>Counting\<close>

record flakyAggregate =
  fa_count :: int
  fa_lastSeenAt :: gotime

type_synonym aggregates = "(string \<times> flakyAggregate) list"
type_synonym LogFetcher = "int \<Rightarrow> string result io"

definition new_aggregate :: flakyAggregate where
  "new_aggregate = \<lparr>fa_count = 0, fa_lastSeenAt = 0\<rparr>"

definition lookup_aggregate :: "aggregates \<Rightarrow> string \<Rightarrow> flakyAggregate" where
  "lookup_aggregate agg name = (case map_of agg name of None \<Rightarrow> new_aggregate | Some entry \<Rightarrow> entry)"

definition note_run :: "gotime \<Rightarrow> flakyAggregate \<Rightarrow> flakyAggregate" where
  "note_run updatedAt entry =
     entry\<lparr>fa_count := fa_count entry + 1,
           fa_lastSeenAt := (if fa_lastSeenAt entry < updatedAt then updatedAt else fa_lastSeenAt entry)\<rparr>"

fun note_names :: "gotime \<Rightarrow> string list \<Rightarrow> string list \<Rightarrow> aggregates \<Rightarrow> aggregates" where
  "note_names updatedAt seenInRun [] agg = agg"
| "note_names updatedAt seenInRun (name # names) agg =
     (if name \<in> set seenInRun then note_names updatedAt seenInRun names agg
      else note_names updatedAt (name # seenInRun) names
        (AList.update name (note_run updatedAt (lookup_aggregate agg name)) agg))"

definition run_failed :: "Run \<Rightarrow> bool" where
  "run_failed run \<longleftrightarrow> EqualFold (run_Conclusion run) ''failure'' \<or> EqualFold (run_Status run) ''failure''"

text \<open>The loop over the runs, with the aggregates and the number of failed runs so far.\<close>

primrec scan_runs :: "LogFetcher option \<Rightarrow> Run list \<Rightarrow> aggregates \<Rightarrow> int \<Rightarrow> (aggregates \<times> int) io" where
  "scan_runs fetchLogs [] agg failedRuns = ret (agg, failedRuns)"
| "scan_runs fetchLogs (run # runs) agg failedRuns =
     (if \<not> run_failed run then scan_runs fetchLogs runs agg failedRuns
      else case fetchLogs of
        None \<Rightarrow> scan_runs fetchLogs runs agg (failedRuns + 1)
      | Some fetch \<Rightarrow> do {
          logs \<leftarrow> fetch (run_ID run);
          (case logs of
             Inl _ \<Rightarrow> scan_runs fetchLogs runs agg (failedRuns + 1)
           | Inr text \<Rightarrow>
               scan_runs fetchLogs runs (note_names (run_UpdatedAt run) [] (extractTestNames text) agg) (failedRuns + 1))
        })"

section \<open>The report\<close>

definition flaky_record :: "int \<Rightarrow> string \<Rightarrow> flakyAggregate \<Rightarrow> FlakyTest" where
  "flaky_record denominator testName item =
     (let rate = of_int (fa_count item) / of_int denominator;
          recency = (if \<not> IsZero (fa_lastSeenAt item) then FormatRFC3339 (fa_lastSeenAt item) else ''unknown'');
          confidence = 3 / 10 + 4 / 10 * rate + 8 / 100 * of_int (fa_count item)
      in \<lparr>ft_TestName = testName, ft_FailureFrequency = fa_count item, ft_FailureRate = rate,
          ft_Recency = recency, ft_Confidence = (if 98 / 100 < confidence then 98 / 100 else confidence)\<rparr>)"

definition flaky_less :: "FlakyTest \<Rightarrow> FlakyTest \<Rightarrow> bool" where
  "flaky_less a b \<longleftrightarrow>
     (if ft_FailureFrequency a = ft_FailureFrequency b then ft_Confidence a > ft_Confidence b
      else ft_FailureFrequency a > ft_FailureFrequency b)"

definition AnalyzeFlakyTests ::
  "env \<Rightarrow> string \<Rightarrow> string \<Rightarrow> int \<Rightarrow> Run list \<Rightarrow> LogFetcher option \<Rightarrow> gotime \<Rightarrow> FlakyTestReport io" where
  "AnalyzeFlakyTests E repository workflow lookbackDays runs fetchLogs t = do {
     (agg, failedRuns) \<leftarrow> scan_runs fetchLogs runs [] 0;
     let denominator = (if failedRuns = 0 then 1 else failedRuns);
     names \<leftarrow> range_keys E (map fst agg);
     let records = stable_sort flaky_less
           (map (\<lambda>name. flaky_record denominator name (lookup_aggregate agg name)) names);
     let records = (if 10 < length records then take 10 records else records);
     ret \<lparr>rp_Repository = repository, rp_Workflow = workflow, rp_LookbackDays = lookbackDays,
          rp_ScannedRuns = int (length runs), rp_FailedRuns = failedRuns, rp_TopFlaky = records,
          rp_GeneratedAt = FormatRFC3339 t\<rparr>
   }"

section \<open>The reference\<close>

text \<open>
  The failed runs in order, each with its log if it could be fetched; the runs whose log names a test; and
  the aggregate of those runs.
\<close>

primrec fetch_all :: "LogFetcher option \<Rightarrow> Run list \<Rightarrow> (Run \<times> string option) list io" where
  "fetch_all fetchLogs [] = ret []"
| "fetch_all fetchLogs (run # runs) =
     (if \<not> run_failed run then fetch_all fetchLogs runs
      else case fetchLogs of
        None \<Rightarrow> do { l \<leftarrow> fetch_all fetchLogs runs; ret ((run, None) # l) }
      | Some fetch \<Rightarrow> do {
          logs \<leftarrow> fetch (run_ID run);
          l \<leftarrow> fetch_all fetchLogs runs;
          ret ((run, case logs of Inl _ \<Rightarrow> None | Inr text \<Rightarrow> Some text) # l)
        })"

definition mentions :: "string \<Rightarrow> string option \<Rightarrow> bool" where
  "mentions name logs \<longleftrightarrow> (case logs of None \<Rightarrow> False | Some text \<Rightarrow> name \<in> set (extractTestNames text))"

definition appearances :: "(Run \<times> string option) list \<Rightarrow> string \<Rightarrow> Run list" where
  "appearances fetched name = map fst (filter (\<lambda>p. mentions name (snd p)) fetched)"

definition aggregate_of :: "Run list \<Rightarrow> flakyAggregate" where
  "aggregate_of runs =
     \<lparr>fa_count = int (length runs), fa_lastSeenAt = foldl max 0 (map run_UpdatedAt runs)\<rparr>"

definition counted :: "aggregates \<Rightarrow> (Run \<times> string option) list \<Rightarrow> bool" where
  "counted agg fetched \<longleftrightarrow> distinct (map fst agg) \<and>
     (\<forall>name. map_of agg name =
       (if appearances fetched name = [] then None else Some (aggregate_of (appearances fetched name))))"

lemma counted_Nil: "counted [] []"
  by (simp add: counted_def appearances_def)

lemma aggregate_of_Nil: "aggregate_of [] = new_aggregate"
  by (simp add: aggregate_of_def new_aggregate_def)

lemma aggregate_of_snoc: "aggregate_of (runs @ [run]) = note_run (run_UpdatedAt run) (aggregate_of runs)"
  by (auto simp: aggregate_of_def note_run_def max_def)

lemma counted_lookup: "counted agg fetched \<Longrightarrow> lookup_aggregate agg name = aggregate_of (appearances fetched name)"
  by (simp add: counted_def lookup_aggregate_def aggregate_of_Nil)

lemma note_names_lookup:
  "map_of (note_names u seen names agg) name =
     (if name \<in> set names - set seen then Some (note_run u (lookup_aggregate agg name)) else map_of agg name)"
  by (induction u seen names agg rule: note_names.induct)
    (auto simp: update_conv' lookup_aggregate_def split: option.split)

lemma distinct_note_names:
  "distinct (map fst agg) \<Longrightarrow> distinct (map fst (note_names u seen names agg))"
  by (induction u seen names agg rule: note_names.induct) (auto simp: distinct_update)

lemma counted_silent: "counted agg fetched \<Longrightarrow> counted agg (fetched @ [(run, None)])"
  by (simp add: counted_def appearances_def mentions_def)

lemma counted_log:
  assumes "counted agg fetched"
  shows "counted (note_names (run_UpdatedAt run) [] (extractTestNames text) agg) (fetched @ [(run, Some text)])"
proof -
  have "map_of (note_names (run_UpdatedAt run) [] (extractTestNames text) agg) name =
      (if appearances (fetched @ [(run, Some text)]) name = [] then None
       else Some (aggregate_of (appearances (fetched @ [(run, Some text)]) name)))" for name
    using assms counted_lookup [OF assms]
    by (simp add: note_names_lookup counted_def appearances_def mentions_def aggregate_of_snoc)
  then show ?thesis using assms by (simp add: counted_def distinct_note_names)
qed

lemma scan_runs_counts:
  "counted agg seen \<Longrightarrow>
   after (scan_runs F runs agg k) w = after (fetch_all F runs) w \<and>
   snd (val (scan_runs F runs agg k) w) = k + int (length (val (fetch_all F runs) w)) \<and>
   counted (fst (val (scan_runs F runs agg k) w)) (seen @ val (fetch_all F runs) w)"
proof (induction runs arbitrary: agg seen k w)
  case (Cons run runs)
  show ?case
  proof (cases "run_failed run")
    case failed: True
    show ?thesis
    proof (cases F)
      case None
      then show ?thesis
        using failed Cons.IH [OF counted_silent [OF Cons.prems, of run], of "k + 1" w] by simp
    next
      case (Some fetch)
      let ?w = "after (fetch (run_ID run)) w"
      show ?thesis
      proof (cases "val (fetch (run_ID run)) w")
        case (Inl e)
        then show ?thesis
          using Some failed Cons.IH [OF counted_silent [OF Cons.prems, of run], of "k + 1" ?w] by simp
      next
        case (Inr body)
        then show ?thesis
          using Some failed Cons.IH [OF counted_log [OF Cons.prems, of run body], of "k + 1" ?w] by simp
      qed
    qed
  qed (use Cons in simp)
qed simp

interpretation flaky: go_less flaky_less
  by unfold_locales (auto simp: flaky_less_def split: if_splits)

text \<open>The record the report should hold for a test.\<close>

definition expected :: "(Run \<times> string option) list \<Rightarrow> string \<Rightarrow> FlakyTest" where
  "expected fetched name =
     (let seen = appearances fetched name;
          rate = of_nat (length seen) / of_nat (length fetched);
          lastSeen = foldl max 0 (map run_UpdatedAt seen)
      in \<lparr>ft_TestName = name, ft_FailureFrequency = int (length seen), ft_FailureRate = rate,
          ft_Recency = (if lastSeen = 0 then ''unknown'' else FormatRFC3339 lastSeen),
          ft_Confidence = min (98 / 100) (3 / 10 + 4 / 10 * rate + 8 / 100 * of_nat (length seen))\<rparr>)"

lemma flaky_record_expected:
  "flaky_record (if fetched = [] then 1 else int (length fetched)) name (aggregate_of (appearances fetched name)) =
   expected fetched name"
  by (simp add: expected_def flaky_record_def aggregate_of_def IsZero_def Let_def min_def appearances_def)

text \<open>The order of the report, as a comparison of frequencies and then of confidences.\<close>

definition at_least_as_flaky :: "FlakyTest \<Rightarrow> FlakyTest \<Rightarrow> bool" where
  "at_least_as_flaky x y \<longleftrightarrow> ft_FailureFrequency y < ft_FailureFrequency x \<or>
     ft_FailureFrequency x = ft_FailureFrequency y \<and> ft_Confidence y \<le> ft_Confidence x"

lemma at_least_as_flaky: "at_least_as_flaky = (\<lambda>x y. \<not> flaky_less y x)"
  by (auto simp: at_least_as_flaky_def flaky_less_def fun_eq_iff)

lemma expected_name [simp]: "ft_TestName (expected fetched name) = name"
  by (simp add: expected_def Let_def)
lemma AnalyzeFlakyTests_result:
  fixes F runs w E r wfl days t fetched rp
  defines "fetched \<equiv> val (fetch_all F runs) w"
    and "rp \<equiv> val (AnalyzeFlakyTests E r wfl days runs F t) w"
  obtains names where "distinct names" "set names = {n. appearances fetched n \<noteq> []}"
    "rp_TopFlaky rp = take 10 (stable_sort flaky_less (map (expected fetched) names))"
    "rp_FailedRuns rp = int (length fetched)" "rp_ScannedRuns rp = int (length runs)"
proof -
  obtain agg k where ak: "val (scan_runs F runs [] 0) w = (agg, k)" by fastforce
  from scan_runs_counts [OF counted_Nil, of F runs 0 w] ak
  have k: "k = int (length fetched)" and c: "counted agg fetched"
    by (simp_all add: fetched_def)
  let ?names = "val (range_keys E (map fst agg)) (after (scan_runs F runs [] 0) w)"
  have m: "mset ?names = mset (map fst agg)" by simp
  have "flaky_record (if k = 0 then 1 else k) name (lookup_aggregate agg name) = expected fetched name" for name
    by (simp add: flaky_record_expected [symmetric] k counted_lookup [OF c])
  then have top: "rp_TopFlaky rp = take 10 (stable_sort flaky_less (map (expected fetched) ?names))"
    and rest: "rp_FailedRuns rp = k" "rp_ScannedRuns rp = int (length runs)"
    by (simp_all add: rp_def AnalyzeFlakyTests_def ak Let_def)
  have d: "distinct ?names" using c m by (metis counted_def mset_eq_imp_distinct_iff)
  have "set ?names = set (map fst agg)" by (rule mset_eq_setD [OF m])
  moreover have "n \<in> set (map fst agg) \<longleftrightarrow> appearances fetched n \<noteq> []" for n
  proof -
    have "n \<in> set (map fst agg) \<longleftrightarrow> map_of agg n \<noteq> None" by (simp add: map_of_eq_None_iff)
    then show ?thesis using c by (simp add: counted_def)
  qed
  ultimately have "set ?names = {n. appearances fetched n \<noteq> []}" by blast
  then show thesis using that d top rest k by simp
qed

lemma flaky_records:
  assumes "ft \<in> set (take 10 (stable_sort flaky_less (map (expected fetched) names)))"
  shows "ft_TestName ft \<in> set names \<and> ft = expected fetched (ft_TestName ft)"
  using in_set_takeD [OF assms] by auto

lemma expected_bounds:
  assumes "appearances fetched name \<noteq> []"
  shows "1 \<le> ft_FailureFrequency (expected fetched name)"
    "ft_FailureFrequency (expected fetched name) \<le> int (length fetched)"
    "0 < ft_FailureRate (expected fetched name)" "ft_FailureRate (expected fetched name) \<le> 1"
    "3 / 10 < ft_Confidence (expected fetched name)" "ft_Confidence (expected fetched name) \<le> 98 / 100"
proof -
  let ?k = "length (appearances fetched name)" and ?n = "length fetched"
  have k: "1 \<le> ?k" "?k \<le> ?n"
    using assms length_filter_le [of _ fetched] by (cases "appearances fetched name", auto simp: appearances_def)
  define rate :: rat where "rate = of_nat ?k / of_nat ?n"
  have r: "0 < rate" "rate \<le> 1" unfolding rate_def using k by (auto simp: divide_le_eq_1 intro!: divide_pos_pos)
  show "1 \<le> ft_FailureFrequency (expected fetched name)"
    "ft_FailureFrequency (expected fetched name) \<le> int (length fetched)"
    using k by (simp_all add: expected_def Let_def)
  show "0 < ft_FailureRate (expected fetched name)" "ft_FailureRate (expected fetched name) \<le> 1"
    using r by (simp_all add: expected_def Let_def rate_def)
  have "ft_Confidence (expected fetched name) = min (98 / 100) (3 / 10 + 4 / 10 * rate + 8 / 100 * of_nat ?k)"
    by (simp add: expected_def Let_def rate_def)
  moreover have "3 / 10 < 3 / 10 + 4 / 10 * rate + 8 / 100 * of_nat ?k"
  proof -
    have "0 < 4 / 10 * rate" "(0 :: rat) \<le> 8 / 100 * of_nat ?k" using r by simp_all
    then show ?thesis by linarith
  qed
  ultimately show "3 / 10 < ft_Confidence (expected fetched name)" "ft_Confidence (expected fetched name) \<le> 98 / 100"
    by (simp_all only: min_less_iff_conj min.cobounded1) simp
qed

lemma extractTestNames_token_free:
  assumes "name \<in> set (extractTestNames logs)"
  shows "token_free name"
proof -
  obtain pattern ss where "ss \<in> set (FindAllStringSubmatch pattern (RedactSecrets logs))"
    "2 \<le> length ss" "name = TrimSpace (ss ! 1)"
    using assms by (auto simp: extractTestNames_def Let_def dedupeStrings_eq set_dedupe)
  then have "sublist (ss ! 1) (RedactSecrets logs)" "sublist name (ss ! 1)"
    by (auto intro: FindAllStringSubmatch_sublist)
  then show ?thesis by (meson RedactSecrets_no_token token_free_sublist)
qed

lemma appearances_token_free: "appearances fetched name \<noteq> [] \<Longrightarrow> token_free name"
  by (auto simp: appearances_def mentions_def filter_empty_conv split: option.splits
      intro: extractTestNames_token_free)

text \<open>C20. What the flaky-test report counts: with the logs of the failed runs that could be fetched, in the
  order of the runs, every listed test is one that such a log names, its frequency is the number of
  runs whose log names it (once per run, however often it appears), its rate that number over the failed
  runs, and its recency the latest of these runs. No test is listed twice.\<close>

theorem AnalyzeFlakyTests_counts:
  "let fetched = val (fetch_all F runs) w; rp = val (AnalyzeFlakyTests E r wfl days runs F t) w
   in rp_FailedRuns rp = int (length fetched) \<and> rp_ScannedRuns rp = int (length runs) \<and>
      distinct (map ft_TestName (rp_TopFlaky rp)) \<and>
      list_all (\<lambda>ft. appearances fetched (ft_TestName ft) \<noteq> [] \<and> ft = expected fetched (ft_TestName ft))
        (rp_TopFlaky rp)"
proof -
  obtain names where n: "distinct names" "set names = {n. appearances (val (fetch_all F runs) w) n \<noteq> []}"
    "rp_TopFlaky (val (AnalyzeFlakyTests E r wfl days runs F t) w) =
      take 10 (stable_sort flaky_less (map (expected (val (fetch_all F runs) w)) names))"
    "rp_FailedRuns (val (AnalyzeFlakyTests E r wfl days runs F t) w) = int (length (val (fetch_all F runs) w))"
    "rp_ScannedRuns (val (AnalyzeFlakyTests E r wfl days runs F t) w) = int (length runs)"
    by (rule AnalyzeFlakyTests_result [of F runs w E r wfl days t])
  have "distinct (map ft_TestName (stable_sort flaky_less (map (expected (val (fetch_all F runs) w)) names)))"
    using n(1) by (simp add: o_def)
  then have "distinct (map ft_TestName (rp_TopFlaky (val (AnalyzeFlakyTests E r wfl days runs F t) w)))"
    by (simp add: n(3) take_map [symmetric])
  then show ?thesis
    using flaky_records [of _ "val (fetch_all F runs) w" names] n by (auto simp: Let_def list_all_iff)
qed

text \<open>C21. The ten most frequent: the report is in descending order of frequency, then confidence, has at most ten
  tests, and a test that some log names is left out only if ten are listed and none of them ranks below it.\<close>

theorem AnalyzeFlakyTests_top:
  "let fetched = val (fetch_all F runs) w; rp = val (AnalyzeFlakyTests E r wfl days runs F t) w
   in sorted_wrt at_least_as_flaky (rp_TopFlaky rp) \<and> length (rp_TopFlaky rp) \<le> 10 \<and>
      (appearances fetched name = [] \<or> name \<in> ft_TestName ` set (rp_TopFlaky rp) \<or>
       length (rp_TopFlaky rp) = 10 \<and>
       list_all (\<lambda>ft. at_least_as_flaky ft (expected fetched name)) (rp_TopFlaky rp))"
proof -
  define fetched where "fetched = val (fetch_all F runs) w"
  obtain names where n: "distinct names" "set names = {n. appearances fetched n \<noteq> []}"
    "rp_TopFlaky (val (AnalyzeFlakyTests E r wfl days runs F t) w) =
      take 10 (stable_sort flaky_less (map (expected fetched) names))"
    unfolding fetched_def by (rule AnalyzeFlakyTests_result [of F runs w E r wfl days t])
  let ?s = "stable_sort flaky_less (map (expected fetched) names)"
  have order: "flaky.in_order ?s" by (rule flaky.in_order_stable_sort)
  have omitted: "length (take 10 ?s) = 10 \<and> list_all (\<lambda>ft. \<not> flaky_less (expected fetched name) ft) (take 10 ?s)"
    if "appearances fetched name \<noteq> []" "name \<notin> ft_TestName ` set (take 10 ?s)"
  proof -
    have "expected fetched name \<in> set ?s" using that(1) n(2) by simp
    then have "expected fetched name \<in> set (take 10 ?s) \<union> set (drop 10 ?s)"
      by (metis append_take_drop_id set_append)
    moreover have "expected fetched name \<notin> set (take 10 ?s)" using that(2) by force
    ultimately have d: "expected fetched name \<in> set (drop 10 ?s)" by blast
    then have "10 < length ?s" by (metis drop_all empty_iff list.set(1) not_le)
    then show ?thesis using flaky.take_dominates [OF order _ d] by (simp add: list_all_iff)
  qed
  show ?thesis
    using omitted flaky.take_in_order [OF order, of 10]
    unfolding Let_def n(3) fetched_def [symmetric] flaky.in_order_def at_least_as_flaky by auto
qed

text \<open>Every listed test has a frequency between one and the number of failed runs, a rate in (0, 1] and a
  confidence above 0.3 and at most 0.98.\<close>

theorem AnalyzeFlakyTests_bounds:
  "let rp = val (AnalyzeFlakyTests E r wfl days runs F t) w
   in list_all (\<lambda>ft. 1 \<le> ft_FailureFrequency ft \<and> ft_FailureFrequency ft \<le> rp_FailedRuns rp \<and>
        0 < ft_FailureRate ft \<and> ft_FailureRate ft \<le> 1 \<and>
        3 / 10 < ft_Confidence ft \<and> ft_Confidence ft \<le> 98 / 100) (rp_TopFlaky rp)"
proof -
  define fetched where "fetched = val (fetch_all F runs) w"
  obtain names where n: "set names = {n. appearances fetched n \<noteq> []}"
    "rp_TopFlaky (val (AnalyzeFlakyTests E r wfl days runs F t) w) =
      take 10 (stable_sort flaky_less (map (expected fetched) names))"
    "rp_FailedRuns (val (AnalyzeFlakyTests E r wfl days runs F t) w) = int (length fetched)"
    unfolding fetched_def by (rule AnalyzeFlakyTests_result [of F runs w E r wfl days t])
  have "1 \<le> ft_FailureFrequency ft \<and> ft_FailureFrequency ft \<le> int (length fetched) \<and>
      0 < ft_FailureRate ft \<and> ft_FailureRate ft \<le> 1 \<and> 3 / 10 < ft_Confidence ft \<and> ft_Confidence ft \<le> 98 / 100"
    if "ft \<in> set (take 10 (stable_sort flaky_less (map (expected fetched) names)))" for ft
  proof -
    from flaky_records [OF that] n(1) have "appearances fetched (ft_TestName ft) \<noteq> []"
      "ft = expected fetched (ft_TestName ft)" by auto
    then show ?thesis using expected_bounds [of fetched "ft_TestName ft"] by metis
  qed
  then show ?thesis by (simp add: Let_def n list_all_iff)
qed

text \<open>C40. No listed test name contains a GitHub token or an AWS access key id, although the names come from raw logs.\<close>

theorem AnalyzeFlakyTests_token_free:
  "list_all (\<lambda>ft. token_free (ft_TestName ft))
     (rp_TopFlaky (val (AnalyzeFlakyTests E r wfl days runs F t) w))"
proof -
  define fetched where "fetched = val (fetch_all F runs) w"
  obtain names where n: "set names = {n. appearances fetched n \<noteq> []}"
    "rp_TopFlaky (val (AnalyzeFlakyTests E r wfl days runs F t) w) =
      take 10 (stable_sort flaky_less (map (expected fetched) names))"
    unfolding fetched_def by (rule AnalyzeFlakyTests_result [of F runs w E r wfl days t])
  have "token_free (ft_TestName ft)"
    if "ft \<in> set (take 10 (stable_sort flaky_less (map (expected fetched) names)))" for ft
    using flaky_records [OF that] n(1) by (auto intro: appearances_token_free)
  then show ?thesis by (simp add: n list_all_iff)
qed

end
