(* ===== verification/Performance.thy ===== *)
theory Performance
  imports Domain Go_Time "HOL-Library.AList"
begin

text \<open>
  internal/analysis/performance.go: the metrics of a window of runs and the comparison of two windows. The
  map of outcomes per commit is an association list with one entry per commit, since the code counts its
  entries; the failure breakdown, which is only read, is a map.
\<close>

section \<open>One run\<close>

definition run_start :: "Run \<Rightarrow> gotime" where
  "run_start run =
     (case run_RunStartedAt run of
        Some s \<Rightarrow> if \<not> IsZero s then s else run_CreatedAt run
      | None \<Rightarrow> run_CreatedAt run)"

definition runDurationMS :: "Run \<Rightarrow> int" where
  "runDurationMS run =
     (let end = run_UpdatedAt run; start = run_start run
      in if end < start then 0 else Milliseconds (Sub end start))"

definition queueTimeMS :: "Run \<Rightarrow> int" where
  "queueTimeMS run =
     (case run_RunStartedAt run of
        None \<Rightarrow> 0
      | Some s \<Rightarrow>
          if IsZero s then 0
          else if s < run_CreatedAt run then 0
          else Milliseconds (Sub s (run_CreatedAt run)))"

definition classifyRunFailure :: "Run \<Rightarrow> string" where
  "classifyRunFailure run =
     (let conclusion = ToLower (TrimSpace (run_Conclusion run)) in
      if conclusion = ''timed_out'' \<or> conclusion = ''cancelled'' then ''infra_timeout''
      else if conclusion = ''startup_failure'' \<or> conclusion = ''action_required'' then ''config_error''
      else if conclusion = ''failure'' then ''test_or_build_failure''
      else if conclusion = ''stale'' then ''stale''
      else if conclusion = '''' then ''unknown''
      else conclusion)"

section \<open>A window\<close>

type_synonym outcomes = "(string \<times> string list) list"

definition succeeded :: "Run \<Rightarrow> bool" where
  "succeeded run \<longleftrightarrow> EqualFold (run_Conclusion run) ''success''"

definition tally :: "(string \<rightharpoonup> int) \<Rightarrow> string \<Rightarrow> (string \<rightharpoonup> int)" where
  "tally m k = m(k \<mapsto> (case m k of None \<Rightarrow> 0 | Some n \<Rightarrow> n) + 1)"

definition record_outcome :: "Run \<Rightarrow> outcomes \<Rightarrow> outcomes" where
  "record_outcome run shaOutcomes =
     (if TrimSpace (run_HeadSHA run) \<noteq> '''' then
        let seen = (case map_of shaOutcomes (run_HeadSHA run) of None \<Rightarrow> [] | Some l \<Rightarrow> l)
        in AList.update (run_HeadSHA run) (ToLower (run_Conclusion run) # seen) shaOutcomes
      else shaOutcomes)"

record window_state =
  ws_durations :: "int list"
  ws_successCount :: int
  ws_totalQueueTime :: int
  ws_failureBreakdown :: "string \<rightharpoonup> int"
  ws_shaOutcomes :: outcomes

definition empty_window :: window_state where
  "empty_window = \<lparr>ws_durations = [], ws_successCount = 0, ws_totalQueueTime = 0,
     ws_failureBreakdown = (\<lambda>_. None), ws_shaOutcomes = []\<rparr>"

text \<open>The body of the loop over the runs.\<close>

definition add_run :: "window_state \<Rightarrow> Run \<Rightarrow> window_state" where
  "add_run s run =
     (let s = s\<lparr>ws_durations := ws_durations s @ [runDurationMS run],
                ws_totalQueueTime := wrap64 (ws_totalQueueTime s + queueTimeMS run)\<rparr>;
          s = (if succeeded run then s\<lparr>ws_successCount := ws_successCount s + 1\<rparr>
               else s\<lparr>ws_failureBreakdown := tally (ws_failureBreakdown s) (classifyRunFailure run)\<rparr>)
      in s\<lparr>ws_shaOutcomes := record_outcome run (ws_shaOutcomes s)\<rparr>)"

definition median_of :: "int list \<Rightarrow> int" where
  "median_of values =
     (let durations = stable_sort (<) values; n = length durations
      in if n mod 2 = 0 then godiv (wrap64 (durations ! (n div 2 - 1) + durations ! (n div 2))) 2
         else durations ! (n div 2))"

definition is_flaky_candidate :: "string list \<Rightarrow> bool" where
  "is_flaky_candidate outcomes \<longleftrightarrow> ''failure'' \<in> set outcomes \<and> ''success'' \<in> set outcomes"

definition calculateWindowMetrics :: "Run list \<Rightarrow> WindowMetrics" where
  "calculateWindowMetrics runs =
     (if runs = [] then
        \<lparr>wm_SuccessRate = 0, wm_MedianDurationMS = 0, wm_QueueTimeMS = 0,
         wm_FailureBreakdown = (\<lambda>_. None), wm_FlakyTestRate = 0, wm_TotalRuns = 0\<rparr>
      else
        let s = foldl add_run empty_window runs;
            flakyCandidates = int (length (filter (\<lambda>(sha, os). is_flaky_candidate os) (ws_shaOutcomes s)));
            total = int (length runs)
        in \<lparr>wm_SuccessRate = of_int (ws_successCount s) / of_int total,
            wm_MedianDurationMS = median_of (ws_durations s),
            wm_QueueTimeMS = godiv (ws_totalQueueTime s) total,
            wm_FailureBreakdown = ws_failureBreakdown s,
            wm_FlakyTestRate = of_int flakyCandidates / of_int total,
            wm_TotalRuns = total\<rparr>)"

definition BuildPerformanceSnapshot ::
  "string \<Rightarrow> string \<Rightarrow> gotime \<Rightarrow> gotime \<Rightarrow> Run list \<Rightarrow> Run list \<Rightarrow> PipelinePerformanceSnapshot" where
  "BuildPerformanceSnapshot repository workflow start stop currentRuns baselineRuns =
     (let current = calculateWindowMetrics currentRuns; baseline = calculateWindowMetrics baselineRuns
      in \<lparr>ps_Repository = repository, ps_Workflow = workflow, ps_From = FormatRFC3339 start,
          ps_To = FormatRFC3339 stop, ps_Baseline = baseline, ps_Current = current,
          ps_Delta =
            \<lparr>wd_SuccessRateChange = wm_SuccessRate current - wm_SuccessRate baseline,
             wd_MedianDurationMSChange = wrap64 (wm_MedianDurationMS current - wm_MedianDurationMS baseline),
             wd_QueueTimeMSChange = wrap64 (wm_QueueTimeMS current - wm_QueueTimeMS baseline),
             wd_FlakyTestRateChange = wm_FlakyTestRate current - wm_FlakyTestRate baseline\<rparr>\<rparr>)"

section \<open>What the loop computes\<close>

text \<open>
  The reference: the state of the loop as a function of the runs seen so far.
\<close>

definition queue_sum :: "Run list \<Rightarrow> int" where
  "queue_sum runs = sum_list (map queueTimeMS runs)"

definition failures_of :: "Run list \<Rightarrow> string \<Rightarrow> Run list" where
  "failures_of runs k = filter (\<lambda>run. \<not> succeeded run \<and> classifyRunFailure run = k) runs"

definition conclusions_at :: "Run list \<Rightarrow> string \<Rightarrow> string set" where
  "conclusions_at runs sha = (\<lambda>run. ToLower (run_Conclusion run)) ` {run \<in> set runs. run_HeadSHA run = sha}"

lemma queueTimeMS_bounds: "0 \<le> queueTimeMS run" "queueTimeMS run \<le> 9223372036854"
  using Milliseconds_Sub_bounds by (auto simp: queueTimeMS_def split: option.split)

lemma runDurationMS_bounds: "0 \<le> runDurationMS run" "runDurationMS run \<le> 9223372036854"
  using Milliseconds_Sub_bounds by (auto simp: runDurationMS_def Let_def not_less)

lemma loop_durations: "ws_durations (foldl add_run s runs) = ws_durations s @ map runDurationMS runs"
  by (induction runs arbitrary: s) (simp_all add: add_run_def Let_def)

lemma loop_queue: "in64 (ws_totalQueueTime s) \<Longrightarrow>
  ws_totalQueueTime (foldl add_run s runs) = wrap64 (ws_totalQueueTime s + queue_sum runs)"
  by (induction runs arbitrary: s)
    (simp_all add: add_run_def Let_def queue_sum_def wrap64_id add.assoc)

lemma loop_success:
  "ws_successCount (foldl add_run s runs) = ws_successCount s + int (length (filter succeeded runs))"
  by (induction runs arbitrary: s) (simp_all add: add_run_def Let_def)

lemma loop_failures:
  "ws_failureBreakdown (foldl add_run s runs) k =
     (if failures_of runs k = [] then ws_failureBreakdown s k
      else Some ((case ws_failureBreakdown s k of None \<Rightarrow> 0 | Some n \<Rightarrow> n) + int (length (failures_of runs k))))"
  by (induction runs arbitrary: s)
    (auto simp: add_run_def Let_def failures_of_def tally_def split: option.splits)
definition tracked :: "Run list \<Rightarrow> string set" where
  "tracked runs = {sha \<in> run_HeadSHA ` set runs. TrimSpace sha \<noteq> ''''}"

definition outcomes_of :: "outcomes \<Rightarrow> Run list \<Rightarrow> bool" where
  "outcomes_of os runs \<longleftrightarrow> distinct (map fst os) \<and>
     (\<forall>sha. map_option set (map_of os sha) =
       (if sha \<in> tracked runs then Some (conclusions_at runs sha) else None))"

lemma conclusions_at_snoc:
  "conclusions_at (runs @ [run]) sha =
     (if run_HeadSHA run = sha then insert (ToLower (run_Conclusion run)) (conclusions_at runs sha)
      else conclusions_at runs sha)"
  by (auto simp: conclusions_at_def)

lemma conclusions_at_untracked: "sha \<notin> run_HeadSHA ` set runs \<Longrightarrow> conclusions_at runs sha = {}"
  by (auto simp: conclusions_at_def)

lemma outcomes_of_step:
  assumes "outcomes_of os runs"
  shows "outcomes_of (record_outcome run os) (runs @ [run])"
proof (cases "TrimSpace (run_HeadSHA run) = ''''")
  case True
  then have "tracked (runs @ [run]) = tracked runs" by (auto simp: tracked_def)
  moreover have "run_HeadSHA run \<noteq> sha" if "sha \<in> tracked runs" for sha
    using True that by (auto simp: tracked_def)
  ultimately show ?thesis
    using assms True by (simp add: outcomes_of_def record_outcome_def conclusions_at_snoc)
next
  case False
  define l where "l = (case map_of os (run_HeadSHA run) of None \<Rightarrow> [] | Some l \<Rightarrow> l)"
  have look: "map_option set (map_of os sha) = (if sha \<in> tracked runs then Some (conclusions_at runs sha) else None)"
    for sha using assms by (simp add: outcomes_of_def)
  have "set l = conclusions_at runs (run_HeadSHA run)"
  proof (cases "map_of os (run_HeadSHA run)")
    case None
    then have "run_HeadSHA run \<notin> tracked runs" using look [of "run_HeadSHA run"] by auto
    then have "run_HeadSHA run \<notin> run_HeadSHA ` set runs" using False by (auto simp: tracked_def)
    with None show ?thesis by (simp add: l_def conclusions_at_untracked)
  next
    case (Some m)
    then show ?thesis using look [of "run_HeadSHA run"] by (auto simp: l_def split: if_splits)
  qed
  moreover have "tracked (runs @ [run]) = insert (run_HeadSHA run) (tracked runs)"
    using False by (auto simp: tracked_def)
  moreover have "record_outcome run os = AList.update (run_HeadSHA run) (ToLower (run_Conclusion run) # l) os"
    using False by (simp add: record_outcome_def l_def)
  ultimately show ?thesis
    using assms look
    by (simp add: outcomes_of_def distinct_update update_conv' conclusions_at_snoc del: map_option_eq_Some)
qed

lemma loop_outcomes:
  "outcomes_of (ws_shaOutcomes s) seen \<Longrightarrow>
   outcomes_of (ws_shaOutcomes (foldl add_run s runs)) (seen @ runs)"
proof (induction runs arbitrary: s seen)
  case (Cons run runs)
  have "ws_shaOutcomes (add_run s run) = record_outcome run (ws_shaOutcomes s)"
    by (simp add: add_run_def Let_def)
  then have "outcomes_of (ws_shaOutcomes (add_run s run)) (seen @ [run])"
    using outcomes_of_step [OF Cons.prems] by simp
  from Cons.IH [OF this] show ?case by simp
qed simp

definition flaky_commits :: "Run list \<Rightarrow> string set" where
  "flaky_commits runs = {sha \<in> tracked runs. {''failure'', ''success''} \<subseteq> conclusions_at runs sha}"

lemma flaky_commits_count:
  assumes "outcomes_of os runs"
  shows "length (filter (\<lambda>(sha, l). is_flaky_candidate l) os) = card (flaky_commits runs)"
proof -
  let ?P = "\<lambda>(sha, l). is_flaky_candidate l"
  have d: "distinct (map fst (filter ?P os))"
    using assms by (simp add: outcomes_of_def distinct_map_filter)
  have "sha \<in> fst ` set (filter ?P os) \<longleftrightarrow> sha \<in> flaky_commits runs" for sha
  proof -
    have "sha \<in> fst ` set (filter ?P os) \<longleftrightarrow> (\<exists>l. map_of os sha = Some l \<and> is_flaky_candidate l)"
      using assms by (force simp: outcomes_of_def)
    also have "\<dots> \<longleftrightarrow> (\<exists>L. map_option set (map_of os sha) = Some L \<and> {''failure'', ''success''} \<subseteq> L)"
      by (auto simp: is_flaky_candidate_def)
    also have "\<dots> \<longleftrightarrow> sha \<in> flaky_commits runs"
      using assms by (simp add: outcomes_of_def flaky_commits_def)
    finally show ?thesis .
  qed
  then have "fst ` set (filter ?P os) = flaky_commits runs" by blast
  with distinct_card [OF d] show ?thesis by simp
qed

lemma flaky_commits_bound: "card (flaky_commits runs) \<le> length runs"
proof -
  have "card (flaky_commits runs) \<le> card (run_HeadSHA ` set runs)"
    by (rule card_mono) (auto simp: flaky_commits_def tracked_def)
  also have "\<dots> \<le> length runs" by (meson card_image_le card_length finite_set le_trans)
  finally show ?thesis .
qed

section \<open>The metrics of a window\<close>

lemma window_loop:
  assumes "runs \<noteq> []"
  shows "wm_SuccessRate (calculateWindowMetrics runs) = of_nat (length (filter succeeded runs)) / of_nat (length runs)"
    "wm_MedianDurationMS (calculateWindowMetrics runs) = median_of (map runDurationMS runs)"
    "wm_QueueTimeMS (calculateWindowMetrics runs) = godiv (wrap64 (queue_sum runs)) (int (length runs))"
    "wm_FailureBreakdown (calculateWindowMetrics runs) k =
      (if failures_of runs k = [] then None else Some (int (length (failures_of runs k))))"
    "wm_FlakyTestRate (calculateWindowMetrics runs) = of_nat (card (flaky_commits runs)) / of_nat (length runs)"
    "wm_TotalRuns (calculateWindowMetrics runs) = int (length runs)"
proof -
  have "outcomes_of [] []" by (simp add: outcomes_of_def tracked_def)
  then have "outcomes_of (ws_shaOutcomes (foldl add_run empty_window runs)) runs"
    using loop_outcomes [of empty_window "[]" runs] by (simp add: empty_window_def)
  note flaky_commits_count [OF this]
  then show "wm_SuccessRate (calculateWindowMetrics runs) = of_nat (length (filter succeeded runs)) / of_nat (length runs)"
    "wm_MedianDurationMS (calculateWindowMetrics runs) = median_of (map runDurationMS runs)"
    "wm_QueueTimeMS (calculateWindowMetrics runs) = godiv (wrap64 (queue_sum runs)) (int (length runs))"
    "wm_FailureBreakdown (calculateWindowMetrics runs) k =
      (if failures_of runs k = [] then None else Some (int (length (failures_of runs k))))"
    "wm_FlakyTestRate (calculateWindowMetrics runs) = of_nat (card (flaky_commits runs)) / of_nat (length runs)"
    "wm_TotalRuns (calculateWindowMetrics runs) = int (length runs)"
    using assms
    by (simp_all add: calculateWindowMetrics_def Let_def loop_durations loop_queue loop_success loop_failures
        empty_window_def)
qed

lemma queue_sum_bounds: "0 \<le> queue_sum runs \<and> queue_sum runs \<le> 9223372036854 * int (length runs)"
proof (induction runs)
  case (Cons run runs)
  then show ?case using queueTimeMS_bounds [of run] by (simp add: queue_sum_def algebra_simps)
qed (simp add: queue_sum_def)

lemma median_of_ranks:
  assumes "xs \<noteq> []" "\<forall>x \<in> set xs. 0 \<le> x \<and> x < 2 ^ 62"
  shows "length xs \<le> 2 * length (filter (\<lambda>x. x \<le> median_of xs) xs)"
    "length xs \<le> 2 * length (filter (\<lambda>x. median_of xs \<le> x) xs)"
proof -
  let ?s = "stable_sort (<) xs" and ?n = "length xs"
  have n: "0 < ?n" using assms(1) by simp
  show "?n \<le> 2 * length (filter (\<lambda>x. x \<le> median_of xs) xs)" "?n \<le> 2 * length (filter (\<lambda>x. median_of xs \<le> x) xs)"
  proof (atomize (full), cases "?n mod 2 = 0")
    case odd: False
    then have m: "median_of xs = ?s ! (?n div 2)" by (simp add: median_of_def Let_def)
    have i: "?n div 2 < ?n" using n by simp
    from rank_le [OF i, of "median_of xs"] rank_ge [OF i, of "median_of xs"] m odd
    show "?n \<le> 2 * length (filter (\<lambda>x. x \<le> median_of xs) xs) \<and>
        ?n \<le> 2 * length (filter (\<lambda>x. median_of xs \<le> x) xs)" by simp linarith
  next
    case even: True
    have "?n div 2 < ?n" using n by simp
    then have i: "?n div 2 < ?n" "?n div 2 - 1 < ?n" by linarith+
    let ?a = "?s ! (?n div 2 - 1)" and ?b = "?s ! (?n div 2)"
    have ab: "?a \<le> ?b" using i by (simp add: stable_sort_less sorted_nth_mono)
    have "?a \<in> set xs" "?b \<in> set xs" using i by (metis length_stable_sort nth_mem set_stable_sort)+
    with assms(2) have r: "0 \<le> ?a" "?b < 2 ^ 62" by auto
    with ab have "median_of xs = (?a + ?b) div 2"
      using even by (simp add: median_of_def Let_def wrap64_id in64_def godiv_nonneg)
    with ab have m: "?a \<le> median_of xs" "median_of xs \<le> ?b" by linarith+
    have "2 * (?n div 2) = ?n" using even by presburger
    with rank_le [OF i(2) m(1)] rank_ge [OF i(1) m(2)]
    show "?n \<le> 2 * length (filter (\<lambda>x. x \<le> median_of xs) xs) \<and>
        ?n \<le> 2 * length (filter (\<lambda>x. median_of xs \<le> x) xs)" by linarith
  qed
qed

text \<open>C22. The failure breakdown of a window is exact: a category is in it precisely if some run that did not
  succeed is classified so, with the number of these runs, and they and the successes make up the whole window.\<close>

theorem failure_breakdown_exact:
  "wm_FailureBreakdown (calculateWindowMetrics runs) k =
     (if failures_of runs k = [] then None else Some (int (length (failures_of runs k)))) \<and>
   int (length runs) = int (length (filter succeeded runs)) +
     (\<Sum>k | failures_of runs k \<noteq> []. int (length (failures_of runs k)))"
proof
  show "wm_FailureBreakdown (calculateWindowMetrics runs) k =
     (if failures_of runs k = [] then None else Some (int (length (failures_of runs k))))"
  proof (cases "runs = []")
    case False
    then show ?thesis by (rule window_loop(4))
  qed (simp add: calculateWindowMetrics_def failures_of_def)
  have dom: "{k. failures_of runs k \<noteq> []} = classifyRunFailure ` {run \<in> set runs. \<not> succeeded run}"
    by (auto simp: failures_of_def filter_empty_conv)
  have "length (filter (\<lambda>run. \<not> succeeded run) runs) =
      (\<Sum>k \<in> classifyRunFailure ` {run \<in> set runs. \<not> succeeded run}. length (failures_of runs k))"
  proof (induction runs)
    case (Cons run runs)
    show ?case
    proof (cases "succeeded run")
      case True
      then have "{r \<in> set (run # runs). \<not> succeeded r} = {r \<in> set runs. \<not> succeeded r}" by auto
      with Cons True show ?thesis by (simp add: failures_of_def)
    next
      case False
      let ?D = "classifyRunFailure ` {r \<in> set runs. \<not> succeeded r}" and ?k = "classifyRunFailure run"
      have D: "classifyRunFailure ` {r \<in> set (run # runs). \<not> succeeded r} = insert ?k ?D" using False by auto
      have len: "length (failures_of (run # runs) k) = length (failures_of runs k) + (if k = ?k then 1 else 0)" for k
        using False by (simp add: failures_of_def)
      have "?k \<notin> ?D \<Longrightarrow> failures_of runs ?k = []"
        unfolding failures_of_def filter_empty_conv by (metis (mono_tags, lifting) image_eqI mem_Collect_eq)
      then have "(\<Sum>k \<in> insert ?k ?D. length (failures_of runs k)) = (\<Sum>k \<in> ?D. length (failures_of runs k))"
        by (cases "?k \<in> ?D") (simp_all add: insert_absorb)
      with Cons False show ?thesis unfolding D by (simp add: len sum.distrib)
    qed
  qed simp
  then show "int (length runs) = int (length (filter succeeded runs)) +
     (\<Sum>k | failures_of runs k \<noteq> []. int (length (failures_of runs k)))"
    unfolding dom using sum_length_filter_compl [of succeeded runs] by (simp flip: of_nat_sum)
qed

text \<open>The rates of a window: the success rate and the flaky rate lie in [0, 1]; the first is the share of
  runs that concluded "success", the second counts the commits with both a failed and a successful run.\<close>

theorem window_rates:
  "let m = calculateWindowMetrics runs
   in 0 \<le> wm_SuccessRate m \<and> wm_SuccessRate m \<le> 1 \<and> 0 \<le> wm_FlakyTestRate m \<and> wm_FlakyTestRate m \<le> 1 \<and>
      wm_TotalRuns m = int (length runs) \<and>
      wm_SuccessRate m * of_int (wm_TotalRuns m) = of_nat (length (filter succeeded runs)) \<and>
      wm_FlakyTestRate m * of_int (wm_TotalRuns m) = of_nat (card (flaky_commits runs))"
proof (cases "runs = []")
  case False
  then show ?thesis
    using flaky_commits_bound [of runs] length_filter_le [of succeeded runs]
    by (simp add: Let_def window_loop [OF False])
qed (simp add: calculateWindowMetrics_def flaky_commits_def tracked_def)

text \<open>The median of a window: at least half of the runs take at most that long, and at least half take at
  least that long; the average queue time is not negative for up to a million runs, since no sum overflows.\<close>

theorem window_median:
  assumes "runs \<noteq> []" "length runs \<le> 1000000"
  shows "let m = calculateWindowMetrics runs
    in length runs \<le> 2 * length (filter (\<lambda>run. runDurationMS run \<le> wm_MedianDurationMS m) runs) \<and>
       length runs \<le> 2 * length (filter (\<lambda>run. wm_MedianDurationMS m \<le> runDurationMS run) runs) \<and>
       0 \<le> wm_QueueTimeMS m \<and> wm_QueueTimeMS m = queue_sum runs div int (length runs)"
proof -
  have "\<forall>x \<in> set (map runDurationMS runs). 0 \<le> x \<and> x < 2 ^ 62"
    by (auto intro: runDurationMS_bounds le_less_trans [OF runDurationMS_bounds(2)])
  from median_of_ranks [OF _ this] assms(1)
  have "length runs \<le> 2 * length (filter (\<lambda>run. runDurationMS run \<le> median_of (map runDurationMS runs)) runs)"
    "length runs \<le> 2 * length (filter (\<lambda>run. median_of (map runDurationMS runs) \<le> runDurationMS run) runs)"
    by (simp_all add: filter_map o_def)
  moreover have "in64 (queue_sum runs)" "0 < int (length runs)"
    using queue_sum_bounds [of runs] assms by (auto simp: in64_def)
  ultimately show ?thesis
    using queue_sum_bounds [of runs]
    by (simp add: window_loop [OF assms(1)] wrap64_id godiv_nonneg pos_imp_zdiv_nonneg_iff Let_def)
qed

definition sample_run :: "int \<Rightarrow> Run" where
  "sample_run seconds = \<lparr>run_ID = 7, run_Name = ''ci'', run_DisplayTitle = ''ci'', run_Status = ''completed'',
     run_Conclusion = ''success'', run_RunURL = [], run_HeadSHA = ''abc'', run_CreatedAt = 0,
     run_UpdatedAt = seconds * second, run_RunStartedAt = None\<rparr>"

theorem window_median_witness:
  "wm_MedianDurationMS (calculateWindowMetrics [sample_run 4, sample_run 1]) = 2500 \<and>
   (let runs = [sample_run 4, sample_run 1]; m = calculateWindowMetrics runs
    in length runs \<le> 2 * length (filter (\<lambda>run. runDurationMS run \<le> wm_MedianDurationMS m) runs) \<and>
       length runs \<le> 2 * length (filter (\<lambda>run. wm_MedianDurationMS m \<le> runDurationMS run) runs) \<and>
       0 \<le> wm_QueueTimeMS m \<and> wm_QueueTimeMS m = queue_sum runs div int (length runs))"
proof
  show "wm_MedianDurationMS (calculateWindowMetrics [sample_run 4, sample_run 1]) = 2500" by code_simp
qed (unfold Let_def, rule window_median [unfolded Let_def], simp_all)

end
