(* ===== verification/Config.thy ===== *)
theory Config
  imports World
begin

text \<open>
  config/config.go: the configuration read from the environment variables, here a function from their
  names to their values (empty when unset, as \<open>os.Getenv\<close> has it), and its validation.
\<close>

section \<open>Reading variables\<close>

record Config =
  cf_ServerName :: string
  cf_Version :: string
  cf_LogLevel :: log_level
  cf_GitHubAPIBaseURL :: string
  cf_GitHubReadToken :: string
  cf_GitHubWriteToken :: string
  cf_DisableMutations :: bool
  cf_AuditLogPath :: string
  cf_AuditSigningKey :: string
  cf_MetricsExportPath :: string
  cf_MaxLogBytes :: int
  cf_DefaultLookbackDays :: int
  cf_MaxHistoricalRuns :: int
  cf_HTTPTimeout :: duration
  cf_UserAgent :: string
  cf_Actor :: string

text \<open>internal/buildinfo/buildinfo.go\<close>

definition Version :: string where "Version = ''dev''"

type_synonym environ = "string \<Rightarrow> string"

definition defaultUserAgent :: "string \<Rightarrow> string" where
  "defaultUserAgent version = ''pipeline-mcp/'' @ TrimSpace version"

definition getEnv :: "environ \<Rightarrow> string \<Rightarrow> string \<Rightarrow> string" where
  "getEnv env key defaultValue =
     (let value = TrimSpace (env key) in if value \<noteq> '''' then value else defaultValue)"

fun firstEnv :: "environ \<Rightarrow> string list \<Rightarrow> string" where
  "firstEnv env [] = ''''"
| "firstEnv env (key # keys) =
     (let value = TrimSpace (env key) in if value \<noteq> '''' then value else firstEnv env keys)"

definition parse_num :: "string \<Rightarrow> string \<Rightarrow> int result" where
  "parse_num fn s = (case ParseInt s of Inl e \<Rightarrow> Inl (Errorf (NumError_text fn s e)) | Inr i \<Rightarrow> Inr i)"

definition getEnvInt :: "environ \<Rightarrow> string \<Rightarrow> int \<Rightarrow> int result" where
  "getEnvInt env key defaultValue =
     (let value = TrimSpace (env key) in if value = '''' then Inr defaultValue else parse_num ''Atoi'' value)"

definition getEnvInt64 :: "environ \<Rightarrow> string \<Rightarrow> int \<Rightarrow> int result" where
  "getEnvInt64 env key defaultValue =
     (let value = TrimSpace (env key) in if value = '''' then Inr defaultValue else parse_num ''ParseInt'' value)"

text \<open>\<open>strconv.ParseBool\<close>\<close>

definition ParseBool :: "string \<Rightarrow> bool result" where
  "ParseBool s =
     (if s \<in> set [''1'', ''t'', ''T'', ''TRUE'', ''true'', ''True''] then Inr True
      else if s \<in> set [''0'', ''f'', ''F'', ''FALSE'', ''false'', ''False''] then Inr False
      else Inl (Errorf (NumError_text ''ParseBool'' s ErrSyntax)))"

definition getEnvBool :: "environ \<Rightarrow> string \<Rightarrow> bool \<Rightarrow> bool result" where
  "getEnvBool env key defaultValue =
     (let value = TrimSpace (env key) in if value = '''' then Inr defaultValue else ParseBool value)"

definition parseLogLevel :: "string \<Rightarrow> log_level result" where
  "parseLogLevel value =
     (let v = ToLower (TrimSpace value) in
      if v = ''debug'' then Inr LevelDebug
      else if v = ''info'' \<or> v = '''' then Inr LevelInfo
      else if v = ''warn'' \<or> v = ''warning'' then Inr LevelWarn
      else if v = ''error'' then Inr LevelError
      else Inl (Errorf (''unknown log level '' @ Quote value)))"

section \<open>Validation\<close>

definition validate :: "Config \<Rightarrow> go_error option" where
  "validate cfg =
     (if cf_MaxLogBytes cfg \<le> 0 then Some (Errorf ''MAX_LOG_BYTES must be greater than zero'')
      else if cf_DefaultLookbackDays cfg \<le> 0 then Some (Errorf ''DEFAULT_LOOKBACK_DAYS must be greater than zero'')
      else if cf_MaxHistoricalRuns cfg \<le> 0 then Some (Errorf ''MAX_HISTORICAL_RUNS must be greater than zero'')
      else if cf_HTTPTimeout cfg \<le> 0 then Some (Errorf ''HTTP_TIMEOUT_SECONDS must be greater than zero'')
      else if \<not> cf_DisableMutations cfg \<and> TrimSpace (cf_GitHubWriteToken cfg) = '''' then
        Some (Errorf ''GITHUB_WRITE_TOKEN is required when DISABLE_MUTATIONS=false'')
      else (case url_Parse (cf_GitHubAPIBaseURL cfg) of
          Inl e \<Rightarrow> Some (wrap_in ''parse GITHUB_API_BASE_URL'' (Errorf e))
        | Inr u \<Rightarrow>
            if u_Scheme u \<noteq> ''https'' \<and> u_Scheme u \<noteq> ''http'' then
              Some (Errorf ''GITHUB_API_BASE_URL must use http or https'')
            else if TrimSpace (u_Host u) = '''' then Some (Errorf ''GITHUB_API_BASE_URL must include a host'')
            else None))"

text \<open>\<open>x, err := r; if err != nil { return fmt.Errorf("parse KEY: %w", err) }\<close>\<close>

definition parsed :: "string \<Rightarrow> 'a result \<Rightarrow> ('a \<Rightarrow> 'b result) \<Rightarrow> 'b result" where
  "parsed key r f = (case r of Inl e \<Rightarrow> Inl (wrap_in (''parse '' @ key) e) | Inr x \<Rightarrow> f x)"

definition Load :: "environ \<Rightarrow> Config result" where
  "Load env =
     (case parseLogLevel (getEnv env ''LOG_LEVEL'' ''info'') of
        Inl e \<Rightarrow> Inl e
      | Inr level \<Rightarrow>
          parsed ''MAX_LOG_BYTES'' (getEnvInt64 env ''MAX_LOG_BYTES'' (20 * 1024 * 1024)) (\<lambda>maxLogBytes.
          parsed ''DEFAULT_LOOKBACK_DAYS'' (getEnvInt env ''DEFAULT_LOOKBACK_DAYS'' 14) (\<lambda>lookback.
          parsed ''MAX_HISTORICAL_RUNS'' (getEnvInt env ''MAX_HISTORICAL_RUNS'' 100) (\<lambda>maxRuns.
          parsed ''HTTP_TIMEOUT_SECONDS'' (getEnvInt env ''HTTP_TIMEOUT_SECONDS'' 25) (\<lambda>httpTimeoutSeconds.
          parsed ''DISABLE_MUTATIONS'' (getEnvBool env ''DISABLE_MUTATIONS'' True) (\<lambda>disableMutations.
            let version = getEnv env ''VERSION'' Version;
                cfg = \<lparr>cf_ServerName = getEnv env ''SERVER_NAME'' ''pipeline-mcp'',
                  cf_Version = version,
                  cf_LogLevel = level,
                  cf_GitHubAPIBaseURL = TrimRightSlash (getEnv env ''GITHUB_API_BASE_URL'' ''https://api.github.com''),
                  cf_GitHubReadToken = firstEnv env [''GITHUB_READ_TOKEN'', ''GITHUB_TOKEN'', ''GH_TOKEN''],
                  cf_GitHubWriteToken = TrimSpace (env ''GITHUB_WRITE_TOKEN''),
                  cf_DisableMutations = disableMutations,
                  cf_AuditLogPath = getEnv env ''AUDIT_LOG_PATH'' ''var/audit-events.jsonl'',
                  cf_AuditSigningKey = TrimSpace (env ''AUDIT_SIGNING_KEY''),
                  cf_MetricsExportPath = TrimSpace (env ''METRICS_EXPORT_PATH''),
                  cf_MaxLogBytes = maxLogBytes,
                  cf_DefaultLookbackDays = lookback,
                  cf_MaxHistoricalRuns = maxRuns,
                  cf_HTTPTimeout = wrap64 (httpTimeoutSeconds * second),
                  cf_UserAgent = getEnv env ''USER_AGENT'' (defaultUserAgent version),
                  cf_Actor = getEnv env ''ACTOR'' ''pipeline-mcp''\<rparr>
            in case validate cfg of Some e \<Rightarrow> Inl e | None \<Rightarrow> Inr cfg))))))"

section \<open>Correctness\<close>

text \<open>What the rest of the program may assume of a configuration.\<close>

definition valid_config :: "Config \<Rightarrow> bool" where
  "valid_config cfg \<longleftrightarrow>
     0 < cf_MaxLogBytes cfg \<and> in64 (cf_MaxLogBytes cfg) \<and>
     0 < cf_DefaultLookbackDays cfg \<and> in64 (cf_DefaultLookbackDays cfg) \<and>
     0 < cf_MaxHistoricalRuns cfg \<and> in64 (cf_MaxHistoricalRuns cfg) \<and>
     0 < cf_HTTPTimeout cfg \<and> in64 (cf_HTTPTimeout cfg) \<and>
     (cf_DisableMutations cfg \<or> TrimSpace (cf_GitHubWriteToken cfg) \<noteq> '''') \<and>
     cf_AuditLogPath cfg \<noteq> '''' \<and> cf_Actor cfg \<noteq> '''' \<and>
     (\<exists>u. url_Parse (cf_GitHubAPIBaseURL cfg) = Inr u \<and> u_Scheme u \<in> {''http'', ''https''} \<and> u_Host u \<noteq> '''')"

lemma validate_None:
  "validate cfg = None \<longleftrightarrow>
   0 < cf_MaxLogBytes cfg \<and> 0 < cf_DefaultLookbackDays cfg \<and> 0 < cf_MaxHistoricalRuns cfg \<and>
   0 < cf_HTTPTimeout cfg \<and> (cf_DisableMutations cfg \<or> TrimSpace (cf_GitHubWriteToken cfg) \<noteq> '''') \<and>
   (\<exists>u. url_Parse (cf_GitHubAPIBaseURL cfg) = Inr u \<and> u_Scheme u \<in> {''http'', ''https''} \<and>
        TrimSpace (u_Host u) \<noteq> '''')"
  by (auto simp: validate_def split: sum.splits)

lemma parsed_Inr: "parsed k r f = Inr y \<longleftrightarrow> (\<exists>x. r = Inr x \<and> f x = Inr y)"
  by (simp add: parsed_def split: sum.split)

lemma getEnv_not_Nil: "d \<noteq> [] \<Longrightarrow> getEnv env k d \<noteq> []"
  by (simp add: getEnv_def Let_def)

lemma getEnvInt_in64: "getEnvInt env k d = Inr i \<Longrightarrow> in64 d \<Longrightarrow> in64 i"
  and getEnvInt64_in64: "getEnvInt64 env k d = Inr i \<Longrightarrow> in64 d \<Longrightarrow> in64 i"
  by (auto simp: getEnvInt_def getEnvInt64_def parse_num_def Let_def dest: ParseInt_in64 split: if_splits sum.splits)

text \<open>What a successful load returns, variable by variable.\<close>

lemma Load_Inr:
  assumes "Load env = Inr cfg"
  shows "validate cfg = None \<and>
    parseLogLevel (getEnv env ''LOG_LEVEL'' ''info'') = Inr (cf_LogLevel cfg) \<and>
    getEnvInt64 env ''MAX_LOG_BYTES'' (20 * 1024 * 1024) = Inr (cf_MaxLogBytes cfg) \<and>
    getEnvInt env ''DEFAULT_LOOKBACK_DAYS'' 14 = Inr (cf_DefaultLookbackDays cfg) \<and>
    getEnvInt env ''MAX_HISTORICAL_RUNS'' 100 = Inr (cf_MaxHistoricalRuns cfg) \<and>
    (\<exists>s. getEnvInt env ''HTTP_TIMEOUT_SECONDS'' 25 = Inr s \<and> cf_HTTPTimeout cfg = wrap64 (s * second)) \<and>
    getEnvBool env ''DISABLE_MUTATIONS'' True = Inr (cf_DisableMutations cfg) \<and>
    cf_GitHubWriteToken cfg = TrimSpace (env ''GITHUB_WRITE_TOKEN'') \<and>
    cf_AuditLogPath cfg = getEnv env ''AUDIT_LOG_PATH'' ''var/audit-events.jsonl'' \<and>
    cf_Actor cfg = getEnv env ''ACTOR'' ''pipeline-mcp''"
  using assms unfolding Load_def
  by (auto simp: parsed_Inr Let_def split: sum.splits option.splits)

lemma defaults_in64: "in64 20971520" "in64 14" "in64 100"
  by (simp_all add: in64_def)

lemma Load_valid: "Load env = Inr cfg \<Longrightarrow> valid_config cfg"
  using Load_Inr [of env cfg]
  by (auto simp: valid_config_def validate_None getEnv_not_Nil dest: getEnvInt_in64 [OF _ defaults_in64(2)]
      getEnvInt_in64 [OF _ defaults_in64(3)] getEnvInt64_in64 [OF _ defaults_in64(1)])

text \<open>A configuration that \<open>Load\<close> returns is valid: the limits, the lookback and the timeout are
  positive 64-bit numbers, the API base URL is an http or https URL with a host, and mutations are disabled
  unless there is a write token.\<close>

theorem Load_valid_config:
  "pred_option valid_config (case Load env of Inl _ \<Rightarrow> None | Inr cfg \<Rightarrow> Some cfg)"
  by (auto simp: Load_valid split: sum.split)

lemma Load_mutations:
  "Load env = Inr cfg \<Longrightarrow> cf_DisableMutations cfg \<or>
    (ParseBool (TrimSpace (env ''DISABLE_MUTATIONS'')) = Inr False \<and> TrimSpace (env ''GITHUB_WRITE_TOKEN'') \<noteq> '''')"
  using Load_Inr [of env cfg] by (auto simp: validate_None getEnvBool_def Let_def split: if_splits)

text \<open>Mutations are opt-in: a loaded configuration enables them only if DISABLE_MUTATIONS is set to a false
  value and GITHUB_WRITE_TOKEN is not blank.\<close>

theorem Load_mutations_opt_in:
  "pred_option (\<lambda>cfg. cf_DisableMutations cfg \<or>
      (ParseBool (TrimSpace (env ''DISABLE_MUTATIONS'')) = Inr False \<and> TrimSpace (env ''GITHUB_WRITE_TOKEN'') \<noteq> ''''))
    (case Load env of Inl _ \<Rightarrow> None | Inr cfg \<Rightarrow> Some cfg)"
  by (simp split: sum.split) (metis Load_mutations)

definition default_config :: Config where
  "default_config = \<lparr>cf_ServerName = ''pipeline-mcp'', cf_Version = Version, cf_LogLevel = LevelInfo,
     cf_GitHubAPIBaseURL = ''https://api.github.com'', cf_GitHubReadToken = [], cf_GitHubWriteToken = [],
     cf_DisableMutations = True, cf_AuditLogPath = ''var/audit-events.jsonl'', cf_AuditSigningKey = [],
     cf_MetricsExportPath = [], cf_MaxLogBytes = 20971520, cf_DefaultLookbackDays = 14,
     cf_MaxHistoricalRuns = 100, cf_HTTPTimeout = 25 * second, cf_UserAgent = ''pipeline-mcp/'' @ Version,
     cf_Actor = ''pipeline-mcp''\<rparr>"

text \<open>With no variable set, the configuration loads, read-only and with the documented defaults.\<close>

theorem Load_defaults: "Load (\<lambda>_. []) = Inr default_config"
  by code_simp

text \<open>The timeout is multiplied in 64 bits: 18446744074 seconds pass the validation as 290448384 nanoseconds.\<close>

lemma Load_timeout_wraps:
  "(case Load (\<lambda>k. if k = ''HTTP_TIMEOUT_SECONDS'' then ''18446744074'' else []) of
      Inl _ \<Rightarrow> False | Inr cfg \<Rightarrow> cf_HTTPTimeout cfg = 290448384)"
  by code_simp

end
