(* ===== verification/Audit_Log.thy ===== *)
theory Audit_Log
  imports World Go_Crypto
begin

text \<open>
  internal/audit/store.go: the audit log, one JSON record per line, signed with HMAC-SHA256 if a key is
  configured. The theorems show that the log is append-only and private, that a record is one line
  whatever its fields hold, and what a failed append may leave behind. The mutex of the store makes
  \<open>Append\<close> atomic in the program; here it is one step.
\<close>

section \<open>The store\<close>

record JSONLStore =
  js_path :: string
  js_signingKey :: string

definition NewJSONLStore :: "string \<Rightarrow> string \<Rightarrow> JSONLStore" where
  "NewJSONLStore path signingKey = \<lparr>js_path = path, js_signingKey = signingKey\<rparr>"

text \<open>The signed text is the concatenation of the fields, without separators.\<close>

definition signed_text :: "AuditEvent \<Rightarrow> string" where
  "signed_text e =
     ae_EventID e @ ae_Tool e @ ae_Actor e @ ae_Repository e @ Itoa (ae_RunID e) @
     ae_Reason e @ ae_Scope e @ ae_Timestamp e @ ae_Outcome e"

definition signEvent :: "JSONLStore \<Rightarrow> AuditEvent \<Rightarrow> string" where
  "signEvent s e =
     (if js_signingKey s = [] then [] else hex_encode (hmac_sha256 (js_signingKey s) (signed_text e)))"

text \<open>\<open>json.Marshal(event)\<close>: the fields in the order of the struct, an empty signature left out.\<close>

definition json_key :: "string \<Rightarrow> string \<Rightarrow> string" where
  "json_key k v = json_string k @ '':'' @ v"

definition marshal_event :: "AuditEvent \<Rightarrow> string" where
  "marshal_event e =
     ''{'' @ join '',''
       ([json_key ''event_id'' (json_string (ae_EventID e)),
         json_key ''tool'' (json_string (ae_Tool e)),
         json_key ''actor'' (json_string (ae_Actor e)),
         json_key ''repository'' (json_string (ae_Repository e)),
         json_key ''run_id'' (Itoa (ae_RunID e)),
         json_key ''reason'' (json_string (ae_Reason e)),
         json_key ''scope'' (json_string (ae_Scope e)),
         json_key ''timestamp'' (json_string (ae_Timestamp e)),
         json_key ''outcome'' (json_string (ae_Outcome e))] @
        (if ae_Signature e = [] then [] else [json_key ''signature'' (json_string (ae_Signature e))])) @ ''}''"

definition newline :: string where "newline = [CHR 0x0A]"

definition private_mode :: nat where "private_mode = 384"
definition private_dir :: nat where "private_dir = 448"

definition lockAuditLogPath :: "env \<Rightarrow> string \<Rightarrow> unit result io" where
  "lockAuditLogPath E path = do {
     info \<leftarrow> os_Stat E path;
     (case info of
        Inl err \<Rightarrow>
          if errors_Is err ErrNotExist then ret (Inr ())
          else ret (Inl (wrap_in ''stat audit log'' err))
      | Inr Directory \<Rightarrow> ret (Inl (Errorf (''audit log path '' @ Quote path @ '' is a directory'')))
      | Inr (File mode _) \<Rightarrow>
          if mode = private_mode then ret (Inr ())
          else do {
            r \<leftarrow> os_Chmod E path private_mode;
            ret (case r of Inl err \<Rightarrow> Inl (wrap_in ''chmod audit log before append'' err) | Inr _ \<Rightarrow> Inr ())
          })
   }"

text \<open>\<open>if err := m; err != nil { return fmt.Errorf("what: %w", err) }\<close>\<close>

definition checked :: "string \<Rightarrow> unit result io \<Rightarrow> unit result io \<Rightarrow> unit result io" where
  "checked what m rest = do {
     r \<leftarrow> m;
     (case r of Inl err \<Rightarrow> ret (Inl (wrap_in what err)) | Inr _ \<Rightarrow> rest)
   }"

definition make_dir :: "env \<Rightarrow> string \<Rightarrow> unit result io" where
  "make_dir E path =
     (let dir = Dir path in
      if dir \<noteq> ''.'' \<and> dir \<noteq> '''' then os_MkdirAll E dir private_dir else ret (Inr ()))"

definition with_signature :: "JSONLStore \<Rightarrow> AuditEvent \<Rightarrow> AuditEvent" where
  "with_signature s e = (if ae_Signature e = '''' then e\<lparr>ae_Signature := signEvent s e\<rparr> else e)"

definition audit_line :: "JSONLStore \<Rightarrow> AuditEvent \<Rightarrow> string" where
  "audit_line s e = marshal_event (with_signature s e) @ newline"

definition Append :: "env \<Rightarrow> JSONLStore \<Rightarrow> AuditEvent \<Rightarrow> unit result io" where
  "Append E s event =
     checked ''create audit dir'' (make_dir E (js_path s))
       (and_then (lockAuditLogPath E (js_path s)) (\<lambda>_.
          checked ''open audit log'' (os_OpenAppend E (js_path s) private_mode)
            (checked ''chmod audit log'' (os_Chmod E (js_path s) private_mode)
              (checked ''write audit event'' (file_Write E (js_path s) (audit_line s event))
                (ret (Inr ()))))))"

section \<open>A record is one line\<close>

lemma hex_byte_visible: "c \<in> set (hex_byte b) \<Longrightarrow> 48 \<le> byte c"
proof -
  assume "c \<in> set (hex_byte b)"
  moreover have "byte b div 16 < 16" using byte_less [of b] by (simp add: less_mult_imp_div_less)
  moreover have "byte b mod 16 < 16" by simp
  ultimately show ?thesis by (auto simp: hex_byte_def hex_digit_def)
qed

lemma json_byte_visible: "x \<in> set (json_byte c) \<Longrightarrow> 32 \<le> byte x"
  by (auto simp: json_byte_def u_escape_def backslash_def dquote_def dest: hex_byte_visible split: if_splits)

lemma json_escape_visible: "x \<in> set (json_escape s) \<Longrightarrow> 32 \<le> byte x"
proof (induction s rule: json_escape.induct)
  case (2 c s)
  let ?n = "rune_len (c # s)"
  have "128 \<le> byte x" if "x \<in> set (take ?n (c # s))" "2 \<le> ?n"
    using rune_len_high [OF that(2,1)] .
  with 2 show ?case
    by (auto simp: Let_def backslash_def dest: json_byte_visible split: if_splits)
qed simp

lemma json_string_visible: "x \<in> set (json_string s) \<Longrightarrow> 32 \<le> byte x"
  by (auto simp: json_string_def dquote_def dest: json_escape_visible)

lemma Itoa_visible: "x \<in> set (Itoa i) \<Longrightarrow> 32 \<le> byte x"
  by (auto simp: is_digit_def dest!: Itoa_chars)

lemma json_key_visible: "x \<in> set (json_key k v) \<Longrightarrow> \<forall>y \<in> set v. 32 \<le> byte y \<Longrightarrow> 32 \<le> byte x"
  by (auto simp: json_key_def dest: json_string_visible)

lemma set_join: "set (join sep xs) \<subseteq> set sep \<union> \<Union> (set ` set xs)"
  by (induction sep xs rule: join.induct) auto

lemma marshal_event_visible: "x \<in> set (marshal_event e) \<Longrightarrow> 32 \<le> byte x"
proof -
  assume "x \<in> set (marshal_event e)"
  then consider "x \<in> set ''{},''"
    | k s where "x \<in> set (json_key k (json_string s))" | "x \<in> set (json_key ''run_id'' (Itoa (ae_RunID e)))"
    unfolding marshal_event_def by (auto dest!: subsetD [OF set_join] split: if_splits)
  then show ?thesis
    by cases (auto dest: json_key_visible json_string_visible Itoa_visible)
qed

lemma newline_not_in_record: "CHR 0x0A \<notin> set (marshal_event e)"
  using marshal_event_visible [of "CHR 0x0A" e] by auto

text \<open>Whatever its fields hold, an event is written as one line: the text has a newline at its end
  and nowhere else, so appended records never run into each other or split.\<close>

theorem audit_line_is_one_line:
  "\<exists>record. audit_line s e = record @ newline \<and> CHR 0x0A \<notin> set record \<and> record \<noteq> []"
  using newline_not_in_record by (auto simp: audit_line_def marshal_event_def)

section \<open>Signatures\<close>

text \<open>Without a key an event is signed with the empty string, which leaves the field out of the record;
  with a key, with 64 lower-case hexadecimal digits. A signature that is already there is kept.\<close>

theorem with_signature_form:
  "let sig = ae_Signature (with_signature s e) in
   if ae_Signature e \<noteq> [] then sig = ae_Signature e
   else if js_signingKey s = [] then sig = []
   else length sig = 64 \<and> list_all is_lower_hex sig"
  by (simp add: with_signature_def signEvent_def hex_encode_lower)

text \<open>The signature does not separate the fields: an event in which the end of one field is moved to the
  beginning of the next has the same signature under every key, so the signature alone does not tell
  whether, say, actor and repository were shifted against each other.\<close>

theorem signature_ambiguous:
  "signEvent s (e\<lparr>ae_Actor := a @ b, ae_Repository := c\<rparr>) =
   signEvent s (e\<lparr>ae_Actor := a, ae_Repository := b @ c\<rparr>)"
  by (simp add: signEvent_def signed_text_def)

section \<open>The log\<close>

definition log_content :: "string \<Rightarrow> world \<Rightarrow> string" where
  "log_content p w = (case w_fs w p of Some (File _ c) \<Rightarrow> c | _ \<Rightarrow> [])"

text \<open>The contents of \<open>p\<close> stay, and so does every other file; missing directories may be made.\<close>

definition same_content :: "string \<Rightarrow> world \<Rightarrow> world \<Rightarrow> bool" where
  "same_content p w w' \<longleftrightarrow>
     log_content p w' = log_content p w \<and> w_metrics w' = w_metrics w \<and>
     (\<forall>q. q \<noteq> p \<longrightarrow> w_fs w' q = w_fs w q \<or> (w_fs w q = None \<and> w_fs w' q = Some Directory))"

interpretation same_content: effect "same_content p" for p
proof
  show "same_content p w w" for w by (simp add: same_content_def)
  show "same_content p u w" if "same_content p u v" "same_content p v w" for u v w
    using that by (auto simp: same_content_def) (metis option.distinct(1))+
qed

lemma os_Stat_same: "moves (same_content p) (os_Stat E q)"
  by (simp add: moves_def same_content_def os_Stat_def log_content_def)

lemma os_MkdirAll_same: "moves (same_content p) (os_MkdirAll E d m)"
  by (auto simp: moves_def same_content_def os_MkdirAll_def log_content_def mkdirs_def
      split: option.splits prod.splits node.splits)

lemma os_Chmod_same: "moves (same_content p) (os_Chmod E p m)"
  by (auto simp: moves_def same_content_def os_Chmod_def log_content_def
      split: option.splits prod.splits node.splits)

lemma os_OpenAppend_same: "moves (same_content p) (os_OpenAppend E p m)"
  by (auto simp: moves_def same_content_def os_OpenAppend_def open_with_def log_content_def
      split: option.splits prod.splits node.splits)

lemma make_dir_same: "moves (same_content p) (make_dir E q)"
  unfolding make_dir_def by (intro same_content.rules os_MkdirAll_same)

lemma lock_same: "moves (same_content p) (lockAuditLogPath E p)"
  unfolding lockAuditLogPath_def
  by (intro same_content.rules os_Stat_same) (auto intro!: same_content.rules os_Chmod_same split: node.split)

lemma checked_simps:
  "val (checked what m rest) w = (case val m w of Inl e \<Rightarrow> Inl (wrap_in what e) | Inr _ \<Rightarrow> val rest (after m w))"
  "after (checked what m rest) w = (case val m w of Inl e \<Rightarrow> after m w | Inr _ \<Rightarrow> after rest (after m w))"
  by (simp_all add: checked_def split: sum.split)

text \<open>What the steps leave when they succeed.\<close>

lemma os_OpenAppend_Inr:
  "val (os_OpenAppend E p m) w = Inr u \<Longrightarrow> \<exists>mode. w_fs (after (os_OpenAppend E p m) w) p = Some (File mode (log_content p w))"
  by (auto simp: os_OpenAppend_def open_with_def log_content_def split: option.splits prod.splits if_splits node.splits)

lemma os_Chmod_Inr:
  "val (os_Chmod E p m) w = Inr u \<Longrightarrow> w_fs w p = Some (File m' c) \<Longrightarrow>
   w_fs (after (os_Chmod E p m) w) p = Some (File m c)"
  by (auto simp: os_Chmod_def split: option.splits prod.splits)

lemma file_Write_Inr:
  "val (file_Write E p s) w = Inr u \<Longrightarrow> w_fs w p = Some (File m c) \<Longrightarrow>
   w_fs (after (file_Write E p s) w) p = Some (File m (c @ s))"
  by (auto simp: file_Write_def split: option.splits prod.splits)

lemma file_Write_content:
  "\<exists>k. log_content p (after (file_Write E p s) w) = log_content p w @ take k s"
  by (auto simp: file_Write_def log_content_def split: option.splits prod.splits node.splits)
     (metis order_refl take_all)

lemma file_Write_other:
  "w_metrics (after (file_Write E p s) w) = w_metrics w \<and> (\<forall>q. q \<noteq> p \<longrightarrow> w_fs (after (file_Write E p s) w) q = w_fs w q)"
  by (auto simp: file_Write_def split: option.splits prod.splits node.splits)

lemma Append_content:
  "\<exists>k. same_content (js_path s) w (after (Append E s e) w) \<or>
       (log_content (js_path s) (after (Append E s e) w) = log_content (js_path s) w @ take k (audit_line s e) \<and>
        w_metrics (after (Append E s e) w) = w_metrics w \<and>
        (\<forall>q. q \<noteq> js_path s \<longrightarrow> w_fs (after (Append E s e) w) q = w_fs w q \<or>
           (w_fs w q = None \<and> w_fs (after (Append E s e) w) q = Some Directory)))"
proof -
  let ?p = "js_path s" and ?l = "audit_line s e"
  let ?w1 = "after (make_dir E ?p) w"
  let ?w2 = "after (lockAuditLogPath E ?p) ?w1"
  let ?w3 = "after (os_OpenAppend E ?p private_mode) ?w2"
  let ?w4 = "after (os_Chmod E ?p private_mode) ?w3"
  have 1: "same_content ?p w ?w1" by (rule movesD [OF make_dir_same])
  have 2: "same_content ?p w ?w2" by (rule same_content.trans [OF 1 movesD [OF lock_same]])
  have 3: "same_content ?p w ?w3" by (rule same_content.trans [OF 2 movesD [OF os_OpenAppend_same]])
  have 4: "same_content ?p w ?w4" by (rule same_content.trans [OF 3 movesD [OF os_Chmod_same]])
  obtain k where k: "log_content ?p (after (file_Write E ?p ?l) ?w4) = log_content ?p ?w4 @ take k ?l"
    using file_Write_content by blast
  show ?thesis
  proof (rule exI [of _ k])
    have "after (Append E s e) w \<in> {?w1, ?w2, ?w3, ?w4, after (file_Write E ?p ?l) ?w4}"
      by (simp add: Append_def checked_simps and_then_simps split: sum.split)
    then consider "after (Append E s e) w \<in> {?w1, ?w2, ?w3, ?w4}"
      | "after (Append E s e) w = after (file_Write E ?p ?l) ?w4" by blast
    then show "same_content ?p w (after (Append E s e) w) \<or>
       (log_content ?p (after (Append E s e) w) = log_content ?p w @ take k ?l \<and>
        w_metrics (after (Append E s e) w) = w_metrics w \<and>
        (\<forall>q. q \<noteq> ?p \<longrightarrow> w_fs (after (Append E s e) w) q = w_fs w q \<or>
           (w_fs w q = None \<and> w_fs (after (Append E s e) w) q = Some Directory)))"
    proof cases
      case 1
      with \<open>same_content ?p w ?w1\<close> 2 3 4 show ?thesis by auto
    next
      case 2
      with 4 k file_Write_other [of E ?p ?l ?w4] show ?thesis
        by (auto simp: same_content_def)
    qed
  qed
qed

lemma Append_Inr:
  assumes "val (Append E s e) w = Inr u"
  shows "w_fs (after (Append E s e) w) (js_path s) =
    Some (File private_mode (log_content (js_path s) w @ audit_line s e))"
proof -
  let ?p = "js_path s" and ?l = "audit_line s e"
  let ?w1 = "after (make_dir E ?p) w"
  let ?w2 = "after (lockAuditLogPath E ?p) ?w1"
  let ?w3 = "after (os_OpenAppend E ?p private_mode) ?w2"
  let ?w4 = "after (os_Chmod E ?p private_mode) ?w3"
  have "same_content ?p w ?w2"
    by (rule same_content.trans [OF movesD [OF make_dir_same] movesD [OF lock_same]])
  then have c: "log_content ?p ?w2 = log_content ?p w" by (simp add: same_content_def)
  from assms obtain u3 u4 u5 where v: "val (os_OpenAppend E ?p private_mode) ?w2 = Inr u3"
      "val (os_Chmod E ?p private_mode) ?w3 = Inr u4" "val (file_Write E ?p ?l) ?w4 = Inr u5"
    and a: "after (Append E s e) w = after (file_Write E ?p ?l) ?w4"
    by (auto simp: Append_def checked_simps and_then_simps split: sum.splits)
  from os_OpenAppend_Inr [OF v(1)] obtain mode where "w_fs ?w3 ?p = Some (File mode (log_content ?p w))"
    unfolding c by blast
  from file_Write_Inr [OF v(3) os_Chmod_Inr [OF v(2) this]] show ?thesis
    unfolding a .
qed

lemma Append_outcome:
  "case val (Append E s e) w of
     Inr _ \<Rightarrow> w_fs (after (Append E s e) w) (js_path s) =
       Some (File private_mode (log_content (js_path s) w @ audit_line s e))
   | Inl _ \<Rightarrow> \<exists>k. log_content (js_path s) (after (Append E s e) w) =
       log_content (js_path s) w @ take k (audit_line s e)"
proof (cases "val (Append E s e) w")
  case (Inl err)
  obtain k where "same_content (js_path s) w (after (Append E s e) w) \<or>
      log_content (js_path s) (after (Append E s e) w) = log_content (js_path s) w @ take k (audit_line s e)"
    using Append_content [of s w E e] by blast
  then have "\<exists>k. log_content (js_path s) (after (Append E s e) w) = log_content (js_path s) w @ take k (audit_line s e)"
  proof
    assume "same_content (js_path s) w (after (Append E s e) w)"
    then show ?thesis by (intro exI [of _ 0]) (simp add: same_content_def)
  qed blast
  with Inl show ?thesis by simp
next
  case (Inr u)
  with Append_Inr [OF this] show ?thesis by simp
qed

text \<open>C19. Appending an event that succeeds leaves the log with mode 0600 and its old contents followed by the
  event's line. One that fails leaves the old contents followed by at most a part of the line: what the
  log held before is never changed or lost.\<close>

theorem Append_spec:
  "case val (Append E s e) w of
     Inr _ \<Rightarrow> w_fs (after (Append E s e) w) (js_path s) =
       Some (File private_mode (log_content (js_path s) w @ audit_line s e))
   | Inl _ \<Rightarrow> \<exists>k. log_content (js_path s) (after (Append E s e) w) =
       log_content (js_path s) w @ take k (audit_line s e)"
  by (rule Append_outcome)

section \<open>The contract of a store\<close>

text \<open>
  What the service relies on: an append that succeeds puts the record behind the others, one that fails
  loses none of them; no other file is changed, and the counters are not touched.
\<close>

text \<open>A sequence of appends, which stops at the first error.\<close>

fun append_all :: "(AuditEvent \<Rightarrow> unit result io) \<Rightarrow> AuditEvent list \<Rightarrow> unit result io" where
  "append_all f [] = ret (Inr ())"
| "append_all f (e # es) = and_then (f e) (\<lambda>_. append_all f es)"

locale audit_store =
  fixes append_event :: "AuditEvent \<Rightarrow> unit result io"
    and content :: "world \<Rightarrow> string"
    and record_of :: "AuditEvent \<Rightarrow> string"
  assumes appended: "val (append_event e) w = Inr u \<Longrightarrow>
      content (after (append_event e) w) = content w @ record_of e @ newline"
    and kept: "prefix (content w) (content (after (append_event e) w))"
    and one_line: "CHR 0x0A \<notin> set (record_of e)"
    and metrics_kept: "w_metrics (after (append_event e) w) = w_metrics w"
begin

lemma append_all_Inr:
  "val (append_all append_event es) w = Inr u \<Longrightarrow>
   content (after (append_all append_event es) w) = content w @ concat (map (\<lambda>e. record_of e @ newline) es)"
  by (induction es arbitrary: w) (auto simp: and_then_simps appended split: sum.splits)

lemma append_all_kept: "prefix (content w) (content (after (append_all append_event es) w))"
proof (induction es arbitrary: w)
  case (Cons e es)
  show ?case
    using kept [of w e] Cons [of "after (append_event e) w"]
    by (auto simp: and_then_simps split: sum.split intro: prefix_order.trans)
qed simp

lemma split_records: "split_on (CHR 0x0A) (concat (map (\<lambda>e. record_of e @ newline) es)) = map record_of es @ [[]]"
  by (induction es) (simp_all add: newline_def one_line)

text \<open>The log of a sequence of appends reads back as the sequence of records.\<close>

lemma records_read_back:
  "val (append_all append_event es) w = Inr u \<Longrightarrow> content w = [] \<Longrightarrow>
   split_on (CHR 0x0A) (content (after (append_all append_event es) w)) = map record_of es @ [[]]"
  by (simp add: append_all_Inr split_records)

end

lemma log_content_File: "w_fs w p = Some (File m c) \<Longrightarrow> log_content p w = c"
  by (simp add: log_content_def)

lemma Append_kept: "prefix (log_content (js_path s) w) (log_content (js_path s) (after (Append E s e) w))"
  using Append_content [of s w E e] by (auto simp: same_content_def)

interpretation jsonl: audit_store "Append E s" "log_content (js_path s)" "\<lambda>e. marshal_event (with_signature s e)" for E s
proof
  show "val (Append E s e) w = Inr u \<Longrightarrow>
      log_content (js_path s) (after (Append E s e) w) =
      log_content (js_path s) w @ marshal_event (with_signature s e) @ newline" for e w u
    using log_content_File [OF Append_Inr] by (simp add: audit_line_def)
  show "prefix (log_content (js_path s) w) (log_content (js_path s) (after (Append E s e) w))" for w e
    by (rule Append_kept)
  show "CHR 0x0A \<notin> set (marshal_event (with_signature s e))" for e by (rule newline_not_in_record)
  show "w_metrics (after (Append E s e) w) = w_metrics w" for e w
    using Append_content [of s w E e] by (auto simp: same_content_def)
qed

text \<open>C17. A sequence of appends that succeed adds to the log a text whose lines are the records of the
  events, in their order, each once. One that fails keeps what the log held.\<close>

theorem log_reads_back:
  "case val (append_all (Append E s) es) w of
     Inl _ \<Rightarrow> prefix (log_content (js_path s) w) (log_content (js_path s) (after (append_all (Append E s) es) w))
   | Inr _ \<Rightarrow> \<exists>added. log_content (js_path s) (after (append_all (Append E s) es) w) = log_content (js_path s) w @ added \<and>
       split_on (CHR 0x0A) added = map (\<lambda>e. marshal_event (with_signature s e)) es @ [[]]"
  using jsonl.append_all_kept jsonl.append_all_Inr jsonl.split_records by (auto split: sum.split)

section \<open>A log that can be written\<close>

text \<open>
  Where nothing keeps the log from being written: no call to the operating system fails, the path is no
  directory and not one of those that are made for it, and no file is in their way.
\<close>

definition appendable :: "world \<Rightarrow> string \<Rightarrow> bool" where
  "appendable w p \<longleftrightarrow> w_fs w p \<noteq> Some Directory \<and> p \<notin> set (path_chain (Dir p)) \<and>
     \<not> list_ex (\<lambda>q. is_file (w_fs w q)) (path_chain (Dir p))"

lemma path_chain_self: "d \<notin> {'''', ''.'', ''/''} \<Longrightarrow> d \<in> set (path_chain d)"
proof -
  let ?n = "length (split_on (CHR ''/'') d)"
  have "join ''/'' (take ?n (split_on (CHR ''/'') d)) = d" by simp
  moreover have "?n \<in> set [1..<Suc ?n]" by (cases "split_on (CHR ''/'') d") (auto simp: split_on_not_Nil)
  ultimately have "d \<in> set (map (\<lambda>n. join ''/'' (take n (split_on (CHR ''/'') d))) [1..<Suc ?n])"
    unfolding set_map by (metis imageI)
  then show "d \<notin> {'''', ''.'', ''/''} \<Longrightarrow> d \<in> set (path_chain d)" by (simp add: path_chain_def)
qed

lemma make_dir_succeeds:
  assumes "\<And>tr c. e_os E tr c = None" "appendable w p"
  shows "val (make_dir E p) w = Inr ()" "dir_exists (w_fs (after (make_dir E p) w)) (Dir p)"
    "w_fs (after (make_dir E p) w) p = w_fs w p"
proof -
  have free: "\<not> list_ex (\<lambda>q. is_file (w_fs w q)) (path_chain (Dir p))" using assms(2) by (simp add: appendable_def)
  then have mk: "val (os_MkdirAll E (Dir p) private_dir) w = Inr ()"
    "w_fs (after (os_MkdirAll E (Dir p) private_dir) w) = mkdirs (path_chain (Dir p)) (w_fs w)"
    by (simp_all add: os_MkdirAll_def assms(1))
  then show "val (make_dir E p) w = Inr ()" by (simp add: make_dir_def Let_def)
  have "mkdirs (path_chain (Dir p)) (w_fs w) (Dir p) = Some Directory" if "Dir p \<notin> {'''', ''.'', ''/''}"
  proof -
    have "\<not> is_file (w_fs w (Dir p))" using free path_chain_self [OF that] by (auto simp: list_ex_iff)
    then have "w_fs w (Dir p) = None \<or> w_fs w (Dir p) = Some Directory"
      by (auto simp: is_file_def split: option.splits node.splits)
    then show ?thesis using path_chain_self [OF that] by (auto simp: mkdirs_def)
  qed
  then show "dir_exists (w_fs (after (make_dir E p) w)) (Dir p)"
    by (auto simp: make_dir_def Let_def dir_exists_def mk)
  have "mkdirs (path_chain (Dir p)) (w_fs w) p = w_fs w p" using assms(2) by (simp add: mkdirs_def appendable_def)
  then show "w_fs (after (make_dir E p) w) p = w_fs w p" by (simp add: make_dir_def Let_def mk)
qed

lemma Append_succeeds:
  assumes os: "\<And>tr c. e_os E tr c = None" and w: "appendable w (js_path s)"
  shows "val (Append E s e) w = Inr ()"
proof -
  let ?p = "js_path s"
  let ?w1 = "after (make_dir E ?p) w"
  let ?w2 = "after (lockAuditLogPath E ?p) ?w1"
  let ?w3 = "after (os_OpenAppend E ?p private_mode) ?w2"
  let ?w4 = "after (os_Chmod E ?p private_mode) ?w3"
  have d: "w_fs w ?p \<noteq> Some Directory" using w by (simp add: appendable_def)
  note mk = make_dir_succeeds [of E w ?p, OF os w]
  have lock: "val (lockAuditLogPath E ?p) ?w1 = Inr ()"
    using d mk(3) by (cases "w_fs w ?p") (auto simp: lockAuditLogPath_def os_Stat_def os_Chmod_def os no_such_file_def
        ErrNotExist_def split: node.splits)
  have f2: "w_fs ?w2 = (case w_fs w ?p of
       Some (File m c) \<Rightarrow> if m = private_mode then w_fs ?w1 else (w_fs ?w1)(?p \<mapsto> File private_mode c)
     | _ \<Rightarrow> w_fs ?w1)"
    using d mk(3) by (auto simp: lockAuditLogPath_def os_Stat_def os_Chmod_def os split: option.split node.split)
  have p2: "w_fs ?w2 ?p \<noteq> Some Directory" using d mk(3) by (auto simp: f2 split: option.split node.split)
  have "dir_exists (w_fs ?w1) (Dir ?p) \<Longrightarrow> Dir ?p \<noteq> ?p \<or> Dir ?p \<in> {''.'', ''/'', []}"
    using mk(3) d by (auto simp: dir_exists_def)
  then have dir2: "dir_exists (w_fs ?w2) (Dir ?p)"
    using mk(2) by (auto simp: dir_exists_def f2 split: option.split node.split)
  have op: "val (os_OpenAppend E ?p private_mode) ?w2 = Inr ()"
    using p2 dir2 by (simp add: os_OpenAppend_def open_with_def os)
  have "\<exists>m c. w_fs ?w3 ?p = Some (File m c)" using os_OpenAppend_Inr [OF op] by blast
  then obtain m c where f3: "w_fs ?w3 ?p = Some (File m c)" by blast
  have ch: "val (os_Chmod E ?p private_mode) ?w3 = Inr ()" using f3 by (simp add: os_Chmod_def os)
  have f4: "w_fs ?w4 ?p = Some (File private_mode c)" using os_Chmod_Inr [OF ch f3] .
  have "val (file_Write E ?p (audit_line s e)) ?w4 = Inr ()" using f4 by (simp add: file_Write_def os)
  then show ?thesis by (simp add: Append_def checked_simps and_then_simps mk(1) lock op ch)
qed

end
