(* ===== verification/Service.thy ===== *)
theory Service
  imports Deployment_Gates Flaky Performance Config Audit_Log
begin

text \<open>
  internal/service/service.go: the five operations behind the tools, over any registry of adapters and any
  audit store. A result is a \<open>ToolError\<close> or a value. The clock is \<open>now\<close> of the surroundings; log
  records are kept by level and message, without their attributes.
\<close>

section \<open>The service\<close>

record Service =
  sv_cfg :: Config
  sv_providers :: "Registry option"
  sv_audit :: "AuditEvent \<Rightarrow> unit result io"

definition New_Service :: "Config \<Rightarrow> Registry option \<Rightarrow> (AuditEvent \<Rightarrow> unit result io) \<Rightarrow> Service" where
  "New_Service cfg registry auditStore = \<lparr>sv_cfg = cfg, sv_providers = registry, sv_audit = auditStore\<rparr>"

lemma New_Service_simps [simp]:
  "sv_cfg (New_Service cfg registry auditStore) = cfg"
  "sv_providers (New_Service cfg registry auditStore) = registry"
  "sv_audit (New_Service cfg registry auditStore) = auditStore"
  by (simp_all add: New_Service_def)

record RunReference =
  ref_Provider :: string
  ref_RunURL :: string
  ref_RunID :: int
  ref_Repository :: string

type_synonym 'a outcome = "ToolError + 'a"

text \<open>\<open>if err != nil { return nil, provider.MapError(err) }\<close>\<close>

definition mapped :: "Adapter \<Rightarrow> 'a result io \<Rightarrow> 'a outcome io" where
  "mapped prov m = do { r \<leftarrow> m; ret (case r of Inl e \<Rightarrow> Inl (ad_MapError prov e) | Inr x \<Rightarrow> Inr x) }"

definition tool_error :: "string \<Rightarrow> string \<Rightarrow> (string \<times> detail) list \<Rightarrow> ToolError" where
  "tool_error message remediation details = NewToolError ErrorCodeInvalidInput message remediation False details"

section \<open>Resolving providers and runs\<close>

definition providerDetails :: "string \<Rightarrow> string list \<Rightarrow> (string \<times> detail) list list \<Rightarrow> (string \<times> detail) list" where
  "providerDetails selectedProvider supportedProviders extras =
     foldl (\<lambda>details (key, v). AList.update key v details)
       [(''provider'', DString selectedProvider), (''supported_providers'', DStrings supportedProviders)]
       (concat extras)"

definition repositoryRemediation :: "string \<Rightarrow> string" where
  "repositoryRemediation providerID =
     ''Provide a valid repository identifier for provider '' @ Quote providerID @ ''.''"

definition runURLRemediation :: "Service \<Rightarrow> string \<Rightarrow> string" where
  "runURLRemediation s providerID =
     (if providerID \<noteq> '''' then ''Provide a valid pipeline run URL for provider '' @ Quote providerID @ ''.''
      else ''Provide a valid pipeline run URL, or set provider explicitly. Supported providers: '' @
        join '', '' (ProviderIDs (sv_providers s)) @ ''.'')"

definition resolveProvider :: "Service \<Rightarrow> string \<Rightarrow> Adapter outcome" where
  "resolveProvider s providerID =
     (case Resolve (sv_providers s) providerID of
        Inl err \<Rightarrow> Inl (tool_error (Error err)
          (''Omit provider to use the default '' @ Quote (DefaultProviderID (sv_providers s)) @
           '', or choose one of: '' @ join '', '' (ProviderIDs (sv_providers s)) @ ''.'')
          (providerDetails (TrimSpace providerID) (ProviderIDs (sv_providers s)) []))
      | Inr a \<Rightarrow> Inr a)"

definition resolveProviderForRunURL :: "Service \<Rightarrow> string \<Rightarrow> string \<Rightarrow> (Adapter \<times> RunLocator) outcome" where
  "resolveProviderForRunURL s providerID runURL =
     (case ResolveRunURL (sv_providers s) providerID runURL of
        Inl err \<Rightarrow> Inl (tool_error (Error err) (runURLRemediation s (TrimSpace providerID))
          (providerDetails (TrimSpace providerID) (ProviderIDs (sv_providers s)) [[(''run_url'', DString runURL)]]))
      | Inr al \<Rightarrow> Inr al)"

text \<open>\<open>repository, err := provider.ParseRepository(repository)\<close> with the error the operations share.\<close>

definition parse_repository :: "Service \<Rightarrow> Adapter \<Rightarrow> string \<Rightarrow> string outcome" where
  "parse_repository s prov repository =
     (case ad_ParseRepository prov repository of
        Inl err \<Rightarrow> Inl (tool_error (Error err) (repositoryRemediation (ad_ProviderID prov))
          (providerDetails (ad_ProviderID prov) (ProviderIDs (sv_providers s)) []))
      | Inr r \<Rightarrow> Inr r)"

definition list_options :: ListRunsOptions where
  "list_options = \<lparr>lo_PerPage = 0, lo_Page = 0, lo_Created = '''', lo_Branch = '''', lo_Event = '''', lo_Status = ''''\<rparr>"

definition latest_locator :: "Adapter \<Rightarrow> string \<Rightarrow> Run \<Rightarrow> RunLocator" where
  "latest_locator prov repository run =
     (let runURL = TrimSpace (run_RunURL run);
          runURL = (if runURL = '''' then ad_RunURL prov repository (run_ID run) else runURL)
      in \<lparr>rl_Repository = repository, rl_RunID = run_ID run, rl_RunURL = runURL\<rparr>)"

definition resolveLatestFailedRun :: "Service \<Rightarrow> Adapter \<Rightarrow> string \<Rightarrow> RunLocator outcome io" where
  "resolveLatestFailedRun s prov repo =
     (case parse_repository s prov repo of
        Inl e \<Rightarrow> ret (Inl e)
      | Inr repository \<Rightarrow>
          and_then (mapped prov (ad_ListRepositoryRuns prov repository
              (list_options\<lparr>lo_PerPage := 1, lo_Status := ''failure''\<rparr>) 1)) (\<lambda>runs.
            (case runs of
               [] \<Rightarrow> ret (Inl (tool_error ''No failed workflow runs were found for this repository.''
                 (''Provide a specific run_url, or retry after a failed run exists for provider '' @
                  Quote (ad_ProviderID prov) @ ''.'')
                 (providerDetails (ad_ProviderID prov) (ProviderIDs (sv_providers s))
                    [[(''repository'', DString repository)]])))
             | run # _ \<Rightarrow> ret (Inr (latest_locator prov repository run)))))"

definition resolveRunReference :: "Service \<Rightarrow> RunReference \<Rightarrow> bool \<Rightarrow> (Adapter \<times> RunLocator) outcome io" where
  "resolveRunReference s r allowRepositoryOnly =
     (if TrimSpace (ref_RunURL r) \<noteq> '''' then
        ret (resolveProviderForRunURL s (ref_Provider r) (ref_RunURL r))
      else if ref_RunID r \<le> 0 then
        (if allowRepositoryOnly \<and> TrimSpace (ref_Repository r) \<noteq> '''' then
           (case resolveProvider s (ref_Provider r) of
              Inl e \<Rightarrow> ret (Inl e)
            | Inr prov \<Rightarrow>
                and_then (resolveLatestFailedRun s prov (ref_Repository r)) (\<lambda>l. ret (Inr (prov, l))))
         else ret (Inl (tool_error ''either run_url or run_id must be provided''
           ''Provide a run_url, or both run_id and repository, or repository alone to use the latest failed run.'' [])))
      else
        (case resolveProvider s (ref_Provider r) of
           Inl e \<Rightarrow> ret (Inl e)
         | Inr prov \<Rightarrow>
             (case ad_ParseRepository prov (ref_Repository r) of
                Inl err \<Rightarrow> ret (Inl (tool_error (Error err)
                  (''Provide a valid repository identifier when using run_id with provider '' @
                   Quote (ad_ProviderID prov) @ ''.'')
                  (providerDetails (ad_ProviderID prov) (ProviderIDs (sv_providers s)) [])))
              | Inr repository \<Rightarrow> ret (Inr (prov, \<lparr>rl_Repository = repository, rl_RunID = ref_RunID r,
                  rl_RunURL = ad_RunURL prov repository (ref_RunID r)\<rparr>)))))"

text \<open>Where a resolved run comes from.\<close>

lemma resolveLatestFailedRun_Inr:
  "val (resolveLatestFailedRun s prov repo) w = Inr l \<Longrightarrow> ad_ParseRepository prov repo = Inr (rl_Repository l)"
  by (auto simp: resolveLatestFailedRun_def parse_repository_def latest_locator_def Let_def and_then_simps
      split: sum.splits list.splits)

lemma resolveRunReference_cases:
  assumes "val (resolveRunReference s r b) w = Inr (prov, l)"
  obtains "TrimSpace (ref_RunURL r) \<noteq> ''''" "resolveProviderForRunURL s (ref_Provider r) (ref_RunURL r) = Inr (prov, l)"
  | "TrimSpace (ref_RunURL r) = ''''" "resolveProvider s (ref_Provider r) = Inr prov"
    "ad_ParseRepository prov (ref_Repository r) = Inr (rl_Repository l)"
    "0 < ref_RunID r \<Longrightarrow> rl_RunID l = ref_RunID r \<and> rl_RunURL l = ad_RunURL prov (rl_Repository l) (ref_RunID r)"
proof (cases "TrimSpace (ref_RunURL r) = ''''")
  case False
  with assms that(1) show thesis by (simp add: resolveRunReference_def)
next
  case url: True
  show thesis
  proof (cases "ref_RunID r \<le> 0")
    case True
    then show thesis
      using assms url that(2)
      by (auto simp: resolveRunReference_def and_then_simps split: if_splits sum.splits dest: resolveLatestFailedRun_Inr)
  next
    case False
    then show thesis
      using assms url that(2) by (auto simp: resolveRunReference_def split: sum.splits)
  qed
qed

section \<open>Runs\<close>

definition normalizeRun :: "string \<Rightarrow> Run \<Rightarrow> string \<Rightarrow> string \<Rightarrow> Job list \<Rightarrow> PipelineRun" where
  "normalizeRun providerID run repository resolvedRunURL jobs =
     (let workflow = (if TrimSpace (run_Name run) = '''' then run_DisplayTitle run else run_Name run);
          (startedAt, durationMS, queueMS) =
            (case run_RunStartedAt run of
               None \<Rightarrow> ('''', 0, 0)
             | Some s \<Rightarrow>
                 (FormatRFC3339 s,
                  if s < run_UpdatedAt run then Milliseconds (Sub (run_UpdatedAt run) s) else 0,
                  if run_CreatedAt run < s then Milliseconds (Sub s (run_CreatedAt run)) else 0));
          completedAt = (if run_CreatedAt run < run_UpdatedAt run then FormatRFC3339 (run_UpdatedAt run) else '''');
          status = (if TrimSpace (run_Conclusion run) \<noteq> '''' then run_Conclusion run else run_Status run);
          runURL = TrimSpace (run_RunURL run);
          runURL = (if runURL = '''' then TrimSpace resolvedRunURL else runURL);
          failureReason = (case find (\<lambda>job. EqualFold (job_Conclusion job) ''failure'') jobs of
            None \<Rightarrow> '''' | Some job \<Rightarrow> ''job failed: '' @ job_Name job)
      in \<lparr>pr_Provider = providerID, pr_Repository = repository, pr_Workflow = workflow, pr_Status = status,
          pr_StartedAt = startedAt, pr_CompletedAt = completedAt, pr_DurationMS = durationMS,
          pr_QueueTimeMS = queueMS, pr_RunURL = runURL, pr_CommitSHA = run_HeadSHA run,
          pr_RunID = run_ID run, pr_Conclusion = run_Conclusion run, pr_FailureReason = failureReason\<rparr>)"

definition filterByWorkflow :: "Run list \<Rightarrow> string \<Rightarrow> Run list" where
  "filterByWorkflow runs workflow0 =
     (let workflow = TrimSpace workflow0 in
      if workflow = '''' then runs
      else filter (\<lambda>run. EqualFold (run_Name run) workflow \<or> EqualFold (run_DisplayTitle run) workflow) runs)"

definition GetRun :: "env \<Rightarrow> Service \<Rightarrow> RunReference \<Rightarrow> PipelineRun outcome io" where
  "GetRun E s input =
     and_then (resolveRunReference s input True) (\<lambda>(prov, resolved).
     and_then (mapped prov (ad_GetRun prov (rl_Repository resolved) (rl_RunID resolved))) (\<lambda>run. do {
       r \<leftarrow> ad_ListRunJobs prov (rl_Repository resolved) (rl_RunID resolved);
       jobs \<leftarrow> (case r of
          Inl err \<Rightarrow> do { log_msg LevelWarn ''failed to fetch jobs for run''; ret [] }
        | Inr jobs \<Rightarrow> ret jobs);
       ret (Inr (normalizeRun (ad_ProviderID prov) run (rl_Repository resolved) (rl_RunURL resolved) jobs))
     }))"

section \<open>Diagnosing a failure\<close>

definition clamp_log_bytes :: "Config \<Rightarrow> int \<Rightarrow> int" where
  "clamp_log_bytes cfg maxLogBytes =
     (let m = (if maxLogBytes \<le> 0 then cf_MaxLogBytes cfg else maxLogBytes)
      in if cf_MaxLogBytes cfg < m then cf_MaxLogBytes cfg else m)"

definition logs_unavailable_error :: "RunLocator \<Rightarrow> ToolError" where
  "logs_unavailable_error resolved =
     NewToolError ErrorCodeLogUnavailable ''Workflow logs are unavailable for this run.''
       ''Confirm the run still exists and your token has actions:read access, then retry.'' True
       [(''repository'', DString (rl_Repository resolved)), (''run_id'', DInt (rl_RunID resolved))]"

definition download_logs :: "Adapter \<Rightarrow> RunLocator \<Rightarrow> int \<Rightarrow> string outcome io" where
  "download_logs prov resolved maxLogBytes = do {
     logs \<leftarrow> ad_DownloadRunLogs prov (rl_Repository resolved) (rl_RunID resolved) maxLogBytes;
     ret (case logs of
        Inl err \<Rightarrow>
          if ad_IsLogsUnavailable prov err then Inl (logs_unavailable_error resolved)
          else Inl (ad_MapError prov err)
      | Inr s \<Rightarrow> Inr s)
   }"

definition diagnose_logs :: "string \<Rightarrow> Job list \<Rightarrow> FailureDiagnostic \<times> FixRecommendation list" where
  "diagnose_logs logs jobs =
     (let (diagnostic, recommendations) = Diagnosis.DiagnoseFailure (RedactSecrets logs) jobs;
          diagnostic = (if fd_SuspectedRootCause diagnostic = ''''
            then diagnostic\<lparr>fd_SuspectedRootCause := ''Run failed but logs did not include a clear signature.''\<rparr>
            else diagnostic)
      in (diagnostic, recommendations))"

definition DiagnoseFailure :: "Service \<Rightarrow> RunReference \<Rightarrow> int \<Rightarrow> (FailureDiagnostic \<times> FixRecommendation list) outcome io" where
  "DiagnoseFailure s input maxLogBytes =
     and_then (resolveRunReference s input True) (\<lambda>(prov, resolved).
       let limit = clamp_log_bytes (sv_cfg s) maxLogBytes in
       and_then (mapped prov (ad_GetRun prov (rl_Repository resolved) (rl_RunID resolved))) (\<lambda>run.
       and_then (mapped prov (ad_ListRunJobs prov (rl_Repository resolved) (rl_RunID resolved))) (\<lambda>jobs. do {
         gate \<leftarrow> diagnoseMetadataFailure prov (rl_Repository resolved) jobs;
         (case gate of
            Some x \<Rightarrow> ret (Inr x)
          | None \<Rightarrow> and_then (download_logs prov resolved limit) (\<lambda>logs. ret (Inr (diagnose_logs logs jobs))))
       })))"

section \<open>Flaky tests and performance\<close>

definition clamp_lookback :: "Config \<Rightarrow> int \<Rightarrow> int" where
  "clamp_lookback cfg lookbackDays =
     (let d = (if lookbackDays \<le> 0 then cf_DefaultLookbackDays cfg else lookbackDays)
      in if 90 < d then 90 else d)"

definition created_range :: "gotime \<Rightarrow> gotime \<Rightarrow> string" where
  "created_range start stop = FormatRFC3339 start @ ''..'' @ FormatRFC3339 stop"

definition AnalyzeFlakyTests ::
  "env \<Rightarrow> Service \<Rightarrow> string \<Rightarrow> string \<Rightarrow> int \<Rightarrow> string \<Rightarrow> FlakyTestReport outcome io" where
  "AnalyzeFlakyTests E s providerID repo lookbackDays workflow =
     (case resolveProvider s providerID of
        Inl e \<Rightarrow> ret (Inl e)
      | Inr prov \<Rightarrow>
          (case parse_repository s prov repo of
             Inl e \<Rightarrow> ret (Inl e)
           | Inr repository \<Rightarrow>
               let lookback = clamp_lookback (sv_cfg s) lookbackDays in do {
                 stop \<leftarrow> now E;
                 let start = AddDays stop (- lookback);
                 and_then (mapped prov (ad_ListRepositoryRuns prov repository
                     (list_options\<lparr>lo_Created := created_range start stop\<rparr>) (cf_MaxHistoricalRuns (sv_cfg s)))) (\<lambda>runs. do {
                   report \<leftarrow> Flaky.AnalyzeFlakyTests E repository workflow lookback (filterByWorkflow runs workflow)
                     (Some (\<lambda>runID. ad_DownloadRunLogs prov repository runID (godiv (cf_MaxLogBytes (sv_cfg s)) 2))) stop;
                   ret (Inr report)
                 })
               }))"

definition ComparePerformance ::
  "Service \<Rightarrow> string \<Rightarrow> string \<Rightarrow> string \<Rightarrow> gotime \<Rightarrow> gotime \<Rightarrow> PipelinePerformanceSnapshot outcome io" where
  "ComparePerformance s providerID repo workflow start stop =
     (case resolveProvider s providerID of
        Inl e \<Rightarrow> ret (Inl e)
      | Inr prov \<Rightarrow>
          (case parse_repository s prov repo of
             Inl e \<Rightarrow> ret (Inl e)
           | Inr repository \<Rightarrow>
               if stop < start \<or> stop = start then
                 ret (Inl (tool_error ''to must be after from'' ''Provide a time range where to > from.'' []))
               else
                 let duration = Sub stop start;
                     baselineFrom = start + - duration;
                     baselineTo = start;
                     list = (\<lambda>range. mapped prov (ad_ListRepositoryRuns prov repository
                       (list_options\<lparr>lo_Created := range\<rparr>) (cf_MaxHistoricalRuns (sv_cfg s))))
                 in and_then (list (created_range start stop)) (\<lambda>currentRuns.
                    and_then (list (created_range baselineFrom baselineTo)) (\<lambda>baselineRuns.
                      ret (Inr (BuildPerformanceSnapshot repository workflow start stop
                        (filterByWorkflow currentRuns workflow) (filterByWorkflow baselineRuns workflow)))))))"

section \<open>Reruns\<close>

definition unix_epoch :: gotime where "unix_epoch = 62135596800 * second"

definition UnixNano :: "gotime \<Rightarrow> int" where "UnixNano t = wrap64 (t - unix_epoch)"

definition emitAudit :: "env \<Rightarrow> Service \<Rightarrow> string \<Rightarrow> int \<Rightarrow> string \<Rightarrow> string \<Rightarrow> string \<Rightarrow> unit result io" where
  "emitAudit E s repository runID reason scope outcome = do {
     t1 \<leftarrow> now E;
     t2 \<leftarrow> now E;
     sv_audit s \<lparr>ae_EventID = ''evt_'' @ Itoa (UnixNano t1) @ ''_'' @ Itoa runID, ae_Tool = ''pipeline.rerun'',
       ae_Actor = cf_Actor (sv_cfg s), ae_Repository = repository, ae_RunID = runID, ae_Reason = reason,
       ae_Scope = scope, ae_Timestamp = FormatRFC3339 t2, ae_Outcome = outcome, ae_Signature = ''''\<rparr>
   }"

definition rerun_scope :: "bool \<Rightarrow> string" where
  "rerun_scope failedJobsOnly = (if failedJobsOnly then ''failed_jobs_only'' else ''full_run'')"

text \<open>The checks before anything is sent, in the order of the code.\<close>

definition rerun_checks :: "Service \<Rightarrow> string \<Rightarrow> string \<Rightarrow> int \<Rightarrow> string \<Rightarrow> (Adapter \<times> string) outcome" where
  "rerun_checks s providerID repo runID reason =
     (case resolveProvider s providerID of
        Inl e \<Rightarrow> Inl e
      | Inr prov \<Rightarrow>
          if TrimSpace reason = '''' then
            Inl (tool_error ''reason is required'' ''Provide a short reason for auditability.'' [])
          else (case parse_repository s prov repo of
             Inl e \<Rightarrow> Inl e
           | Inr repository \<Rightarrow>
               if runID \<le> 0 then
                 Inl (tool_error ''run_id must be greater than zero''
                   (''Pass a valid run id for provider '' @ Quote (ad_ProviderID prov) @ ''.'') [])
               else if cf_DisableMutations (sv_cfg s) then
                 Inl (NewToolError ErrorCodeUnauthorized ''Mutation tools are disabled by configuration.''
                   ''Set DISABLE_MUTATIONS=false and provide GITHUB_WRITE_TOKEN with actions:write.'' False [])
               else Inr (prov, repository)))"

definition Rerun :: "env \<Rightarrow> Service \<Rightarrow> string \<Rightarrow> string \<Rightarrow> int \<Rightarrow> bool \<Rightarrow> string \<Rightarrow> RerunResult outcome io" where
  "Rerun E s providerID repo runID failedJobsOnly reason =
     (case rerun_checks s providerID repo runID reason of
        Inl e \<Rightarrow> ret (Inl e)
      | Inr (prov, repository) \<Rightarrow> do {
          let scope = rerun_scope failedJobsOnly;
          t \<leftarrow> now E;
          r \<leftarrow> ad_Rerun prov repository runID failedJobsOnly;
          (case r of
             Inl err \<Rightarrow> do {
               emitAudit E s repository runID reason scope ''failed'';
               ret (Inl (ad_MapError prov err))
             }
           | Inr _ \<Rightarrow> do {
               audited \<leftarrow> emitAudit E s repository runID reason scope ''success'';
               (case audited of
                  Inl _ \<Rightarrow> log_msg LevelError ''failed to persist audit event''
                | Inr _ \<Rightarrow> ret ());
               ret (Inr \<lparr>rr_RunID = runID, rr_Repository = repository, rr_Scope = scope, rr_Status = ''requested'',
                 rr_Reason = reason, rr_RequestedAt = FormatRFC3339 t, rr_Actor = cf_Actor (sv_cfg s)\<rparr>)
             })
        })"

section \<open>Dates\<close>

definition ParseDateTime :: "string \<Rightarrow> gotime result" where
  "ParseDateTime raw =
     (let value = TrimSpace raw in
      if value = '''' then Inl (Errorf ''timestamp is required'')
      else case ParseRFC3339 value of
        Some t \<Rightarrow> Inr t
      | None \<Rightarrow>
          (case ParseDateOnly value of
             Some t \<Rightarrow> Inr t
           | None \<Rightarrow> Inl (Errorf (''timestamp '' @ Quote value @ '' must be RFC3339 or YYYY-MM-DD''))))"

section \<open>What the operations do to the surroundings\<close>

text \<open>
  The contract of the service with its registry: every adapter that resolution can return keeps the effect
  \<open>R\<close> with its reads, and so do the clock and the log.
\<close>

locale read_service = effect R for R +
  fixes E :: env and s :: Service
  assumes clock: "moves R (now E)"
    and logs: "moves R (log_msg level msg)"
    and resolved: "Resolve (sv_providers s) p = Inr a \<Longrightarrow> provider R a"
    and resolved_url: "ResolveRunURL (sv_providers s) p u = Inr (a, l) \<Longrightarrow> provider R a"
begin

lemma mapped_moves: "moves R m \<Longrightarrow> moves R (mapped a m)"
  unfolding mapped_def by (intro rules)

lemma resolveProvider_provider: "resolveProvider s p = Inr a \<Longrightarrow> provider R a"
  by (auto simp: resolveProvider_def split: sum.splits intro: resolved)

lemma resolveLatestFailedRun_moves: "provider R a \<Longrightarrow> moves R (resolveLatestFailedRun s a repo)"
  unfolding resolveLatestFailedRun_def by (intro rules mapped_moves provider.reads)

lemma resolveRunReference_moves: "moves R (resolveRunReference s r b)"
  unfolding resolveRunReference_def
  by (intro rules resolveLatestFailedRun_moves) (rule resolveProvider_provider)

lemma resolveRunReference_provider:
  "val (resolveRunReference s r b) w = Inr (a, l) \<Longrightarrow> provider R a"
  by (auto simp: resolveRunReference_def resolveProviderForRunURL_def and_then_simps
      split: if_splits sum.splits intro: resolved_url resolveProvider_provider)

lemma GetRun_moves: "moves R (GetRun E s r)"
  unfolding GetRun_def
  by (intro and_then_val_moves resolveRunReference_moves prod_moves)
     (auto intro!: rules mapped_moves logs provider.reads dest!: resolveRunReference_provider)

lemma DiagnoseFailure_moves: "moves R (DiagnoseFailure s r n)"
  unfolding DiagnoseFailure_def download_logs_def
  by (intro and_then_val_moves resolveRunReference_moves prod_moves)
     (auto intro!: rules mapped_moves provider.reads provider.diagnoseMetadataFailure_moves
       dest!: resolveRunReference_provider)

lemma scan_runs_moves: "(\<And>i. moves R (f i)) \<Longrightarrow> moves R (scan_runs (Some f) runs agg k)"
  by (induction runs arbitrary: agg k) (auto intro!: rules)

lemma AnalyzeFlakyTests_moves: "moves R (AnalyzeFlakyTests E s p repo n wfl)"
  unfolding AnalyzeFlakyTests_def Flaky.AnalyzeFlakyTests_def range_keys_def
  by (intro rules mapped_moves clock scan_runs_moves provider.reads) (erule resolveProvider_provider)+

lemma ComparePerformance_moves: "moves R (ComparePerformance s p repo wfl start stop)"
  unfolding ComparePerformance_def Let_def
  by (intro rules mapped_moves provider.reads) (erule resolveProvider_provider)+

lemmas reads = GetRun_moves DiagnoseFailure_moves AnalyzeFlakyTests_moves ComparePerformance_moves

end

section \<open>Results\<close>

text \<open>Dates: the RFC 3339 text of any instant of the years 1 to 9999 is accepted by \<open>ParseDateTime\<close>, and read
  back as that instant without its fraction of a second, also with blanks around it.\<close>

theorem ParseDateTime_round_trip:
  assumes "0 \<le> t" "t < end_of_9999" "TrimSpace raw = FormatRFC3339 t"
  shows "ParseDateTime raw = Inr (t - t mod second)"
  using ParseRFC3339_Format [OF assms(1,2)] FormatRFC3339_visible(2) [of t]
  by (simp add: ParseDateTime_def assms(3))

theorem ParseDateTime_round_trip_witness:
  "ParseDateTime (FormatRFC3339 (63900000000 * second + 5)) = Inr (63900000000 * second)"
proof -
  have "ParseDateTime (FormatRFC3339 (63900000000 * second + 5)) =
      Inr ((63900000000 * second + 5) - (63900000000 * second + 5) mod second)"
    by (rule ParseDateTime_round_trip)
      (simp_all add: second_def end_of_9999_def day_ns_def TrimSpace_visible FormatRFC3339_visible)
  then show ?thesis by (simp add: second_def)
qed

lemma Rerun_refused:
  "cf_DisableMutations (sv_cfg s) \<or> TrimSpace reason = '''' \<or> i \<le> 0 \<Longrightarrow>
   \<exists>e. Rerun E s p repo i f reason = ret (Inl e)"
  by (auto simp: Rerun_def rerun_checks_def parse_repository_def Let_def split: sum.splits)


text \<open>C12. Diagnosing a run by its logs never quotes a GitHub token or an AWS key id: whatever provider, registry and
  limit, the evidence with source "run_logs" is free of them.\<close>

theorem DiagnoseFailure_log_evidence_token_free:
  "case val (DiagnoseFailure s r n) w of
     Inl _ \<Rightarrow> True
   | Inr (d, _) \<Rightarrow> list_all (\<lambda>e. token_free (ev_Snippet e)) (filter (\<lambda>e. ev_Source e = ''run_logs'') (fd_EvidenceRefs d))"
proof -
  define ok where "ok = (\<lambda>x. case x of Inl (_ :: ToolError) \<Rightarrow> True
    | Inr (d :: FailureDiagnostic, _ :: FixRecommendation list) \<Rightarrow>
        list_all (\<lambda>e. token_free (ev_Snippet e)) (filter (\<lambda>e. ev_Source e = ''run_logs'') (fd_EvidenceRefs d)))"
  have logs: "ok (Inr (diagnose_logs l jobs))" for l jobs
    using run_log_evidence [of _ "RedactSecrets l" jobs]
    by (auto simp: ok_def diagnose_logs_def list_all_iff Let_def split: prod.splits if_splits)
  have inl: "ok (Inl e)" for e by (simp add: ok_def)
  have gate: "ok (Inr x)" if "gate_explained prov repo job x" for prov repo job x
    using that by (auto simp: ok_def gate_explained_def explains_gate_def annotation_evidence_def list_all_iff)
  have search: "ok (Inr x)" if x: "val (diagnoseMetadataFailure prov repo jobs) v = Some x" for prov repo jobs v x
  proof -
    obtain job where "gate_explained prov repo job x"
      using diagnoseMetadataFailure_justified [where prov = prov and repository = repo and jobs = jobs and w = v]
        x by auto
    then show ?thesis by (rule gate)
  qed
  have "ok (val (DiagnoseFailure s r n) w)"
    using logs search inl
    by (auto simp: DiagnoseFailure_def and_then_simps Let_def split: sum.split option.split)
  then show ?thesis by (auto simp: ok_def split: sum.split)
qed

text \<open>The two views of a run agree: where a run has a start time, the duration and the queue time of
  \<open>normalizeRun\<close> are those of the performance metrics; both are never negative. Where it has none,
  \<open>normalizeRun\<close> reports zero for both.\<close>

theorem normalizeRun_times:
  "let p = normalizeRun prov run repository url jobs
   in 0 \<le> pr_DurationMS p \<and> 0 \<le> pr_QueueTimeMS p \<and>
      (case run_RunStartedAt run of
         None \<Rightarrow> pr_DurationMS p = 0 \<and> pr_QueueTimeMS p = 0 \<and> pr_StartedAt p = ''''
       | Some s \<Rightarrow> if IsZero s then True
           else pr_DurationMS p = runDurationMS run \<and> pr_QueueTimeMS p = queueTimeMS run)"
proof -
  have p: "pr_DurationMS (normalizeRun prov run repository url jobs) =
      (case run_RunStartedAt run of None \<Rightarrow> 0
       | Some s \<Rightarrow> if s < run_UpdatedAt run then Milliseconds (Sub (run_UpdatedAt run) s) else 0)"
    "pr_QueueTimeMS (normalizeRun prov run repository url jobs) =
      (case run_RunStartedAt run of None \<Rightarrow> 0
       | Some s \<Rightarrow> if run_CreatedAt run < s then Milliseconds (Sub s (run_CreatedAt run)) else 0)"
    "pr_StartedAt (normalizeRun prov run repository url jobs) =
      (case run_RunStartedAt run of None \<Rightarrow> '''' | Some s \<Rightarrow> FormatRFC3339 s)"
    by (simp_all add: normalizeRun_def Let_def split: option.split)
  have z: "Milliseconds (Sub t t) = 0" for t
    by (simp add: Milliseconds_def godiv_def Sub_def max_duration_def min_duration_def)
  show ?thesis
  proof (cases "run_RunStartedAt run")
    case (Some s)
    have "runDurationMS run = (if s < run_UpdatedAt run then Milliseconds (Sub (run_UpdatedAt run) s) else 0)"
      if "\<not> IsZero s" using that Some z by (auto simp: runDurationMS_def run_start_def Let_def not_less)
    moreover have "queueTimeMS run = (if run_CreatedAt run < s then Milliseconds (Sub s (run_CreatedAt run)) else 0)"
      if "\<not> IsZero s" using that Some z by (auto simp: queueTimeMS_def not_less)
    moreover have "0 \<le> Milliseconds (Sub t u)" if "u < t" for t u
      using Milliseconds_Sub_bounds [of u t] that by simp
    ultimately show ?thesis using Some by (simp add: Let_def p)
  qed (simp add: p)
qed

text \<open>With a loaded configuration, whatever a client asks for: at most the configured number of log bytes is read
  and at least one, the requested number if it is in that range; and the days looked back lie between 1 and
  90, the requested number if it does.\<close>

theorem requested_limits:
  "case Load env of
     Inl _ \<Rightarrow> True
   | Inr cfg \<Rightarrow>
       1 \<le> clamp_log_bytes cfg n \<and> clamp_log_bytes cfg n \<le> cf_MaxLogBytes cfg \<and>
       (if 1 \<le> n \<and> n \<le> cf_MaxLogBytes cfg then clamp_log_bytes cfg n = n else True) \<and>
       1 \<le> clamp_lookback cfg d \<and> clamp_lookback cfg d \<le> 90 \<and>
       (if 1 \<le> d \<and> d \<le> 90 then clamp_lookback cfg d = d else True)"
proof (cases "Load env")
  case (Inr cfg)
  then have "0 < cf_MaxLogBytes cfg" "0 < cf_DefaultLookbackDays cfg"
    by (auto simp: valid_config_def dest!: Load_valid)
  then show ?thesis by (simp add: Inr clamp_log_bytes_def clamp_lookback_def Let_def)
qed simp


end
