(* ===== verification/Telemetry.thy ===== *)
theory Telemetry
  imports World "HOL-Library.AList"
begin

text \<open>
  internal/telemetry/collector.go: the counters per tool and their export. The map of the collector is
  the association list \<open>w_metrics\<close>, with one entry per tool. The reference \<open>metric_of\<close> computes the
  counters from the list of all observations; the theorems show that \<open>Observe\<close> maintains it. The index of
  \<open>percentile95\<close> is computed in the code as \<open>int(float64(n-1) * 0.95)\<close>, which equals
  \<open>(n - 1) * 95 div 100\<close> for the at most 2000 latencies kept.
\<close>

section \<open>The collector\<close>

record Collector =
  col_exportPath :: string

record Snapshot =
  sn_GeneratedAt :: string
  sn_Tools :: "(string \<times> ToolMetric) list"

definition NewCollector :: "string \<Rightarrow> Collector" where
  "NewCollector exportPath = \<lparr>col_exportPath = exportPath\<rparr>"

definition new_metric :: ToolMetric where
  "new_metric = \<lparr>tm_Calls = 0, tm_Errors = 0, tm_P95LatencyMS = 0, tm_AverageLatencyMS = 0,
     tm_ConfidenceSamples = 0, tm_AverageConfidence = 0, tm_LastObservedAt = [], tm_latencies = [],
     tm_totalLatency = 0, tm_confidenceAggregate = 0\<rparr>"

definition percentile95 :: "int list \<Rightarrow> int" where
  "percentile95 values =
     (if values = [] then 0
      else
        let copyValues = stable_sort (<) values;
            idx = (int (length copyValues) - 1) * 95 div 100;
            idx = (if idx < 0 then 0 else idx);
            idx = (if int (length copyValues) \<le> idx then int (length copyValues) - 1 else idx)
        in copyValues ! nat idx)"

definition keep_last :: "int list \<Rightarrow> int list" where
  "keep_last xs = (if 2000 < length xs then drop (length xs - 2000) xs else xs)"

definition observe_confidence :: "float64 option \<Rightarrow> ToolMetric \<Rightarrow> ToolMetric" where
  "observe_confidence confidence m =
     (case confidence of
        None \<Rightarrow> m
      | Some x \<Rightarrow>
          let samples = wrap64 (tm_ConfidenceSamples m + 1); agg = tm_confidenceAggregate m + x
          in m\<lparr>tm_ConfidenceSamples := samples, tm_confidenceAggregate := agg,
               tm_AverageConfidence := agg / of_int samples\<rparr>)"

text \<open>The body of \<open>Observe\<close>, on the metric of the tool.\<close>

definition observe_metric :: "ToolMetric \<Rightarrow> int \<Rightarrow> bool \<Rightarrow> float64 option \<Rightarrow> string \<Rightarrow> ToolMetric" where
  "observe_metric m latencyMS success confidence stamp =
     (let m = m\<lparr>tm_Calls := wrap64 (tm_Calls m + 1)\<rparr>;
          m = (if success then m else m\<lparr>tm_Errors := wrap64 (tm_Errors m + 1)\<rparr>);
          m = m\<lparr>tm_totalLatency := wrap64 (tm_totalLatency m + latencyMS),
                tm_latencies := keep_last (tm_latencies m @ [latencyMS])\<rparr>;
          m = observe_confidence confidence m
      in m\<lparr>tm_LastObservedAt := stamp,
           tm_AverageLatencyMS := godiv (tm_totalLatency m) (tm_Calls m),
           tm_P95LatencyMS := percentile95 (tm_latencies m)\<rparr>)"

definition clear_private :: "ToolMetric \<Rightarrow> ToolMetric" where
  "clear_private m = m\<lparr>tm_latencies := [], tm_totalLatency := 0, tm_confidenceAggregate := 0\<rparr>"

definition take_snapshot :: "string \<Rightarrow> (string \<times> ToolMetric) list \<Rightarrow> Snapshot" where
  "take_snapshot stamp byTool = \<lparr>sn_GeneratedAt = stamp, sn_Tools = map (\<lambda>(n, m). (n, clear_private m)) byTool\<rparr>"

definition TakeSnapshot :: "env \<Rightarrow> Snapshot io" where
  "TakeSnapshot E = do {
     t \<leftarrow> now E;
     w \<leftarrow> State_Monad.get;
     ret (take_snapshot (FormatRFC3339 t) (w_metrics w))
   }"

section \<open>Export\<close>

text \<open>\<open>json.MarshalIndent(snapshot, "", "  ")\<close>: the tools are sorted by name.\<close>

definition nl_indent :: "nat \<Rightarrow> string" where
  "nl_indent n = [CHR 0x0A] @ replicate (2 * n) (CHR '' '')"

definition indented :: "nat \<Rightarrow> (string \<times> string) list \<Rightarrow> string" where
  "indented n kvs =
     (if kvs = [] then ''{}''
      else ''{'' @ join '','' (map (\<lambda>(k, v). nl_indent (n + 1) @ json_string k @ '': '' @ v) kvs) @
        nl_indent n @ ''}'')"

definition marshal_metric :: "env \<Rightarrow> ToolMetric \<Rightarrow> string" where
  "marshal_metric E m = indented 2
     [(''calls'', Itoa (tm_Calls m)), (''errors'', Itoa (tm_Errors m)),
      (''p95_latency_ms'', Itoa (tm_P95LatencyMS m)),
      (''average_latency_ms'', Itoa (tm_AverageLatencyMS m)),
      (''confidence_samples'', Itoa (tm_ConfidenceSamples m)),
      (''average_confidence'', e_float E (tm_AverageConfidence m)),
      (''last_observed_at'', json_string (tm_LastObservedAt m))]"

definition marshal_snapshot :: "env \<Rightarrow> Snapshot \<Rightarrow> string" where
  "marshal_snapshot E s = indented 0
     [(''generated_at'', json_string (sn_GeneratedAt s)),
      (''tools'', indented 1 (map (\<lambda>(n, m). (n, marshal_metric E m))
         (stable_sort (\<lambda>a b. fst a < fst b) (sn_Tools s))))]"

definition public_dir :: nat where "public_dir = 493"

definition write_snapshot :: "env \<Rightarrow> Collector \<Rightarrow> unit result io" where
  "write_snapshot E c =
     and_then (os_Create E (col_exportPath c)) (\<lambda>_. do {
       t \<leftarrow> now E;
       w \<leftarrow> State_Monad.get;
       file_Write E (col_exportPath c) (marshal_snapshot E (take_snapshot (FormatRFC3339 t) (w_metrics w)))
     })"

definition writeSnapshotLocked :: "env \<Rightarrow> Collector \<Rightarrow> unit result io" where
  "writeSnapshotLocked E c = do {
     let dir = Dir (col_exportPath c);
     r \<leftarrow> (if dir \<noteq> ''.'' \<and> dir \<noteq> '''' then os_MkdirAll E dir public_dir else ret (Inr ()));
     (case r of
        Inl err \<Rightarrow> ret (Inl (wrap_in ''create metrics dir'' err))
      | Inr _ \<Rightarrow> write_snapshot E c)
   }"

definition lookup_metric :: "string \<Rightarrow> (string \<times> ToolMetric) list \<Rightarrow> ToolMetric" where
  "lookup_metric tool byTool = (case map_of byTool tool of None \<Rightarrow> new_metric | Some m \<Rightarrow> m)"

definition update_metric :: "string \<Rightarrow> (ToolMetric \<Rightarrow> ToolMetric) \<Rightarrow> unit io" where
  "update_metric tool f =
     State (\<lambda>w. ((), w\<lparr>w_metrics := AList.update tool (f (lookup_metric tool (w_metrics w))) (w_metrics w)\<rparr>))"

definition Observe :: "env \<Rightarrow> Collector \<Rightarrow> string \<Rightarrow> duration \<Rightarrow> bool \<Rightarrow> float64 option \<Rightarrow> unit io" where
  "Observe E c tool d success confidence = do {
     t \<leftarrow> now E;
     update_metric tool (\<lambda>m. observe_metric m (Milliseconds d) success confidence (FormatRFC3339 t));
     (if col_exportPath c \<noteq> '''' then do { writeSnapshotLocked E c; ret () } else ret ())
   }"

section \<open>The percentile\<close>

text \<open>\<open>percentile95\<close> returns one of the values; at least 95 of 100 of the gaps between the values lie at or
  below it: with \<open>n\<close> values, more than \<open>(n - 1) * 95 / 100\<close> are at most as large, and at most that many
  are smaller.\<close>

theorem percentile95_spec:
  assumes "xs \<noteq> []"
  shows "percentile95 xs \<in> set xs \<and>
    (int (length xs) - 1) * 95 div 100 < int (length (filter (\<lambda>x. x \<le> percentile95 xs) xs)) \<and>
    int (length (filter (\<lambda>x. x < percentile95 xs) xs)) \<le> (int (length xs) - 1) * 95 div 100"
proof -
  let ?s = "stable_sort (<) xs"
  define i where "i = nat ((int (length xs) - 1) * 95 div 100)"
  have len: "1 \<le> int (length xs)" using assms by (cases xs) auto
  have i: "int i = (int (length xs) - 1) * 95 div 100" "i < length xs"
    using len unfolding i_def by (auto simp: pos_imp_zdiv_nonneg_iff)
  then have p: "percentile95 xs = ?s ! i"
    using assms by (simp add: percentile95_def Let_def i_def)
  have "Suc i \<le> length (filter (\<lambda>x. x \<le> ?s ! i) xs)" by (rule rank_le) (simp_all add: i)
  moreover have "length (filter (\<lambda>x. x < ?s ! i) xs) \<le> i"
    using rank_ge [OF i(2) order.refl] sum_length_filter_compl [of "\<lambda>x. ?s ! i \<le> x" xs]
    by (simp add: not_le)
  moreover have "?s ! i \<in> set xs"
    using i(2) by (metis length_stable_sort nth_mem set_stable_sort)
  ultimately show ?thesis unfolding p i(1) [symmetric] by simp
qed

theorem percentile95_spec_witness:
  "percentile95 [40, 10, 30, 20] \<in> set [40, 10, 30, 20] \<and>
    (int (length [40, 10, 30, 20 :: int]) - 1) * 95 div 100 <
      int (length (filter (\<lambda>x. x \<le> percentile95 [40, 10, 30, 20]) [40, 10, 30, 20])) \<and>
    int (length (filter (\<lambda>x. x < percentile95 [40, 10, 30, 20]) [40, 10, 30, 20])) \<le>
      (int (length [40, 10, 30, 20 :: int]) - 1) * 95 div 100"
  by (rule percentile95_spec) simp

section \<open>The counters and the calls\<close>

text \<open>
  The reference: an observation is a call of \<open>Observe\<close>, and the metric of a tool is a function of the
  list of its observations, each with the time stamp it got. The counters are read modulo \<open>2 ^ 64\<close>.
\<close>

record Observation =
  ob_Tool :: string
  ob_Duration :: duration
  ob_Success :: bool
  ob_Confidence :: "float64 option"

definition observe_one :: "env \<Rightarrow> Collector \<Rightarrow> Observation \<Rightarrow> unit io" where
  "observe_one E c ob = Observe E c (ob_Tool ob) (ob_Duration ob) (ob_Success ob) (ob_Confidence ob)"

primrec observe_all :: "env \<Rightarrow> Collector \<Rightarrow> Observation list \<Rightarrow> unit io" where
  "observe_all E c [] = ret ()"
| "observe_all E c (ob # obs) = do { observe_one E c ob; observe_all E c obs }"

definition confidences :: "Observation list \<Rightarrow> float64 list" where
  "confidences obs = map (the \<circ> ob_Confidence) (filter (\<lambda>ob. ob_Confidence ob \<noteq> None) obs)"

definition metric_of :: "(Observation \<times> string) list \<Rightarrow> ToolMetric" where
  "metric_of h =
     (let obs = map fst h;
          calls = wrap64 (int (length obs));
          total = wrap64 (sum_list (map (Milliseconds \<circ> ob_Duration) obs));
          recent = drop (length obs - 2000) (map (Milliseconds \<circ> ob_Duration) obs);
          samples = wrap64 (int (length (confidences obs)))
      in \<lparr>tm_Calls = calls,
          tm_Errors = wrap64 (int (length (filter (\<lambda>ob. \<not> ob_Success ob) obs))),
          tm_P95LatencyMS = percentile95 recent,
          tm_AverageLatencyMS = godiv total calls,
          tm_ConfidenceSamples = samples,
          tm_AverageConfidence = sum_list (confidences obs) / of_int samples,
          tm_LastObservedAt = (if h = [] then [] else snd (last h)),
          tm_latencies = recent,
          tm_totalLatency = total,
          tm_confidenceAggregate = sum_list (confidences obs)\<rparr>)"

lemma keep_last_snoc: "keep_last (drop (length xs - 2000) xs @ [x]) = drop (Suc (length xs) - 2000) (xs @ [x])"
proof (cases "2000 < length xs")
  case True
  then have "Suc (length xs - 2000) = Suc (length xs) - 2000" by simp
  with True show ?thesis by (simp add: keep_last_def)
qed (simp add: keep_last_def)

lemma metric_of_Nil: "metric_of [] = new_metric"
  by (simp add: metric_of_def new_metric_def confidences_def keep_last_def percentile95_def godiv_def
      wrap64_id)

lemma metric_of_snoc:
  "observe_metric (metric_of h) (Milliseconds (ob_Duration ob)) (ob_Success ob) (ob_Confidence ob) st =
   metric_of (h @ [(ob, st)])"
  using keep_last_snoc [of "map (Milliseconds \<circ> ob_Duration \<circ> fst) h" "Milliseconds (ob_Duration ob)"]
  by (cases "ob_Confidence ob")
    (simp_all add: observe_metric_def metric_of_def observe_confidence_def confidences_def
      Let_def ac_simps)

text \<open>What the association list holds: each tool that was observed, with the metric of its history.\<close>

definition of_tool :: "string \<Rightarrow> (Observation \<times> string) list \<Rightarrow> (Observation \<times> string) list" where
  "of_tool tool h = filter (\<lambda>p. ob_Tool (fst p) = tool) h"

definition holds :: "(string \<times> ToolMetric) list \<Rightarrow> (Observation \<times> string) list \<Rightarrow> bool" where
  "holds byTool h \<longleftrightarrow> distinct (map fst byTool) \<and>
     (\<forall>tool. map_of byTool tool = (if of_tool tool h = [] then None else Some (metric_of (of_tool tool h))))"

lemma holds_Nil: "holds [] []"
  by (simp add: holds_def of_tool_def)

lemma holds_lookup: "holds byTool h \<Longrightarrow> lookup_metric tool byTool = metric_of (of_tool tool h)"
  by (simp add: holds_def lookup_metric_def metric_of_Nil)

lemma holds_step:
  assumes "holds byTool h"
  shows "holds (AList.update (ob_Tool ob) (observe_metric (lookup_metric (ob_Tool ob) byTool)
    (Milliseconds (ob_Duration ob)) (ob_Success ob) (ob_Confidence ob) st) byTool) (h @ [(ob, st)])"
  using assms
  by (auto simp: holds_def update_conv' distinct_update of_tool_def metric_of_snoc
      holds_lookup [OF assms, unfolded of_tool_def])

lemma update_metric_simps [simp]:
  "after (update_metric tool f) w =
     w\<lparr>w_metrics := AList.update tool (f (lookup_metric tool (w_metrics w))) (w_metrics w)\<rparr>"
  by (simp add: after_def update_metric_def)

lemma writeSnapshotLocked_metrics: "moves same_metrics (writeSnapshotLocked E c)"
  unfolding writeSnapshotLocked_def write_snapshot_def by (intro same_metrics.rules) simp_all

lemma Observe_metrics:
  "w_metrics (after (Observe E c tool d success confidence) w) =
   AList.update tool (observe_metric (lookup_metric tool (w_metrics w)) (Milliseconds d) success confidence
     (FormatRFC3339 (e_now E (w_trace w @ [ReadClock])))) (w_metrics w)"
  using movesD [OF writeSnapshotLocked_metrics] by (simp add: Observe_def same_metrics_def)

lemma observe_all_holds:
  "holds (w_metrics w) h \<Longrightarrow>
   \<exists>stamps. length stamps = length obs \<and>
     holds (w_metrics (after (observe_all E c obs) w)) (h @ zip obs stamps)"
proof (induction obs arbitrary: h w)
  case (Cons ob obs)
  let ?st = "FormatRFC3339 (e_now E (w_trace w @ [ReadClock]))"
  have "holds (w_metrics (after (observe_one E c ob) w)) (h @ [(ob, ?st)])"
    using holds_step [OF Cons.prems] by (simp add: observe_one_def Observe_metrics)
  from Cons.IH [OF this] obtain stamps where "length stamps = length obs"
    "holds (w_metrics (after (observe_all E c obs) (after (observe_one E c ob) w))) ((h @ [(ob, ?st)]) @ zip obs stamps)"
    by blast
  then show ?case by (intro exI [of _ "?st # stamps"]) simp
qed simp

text \<open>Observing touches the clock and the operating system only.\<close>

lemma update_metric_emits: "emits P (update_metric tool f)"
  by (simp add: moves_def grows_def)

lemma Observe_emits:
  assumes "P ReadClock" "\<And>c. P (Called c)"
  shows "emits P (Observe E c tool d success confidence)"
  unfolding Observe_def writeSnapshotLocked_def write_snapshot_def
  by (intro emits.rules emits_now assms emits_os update_metric_emits)

text \<open>C16. The collector counts every call: starting from no metrics, after any sequence of observations, with any
  clock, file system and export path, the metric of each tool is the reference metric of exactly its own
  observations, in their order (calls, errors, total, average and 95th percentile of the last 2000
  latencies, mean confidence, last time stamp), each tool has one entry, and a tool that was not observed has none.\<close>

theorem observe_all_refines:
  "\<exists>stamps. length stamps = length obs \<and>
     holds (w_metrics (after (observe_all E c obs) (w\<lparr>w_metrics := []\<rparr>))) (zip obs stamps)"
  using observe_all_holds [of "w\<lparr>w_metrics := []\<rparr>" "[]"] by (simp add: holds_Nil)

lemma os_Create_truncates:
  "val (os_Create E p) w = Inr u \<Longrightarrow>
   \<exists>m. w_fs (after (os_Create E p) w) p = Some (File m []) \<and> w_metrics (after (os_Create E p) w) = w_metrics w"
  by (auto simp: os_Create_def open_with_def split: option.splits if_splits node.splits)

lemma file_Write_extends:
  "val (file_Write E p s) w = Inr u \<Longrightarrow> w_fs w p = Some (File m c) \<Longrightarrow>
   w_fs (after (file_Write E p s) w) p = Some (File m (c @ s))"
  by (auto simp: file_Write_def split: option.splits if_splits node.splits prod.splits)

lemma write_snapshot_file:
  "val (write_snapshot E c) w = Inr u \<Longrightarrow>
   \<exists>m t. w_fs (after (write_snapshot E c) w) (col_exportPath c) =
     Some (File m (marshal_snapshot E (take_snapshot (FormatRFC3339 t) (w_metrics w))))"
proof (cases "val (os_Create E (col_exportPath c)) w")
  case (Inr v)
  obtain k where k: "w_fs (after (os_Create E (col_exportPath c)) w) (col_exportPath c) = Some (File k [])"
    "w_metrics (after (os_Create E (col_exportPath c)) w) = w_metrics w"
    using os_Create_truncates [OF Inr] by blast
  then show "val (write_snapshot E c) w = Inr u \<Longrightarrow> ?thesis"
    by (auto simp: write_snapshot_def and_then_simps Inr dest!: file_Write_extends [where c = "[]"])
qed (simp add: write_snapshot_def and_then_simps)

lemma MkdirAll_metrics [simp]: "w_metrics (after (os_MkdirAll E p perm) w) = w_metrics w"
  using movesD [OF same_metrics_os(5)] by (simp add: same_metrics_def)

lemma export_file:
  "val (writeSnapshotLocked E c) w = Inr u \<Longrightarrow>
   \<exists>m t. w_fs (after (writeSnapshotLocked E c) w) (col_exportPath c) =
     Some (File m (marshal_snapshot E (take_snapshot (FormatRFC3339 t) (w_metrics w))))"
  using write_snapshot_file [of E c w]
    write_snapshot_file [of E c "after (os_MkdirAll E (Dir (col_exportPath c)) public_dir) w"]
  by (auto simp: writeSnapshotLocked_def Let_def split: sum.splits if_splits)

end
