(* ===== verification/Tools.thy ===== *)
theory Tools
  imports Service Telemetry
begin

text \<open>
  tools/registry.go: the five tools of the MCP server. Each handler reads the clock, calls the service,
  reports the call to the collector and the log, and turns a \<open>ToolError\<close> into an error result with its
  text. The decoding of the arguments and the protocol are the SDK's.
\<close>

section \<open>Inputs and outputs\<close>

record RunLocatorInput =
  li_Provider :: string
  li_RunURL :: string
  li_RunID :: int
  li_Repository :: string

record DiagnoseFailureInput =
  di_Provider :: string
  di_RunURL :: string
  di_RunID :: int
  di_Repository :: string
  di_MaxLogBytes :: int

record AnalyzeFlakyTestsInput =
  fi_Provider :: string
  fi_Repository :: string
  fi_LookbackDays :: int
  fi_Workflow :: string

record RerunInput =
  ri_Provider :: string
  ri_Repository :: string
  ri_RunID :: int
  ri_FailedJobsOnly :: bool
  ri_Reason :: string

record ComparePerformanceInput =
  ci_Provider :: string
  ci_Repository :: string
  ci_Workflow :: string
  ci_From :: string
  ci_To :: string

text \<open>The output structs hold a value or an error; that of a diagnosis has two parts.\<close>

record 'a Output =
  out_Value :: "'a option"
  out_Error :: "ToolError option"

record CallToolResult =
  ctr_IsError :: bool
  ctr_Content :: "string list"

record Dependencies =
  dp_Service :: Service
  dp_Telemetry :: "Collector option"
  dp_Logger :: bool

section \<open>Errors\<close>

definition formatToolError :: "ToolError option \<Rightarrow> string" where
  "formatToolError toolErr =
     (case toolErr of
        None \<Rightarrow> ''''
      | Some e \<Rightarrow>
          let parts = [te_Code e @ '': '' @ te_Message e];
              parts = (if TrimSpace (te_Remediation e) \<noteq> '''' then parts @ [''remediation: '' @ te_Remediation e] else parts)
          in join '' | '' parts)"

definition toolErrorResult :: "ToolError option \<Rightarrow> CallToolResult option" where
  "toolErrorResult toolErr =
     (if toolErr = None then None
      else Some \<lparr>ctr_IsError = True, ctr_Content = [formatToolError toolErr]\<rparr>)"

section \<open>Handlers\<close>

definition observe :: "env \<Rightarrow> Dependencies \<Rightarrow> string \<Rightarrow> gotime \<Rightarrow> bool \<Rightarrow> float64 option \<Rightarrow> unit io" where
  "observe E d tool start success confidence = do {
     (case dp_Telemetry d of
        None \<Rightarrow> ret ()
      | Some c \<Rightarrow> do { t \<leftarrow> now E; Observe E c tool (Sub t start) success confidence });
     (if dp_Logger d then do { t \<leftarrow> now E; log_msg LevelDebug ''tool invocation completed'' } else ret ())
   }"

text \<open>The shape the handlers share: the call of the service and the confidence of its result.\<close>

definition handled ::
  "env \<Rightarrow> Dependencies \<Rightarrow> string \<Rightarrow> 'a outcome io \<Rightarrow> ('a \<Rightarrow> float64 option) \<Rightarrow> (CallToolResult option \<times> 'a Output) io" where
  "handled E d tool m confidence = do {
     start \<leftarrow> now E;
     r \<leftarrow> m;
     (case r of
        Inl toolErr \<Rightarrow> do {
          observe E d tool start False None;
          ret (toolErrorResult (Some toolErr), \<lparr>out_Value = None, out_Error = Some toolErr\<rparr>)
        }
      | Inr x \<Rightarrow> do {
          observe E d tool start True (confidence x);
          ret (None, \<lparr>out_Value = Some x, out_Error = None\<rparr>)
        })
   }"

definition getRun :: "env \<Rightarrow> Dependencies \<Rightarrow> RunLocatorInput \<Rightarrow> (CallToolResult option \<times> PipelineRun Output) io" where
  "getRun E d input =
     handled E d ''pipeline.get_run''
       (GetRun E (dp_Service d) \<lparr>ref_Provider = li_Provider input, ref_RunURL = li_RunURL input,
          ref_RunID = li_RunID input, ref_Repository = li_Repository input\<rparr>)
       (\<lambda>_. None)"

definition diagnoseFailure ::
  "env \<Rightarrow> Dependencies \<Rightarrow> DiagnoseFailureInput \<Rightarrow>
   (CallToolResult option \<times> (FailureDiagnostic \<times> FixRecommendation list) Output) io" where
  "diagnoseFailure E d input =
     handled E d ''pipeline.diagnose_failure''
       (Service.DiagnoseFailure (dp_Service d) \<lparr>ref_Provider = di_Provider input, ref_RunURL = di_RunURL input,
          ref_RunID = di_RunID input, ref_Repository = di_Repository input\<rparr> (di_MaxLogBytes input))
       (\<lambda>(diagnostic, _). Some (fd_Confidence diagnostic))"

definition analyzeFlakyTests ::
  "env \<Rightarrow> Dependencies \<Rightarrow> AnalyzeFlakyTestsInput \<Rightarrow> (CallToolResult option \<times> FlakyTestReport Output) io" where
  "analyzeFlakyTests E d input =
     handled E d ''pipeline.analyze_flaky_tests''
       (Service.AnalyzeFlakyTests E (dp_Service d) (fi_Provider input) (fi_Repository input) (fi_LookbackDays input)
          (fi_Workflow input))
       (\<lambda>report. if rp_TopFlaky report \<noteq> [] then Some (ft_Confidence (rp_TopFlaky report ! 0)) else None)"

definition rerun :: "env \<Rightarrow> Dependencies \<Rightarrow> RerunInput \<Rightarrow> (CallToolResult option \<times> RerunResult Output) io" where
  "rerun E d input =
     handled E d ''pipeline.rerun''
       (Rerun E (dp_Service d) (ri_Provider input) (ri_Repository input) (ri_RunID input)
          (ri_FailedJobsOnly input) (ri_Reason input))
       (\<lambda>_. None)"

definition compare_call :: "Service \<Rightarrow> ComparePerformanceInput \<Rightarrow> PipelinePerformanceSnapshot outcome io" where
  "compare_call s input =
     (case ParseDateTime (ci_From input) of
        Inl err \<Rightarrow> ret (Inl (tool_error (Error err) ''Provide from as RFC3339 or YYYY-MM-DD.'' []))
      | Inr start \<Rightarrow>
          (case ParseDateTime (ci_To input) of
             Inl err \<Rightarrow> ret (Inl (tool_error (Error err) ''Provide to as RFC3339 or YYYY-MM-DD.'' []))
           | Inr stop \<Rightarrow>
               ComparePerformance s (ci_Provider input) (ci_Repository input) (ci_Workflow input) start stop))"

definition comparePerformance ::
  "env \<Rightarrow> Dependencies \<Rightarrow> ComparePerformanceInput \<Rightarrow>
   (CallToolResult option \<times> PipelinePerformanceSnapshot Output) io" where
  "comparePerformance E d input =
     handled E d ''pipeline.compare_performance'' (compare_call (dp_Service d) input) (\<lambda>_. None)"

section \<open>Registration\<close>

text \<open>A call of a registered tool, the tool's name, and what the handler leaves and answers.\<close>

datatype tool_call =
    CallGetRun RunLocatorInput
  | CallDiagnoseFailure DiagnoseFailureInput
  | CallAnalyzeFlakyTests AnalyzeFlakyTestsInput
  | CallRerun RerunInput
  | CallComparePerformance ComparePerformanceInput

datatype tool_output =
    OutGetRun "PipelineRun Output"
  | OutDiagnoseFailure "(FailureDiagnostic \<times> FixRecommendation list) Output"
  | OutAnalyzeFlakyTests "FlakyTestReport Output"
  | OutRerun "RerunResult Output"
  | OutComparePerformance "PipelinePerformanceSnapshot Output"

definition tool_name :: "tool_call \<Rightarrow> string" where
  "tool_name c =
     (case c of
        CallGetRun _ \<Rightarrow> ''pipeline.get_run''
      | CallDiagnoseFailure _ \<Rightarrow> ''pipeline.diagnose_failure''
      | CallAnalyzeFlakyTests _ \<Rightarrow> ''pipeline.analyze_flaky_tests''
      | CallRerun _ \<Rightarrow> ''pipeline.rerun''
      | CallComparePerformance _ \<Rightarrow> ''pipeline.compare_performance'')"

definition answer :: "('a \<Rightarrow> tool_output) \<Rightarrow> (CallToolResult option \<times> 'a) io \<Rightarrow> (CallToolResult option \<times> tool_output) io" where
  "answer f m = do { (r, x) \<leftarrow> m; ret (r, f x) }"

definition Register :: "env \<Rightarrow> Dependencies \<Rightarrow> tool_call \<Rightarrow> (CallToolResult option \<times> tool_output) io" where
  "Register E d c =
     (case c of
        CallGetRun i \<Rightarrow> answer OutGetRun (getRun E d i)
      | CallDiagnoseFailure i \<Rightarrow> answer OutDiagnoseFailure (diagnoseFailure E d i)
      | CallAnalyzeFlakyTests i \<Rightarrow> answer OutAnalyzeFlakyTests (analyzeFlakyTests E d i)
      | CallRerun i \<Rightarrow> answer OutRerun (rerun E d i)
      | CallComparePerformance i \<Rightarrow> answer OutComparePerformance (comparePerformance E d i))"

section \<open>What a call answers and counts\<close>

definition succeeded_with :: "'a Output \<Rightarrow> CallToolResult option \<Rightarrow> bool" where
  "succeeded_with out r \<longleftrightarrow> out_Value out \<noteq> None \<and> out_Error out = None \<and> r = None"

definition failed_with :: "'a Output \<Rightarrow> CallToolResult option \<Rightarrow> bool" where
  "failed_with out r \<longleftrightarrow> out_Value out = None \<and> out_Error out \<noteq> None \<and>
     r = Some \<lparr>ctr_IsError = True, ctr_Content = [formatToolError (out_Error out)]\<rparr>"

definition answers :: "(CallToolResult option \<times> 'a Output) \<Rightarrow> bool" where
  "answers = (\<lambda>(r, out). if r = None then succeeded_with out r else failed_with out r)"

definition answered_call :: "CallToolResult option \<times> tool_output \<Rightarrow> bool" where
  "answered_call = (\<lambda>(r, out). case out of
      OutGetRun x \<Rightarrow> answers (r, x) | OutDiagnoseFailure x \<Rightarrow> answers (r, x)
    | OutAnalyzeFlakyTests x \<Rightarrow> answers (r, x) | OutRerun x \<Rightarrow> answers (r, x)
    | OutComparePerformance x \<Rightarrow> answers (r, x))"

lemma handled_answers: "answers (val (handled E d tool m conf) w)"
  by (simp add: handled_def answers_def succeeded_with_def failed_with_def toolErrorResult_def split: sum.split)

lemma val_answer: "val (answer f m) w = (fst (val m w), f (snd (val m w)))"
  and after_answer [simp]: "after (answer f m) w = after m w"
  by (simp_all add: answer_def split: prod.split)

lemmas handlers = getRun_def diagnoseFailure_def analyzeFlakyTests_def rerun_def comparePerformance_def

text \<open>Every call of a tool is answered in one of two shapes: a value with no error, or no value, the error, and
  an error result whose text is that of the error. No operation fails silently or returns both.\<close>

theorem Register_answers: "answered_call (val (Register E d c) w)"
  by (cases c) (use handled_answers in \<open>simp_all add: Register_def answered_call_def val_answer handlers\<close>)

lemma observe_emits:
  assumes "P ReadClock" "\<And>c. P (Called c)" "\<And>l m. P (Logged l m)"
  shows "emits P (observe E d tool start success confidence)"
  unfolding observe_def by (intro emits.rules emits_now emits_log assms Observe_emits)

lemma handled_emits:
  assumes "P ReadClock" "\<And>c. P (Called c)" "\<And>l m. P (Logged l m)" "emits P m"
  shows "emits P (handled E d tool m confidence)"
  unfolding handled_def by (intro emits.rules emits_now observe_emits assms)

lemma answer_moves: "effect R \<Longrightarrow> moves R m \<Longrightarrow> moves R (answer f m)"
  unfolding answer_def by (intro effect.rules)

text \<open>
  The contract between the handlers and the collector: an operation that leaves the counters alone is
  counted once, under the tool's name, as an error precisely if its answer is an error result.
\<close>

locale metered =
  fixes E :: env and d :: Dependencies and col :: Collector
  assumes collector: "dp_Telemetry d = Some col"
    and kept: "moves same_metrics (GetRun E (dp_Service d) r)"
      "moves same_metrics (Service.DiagnoseFailure (dp_Service d) r n)"
      "moves same_metrics (Service.AnalyzeFlakyTests E (dp_Service d) p repo n wfl)"
      "moves same_metrics (Rerun E (dp_Service d) p repo n b reason)"
      "moves same_metrics (ComparePerformance (dp_Service d) p repo wfl start stop)"
begin

lemma observe_metrics:
  "\<exists>dur st. w_metrics (after (observe E d tool start ok c) v) =
     AList.update tool (observe_metric (lookup_metric tool (w_metrics v)) (Milliseconds dur) ok c st) (w_metrics v)"
proof -
  let ?dur = "Sub (val (now E) v) start"
  have "w_metrics (after (observe E d tool start ok c) v) =
      w_metrics (after (Observe E col tool ?dur ok c) (after (now E) v))"
    by (simp add: observe_def collector)
  then show ?thesis by (auto simp: Observe_metrics)
qed

lemma handled_counts:
  assumes "moves same_metrics m" "holds (w_metrics w) h"
  shows "\<exists>ob st. ob_Tool ob = tool \<and> ob_Success ob = (fst (val (handled E d tool m conf) w) = None) \<and>
    holds (w_metrics (after (handled E d tool m conf) w)) (h @ [(ob, st)])"
proof -
  let ?w1 = "after m (after (now E) w)"
  have keep: "w_metrics ?w1 = w_metrics w" using movesD [OF assms(1)] by (simp add: same_metrics_def)
  have obs: "\<exists>dur st. w_metrics (after (observe E d tool start ok c) ?w1) =
      AList.update tool (observe_metric (lookup_metric tool (w_metrics w)) (Milliseconds dur) ok c st) (w_metrics w)"
    for start ok c
    using observe_metrics [of tool start ok c ?w1] by (simp only: keep)
  show ?thesis
  proof (cases "val m (after (now E) w)")
    case (Inl e)
    obtain dur st where o: "w_metrics (after (handled E d tool m conf) w) =
        AList.update tool (observe_metric (lookup_metric tool (w_metrics w)) (Milliseconds dur) False None st) (w_metrics w)"
      using obs [of "val (now E) w" False None] Inl by (auto simp: handled_def)
    let ?ob = "\<lparr>ob_Tool = tool, ob_Duration = dur, ob_Success = False, ob_Confidence = None\<rparr>"
    have "fst (val (handled E d tool m conf) w) \<noteq> None" using Inl by (simp add: handled_def toolErrorResult_def)
    moreover have "holds (w_metrics (after (handled E d tool m conf) w)) (h @ [(?ob, st)])"
      unfolding o using holds_step [OF assms(2), of ?ob st] by simp
    ultimately show ?thesis by (intro exI [of _ ?ob] exI [of _ st]) simp
  next
    case (Inr x)
    obtain dur st where o: "w_metrics (after (handled E d tool m conf) w) =
        AList.update tool (observe_metric (lookup_metric tool (w_metrics w)) (Milliseconds dur) True (conf x) st) (w_metrics w)"
      using obs [of "val (now E) w" True "conf x"] Inr by (auto simp: handled_def)
    let ?ob = "\<lparr>ob_Tool = tool, ob_Duration = dur, ob_Success = True, ob_Confidence = conf x\<rparr>"
    have "fst (val (handled E d tool m conf) w) = None" using Inr by (simp add: handled_def)
    moreover have "holds (w_metrics (after (handled E d tool m conf) w)) (h @ [(?ob, st)])"
      unfolding o using holds_step [OF assms(2), of ?ob st] by simp
    ultimately show ?thesis by (intro exI [of _ ?ob] exI [of _ st]) simp
  qed
qed

lemma Register_counts:
  "holds (w_metrics w) h \<Longrightarrow>
   \<exists>ob st. ob_Tool ob = tool_name c \<and> ob_Success ob = (fst (val (Register E d c) w) = None) \<and>
     holds (w_metrics (after (Register E d c) w)) (h @ [(ob, st)])"
proof -
  have compare: "moves same_metrics (compare_call (dp_Service d) i)" for i
    unfolding compare_call_def by (intro same_metrics.rules kept)
  show "holds (w_metrics w) h \<Longrightarrow> ?thesis"
    by (cases c)
      (simp_all only: Register_def tool_name_def val_answer after_answer handlers tool_call.case fst_conv
        handled_counts [OF kept(1)] handled_counts [OF kept(2)] handled_counts [OF kept(3)]
        handled_counts [OF kept(4)] handled_counts [OF compare])
qed

end

end
