(* ===== verification/GitHub_Types.thy ===== *)
theory GitHub_Types
  imports World
begin

text \<open>
  internal/githubapi/types.go and internal/githubapi/errors.go: the structs the GitHub API answers
  with and how \<open>encoding/json\<close> fills them from a response, the package's error values, and the
  text of an \<open>APIError\<close>. The structs share field names with those of internal/providers, so
  their names end in \<open>_gh\<close>.
\<close>

section \<open>internal/githubapi/types.go\<close>

record WorkflowRun =
  wr_ID :: int
  wr_Name :: string
  wr_DisplayTitle :: string
  wr_Status :: string
  wr_Conclusion :: string
  wr_HTMLURL :: string
  wr_HeadSHA :: string
  wr_CreatedAt :: gotime
  wr_UpdatedAt :: gotime
  wr_RunStartedAt :: "gotime option"

record Step_gh =
  gs_Name :: string
  gs_Status :: string
  gs_Conclusion :: string
  gs_Number :: int
  gs_StartedAt :: "gotime option"
  gs_CompletedAt :: "gotime option"

record Job_gh =
  gj_ID :: int
  gj_Name :: string
  gj_Status :: string
  gj_Conclusion :: string
  gj_HeadBranch :: string
  gj_StartedAt :: "gotime option"
  gj_CompletedAt :: "gotime option"
  gj_HTMLURL :: string
  gj_CheckRunURL :: string
  gj_RunnerID :: int
  gj_Steps :: "Step_gh list"

record listJobsResponse =
  lj_TotalCount :: int
  lj_Jobs :: "Job_gh list"

record listRunsResponse =
  lr_TotalCount :: int
  lr_WorkflowRuns :: "WorkflowRun list"

record ListRunsOptions_gh =
  go_PerPage :: int
  go_Page :: int
  go_Created :: string
  go_Branch :: string
  go_Event :: string
  go_Status :: string

record CheckRunOutput_gh =
  gco_Title :: "string option"
  gco_Summary :: "string option"
  gco_Text :: "string option"
  gco_AnnotationsURL :: string

record DeploymentInfo_gh =
  gd_ID :: int
  gd_Environment :: string
  gd_OriginalEnvironment :: string

record CheckRun_gh =
  gc_ID :: int
  gc_Name :: string
  gc_HTMLURL :: string
  gc_DetailsURL :: string
  gc_Status :: string
  gc_Conclusion :: string
  gc_Output :: CheckRunOutput_gh
  gc_Deployment :: "DeploymentInfo_gh option"

record CheckRunAnnotation_gh =
  ga_Path :: string
  ga_StartLine :: int
  ga_AnnotationLevel :: string
  ga_Title :: string
  ga_Message :: string
  ga_BlobHref :: string

record BranchPolicy_gh =
  gp_ID :: int
  gp_Name :: string
  gp_Type :: string

record deploymentBranchPoliciesResponse =
  dbp_TotalCount :: int
  dbp_BranchPolicies :: "BranchPolicy_gh list"

section \<open>Decoding\<close>

text \<open>One decoder per struct, after its \<open>json\<close> tags.\<close>

definition dec_WorkflowRun :: "WorkflowRun decoder" where
  "dec_WorkflowRun v = do {
     f \<leftarrow> members v;
     i \<leftarrow> int_field f ''id''; n \<leftarrow> string_field f ''name''; t \<leftarrow> string_field f ''display_title'';
     st \<leftarrow> string_field f ''status''; c \<leftarrow> string_field f ''conclusion'';
     u \<leftarrow> string_field f ''html_url''; sha \<leftarrow> string_field f ''head_sha'';
     ct \<leftarrow> time_field f ''created_at''; ut \<leftarrow> time_field f ''updated_at'';
     rs \<leftarrow> pointer_field dec_time f ''run_started_at'';
     Some \<lparr>wr_ID = i, wr_Name = n, wr_DisplayTitle = t, wr_Status = st, wr_Conclusion = c,
       wr_HTMLURL = u, wr_HeadSHA = sha, wr_CreatedAt = ct, wr_UpdatedAt = ut, wr_RunStartedAt = rs\<rparr>
   }"

definition dec_Step :: "Step_gh decoder" where
  "dec_Step v = do {
     f \<leftarrow> members v;
     n \<leftarrow> string_field f ''name''; st \<leftarrow> string_field f ''status'';
     c \<leftarrow> string_field f ''conclusion''; k \<leftarrow> int_field f ''number'';
     sa \<leftarrow> pointer_field dec_time f ''started_at''; ca \<leftarrow> pointer_field dec_time f ''completed_at'';
     Some \<lparr>gs_Name = n, gs_Status = st, gs_Conclusion = c, gs_Number = k,
       gs_StartedAt = sa, gs_CompletedAt = ca\<rparr>
   }"

definition dec_Job :: "Job_gh decoder" where
  "dec_Job v = do {
     f \<leftarrow> members v;
     i \<leftarrow> int_field f ''id''; n \<leftarrow> string_field f ''name''; st \<leftarrow> string_field f ''status'';
     c \<leftarrow> string_field f ''conclusion''; b \<leftarrow> string_field f ''head_branch'';
     sa \<leftarrow> pointer_field dec_time f ''started_at''; ca \<leftarrow> pointer_field dec_time f ''completed_at'';
     u \<leftarrow> string_field f ''html_url''; cu \<leftarrow> string_field f ''check_run_url'';
     ri \<leftarrow> int_field f ''runner_id''; ss \<leftarrow> slice_field dec_Step f ''steps'';
     Some \<lparr>gj_ID = i, gj_Name = n, gj_Status = st, gj_Conclusion = c, gj_HeadBranch = b,
       gj_StartedAt = sa, gj_CompletedAt = ca, gj_HTMLURL = u, gj_CheckRunURL = cu,
       gj_RunnerID = ri, gj_Steps = ss\<rparr>
   }"

definition dec_listJobsResponse :: "listJobsResponse decoder" where
  "dec_listJobsResponse v = do {
     f \<leftarrow> members v;
     n \<leftarrow> int_field f ''total_count''; js \<leftarrow> slice_field dec_Job f ''jobs'';
     Some \<lparr>lj_TotalCount = n, lj_Jobs = js\<rparr>
   }"

definition dec_listRunsResponse :: "listRunsResponse decoder" where
  "dec_listRunsResponse v = do {
     f \<leftarrow> members v;
     n \<leftarrow> int_field f ''total_count''; rs \<leftarrow> slice_field dec_WorkflowRun f ''workflow_runs'';
     Some \<lparr>lr_TotalCount = n, lr_WorkflowRuns = rs\<rparr>
   }"

definition dec_CheckRunOutput :: "CheckRunOutput_gh decoder" where
  "dec_CheckRunOutput v = do {
     f \<leftarrow> members v;
     t \<leftarrow> pointer_field dec_string f ''title''; s \<leftarrow> pointer_field dec_string f ''summary'';
     x \<leftarrow> pointer_field dec_string f ''text''; u \<leftarrow> string_field f ''annotations_url'';
     Some \<lparr>gco_Title = t, gco_Summary = s, gco_Text = x, gco_AnnotationsURL = u\<rparr>
   }"

definition dec_DeploymentInfo :: "DeploymentInfo_gh decoder" where
  "dec_DeploymentInfo v = do {
     f \<leftarrow> members v;
     i \<leftarrow> int_field f ''id''; e \<leftarrow> string_field f ''environment'';
     oe \<leftarrow> string_field f ''original_environment'';
     Some \<lparr>gd_ID = i, gd_Environment = e, gd_OriginalEnvironment = oe\<rparr>
   }"

definition no_output :: CheckRunOutput_gh where
  "no_output = \<lparr>gco_Title = None, gco_Summary = None, gco_Text = None, gco_AnnotationsURL = []\<rparr>"

definition dec_CheckRun :: "CheckRun_gh decoder" where
  "dec_CheckRun v = do {
     f \<leftarrow> members v;
     i \<leftarrow> int_field f ''id''; n \<leftarrow> string_field f ''name''; u \<leftarrow> string_field f ''html_url'';
     du \<leftarrow> string_field f ''details_url''; st \<leftarrow> string_field f ''status'';
     c \<leftarrow> string_field f ''conclusion'';
     out \<leftarrow> decode_field True dec_CheckRunOutput ''output'' no_output f;
     dp \<leftarrow> pointer_field dec_DeploymentInfo f ''deployment'';
     Some \<lparr>gc_ID = i, gc_Name = n, gc_HTMLURL = u, gc_DetailsURL = du, gc_Status = st,
       gc_Conclusion = c, gc_Output = out, gc_Deployment = dp\<rparr>
   }"

definition dec_CheckRunAnnotation :: "CheckRunAnnotation_gh decoder" where
  "dec_CheckRunAnnotation v = do {
     f \<leftarrow> members v;
     p \<leftarrow> string_field f ''path''; l \<leftarrow> int_field f ''start_line'';
     lv \<leftarrow> string_field f ''annotation_level''; t \<leftarrow> string_field f ''title'';
     m \<leftarrow> string_field f ''message''; b \<leftarrow> string_field f ''blob_href'';
     Some \<lparr>ga_Path = p, ga_StartLine = l, ga_AnnotationLevel = lv, ga_Title = t,
       ga_Message = m, ga_BlobHref = b\<rparr>
   }"

definition dec_BranchPolicy :: "BranchPolicy_gh decoder" where
  "dec_BranchPolicy v = do {
     f \<leftarrow> members v;
     i \<leftarrow> int_field f ''id''; n \<leftarrow> string_field f ''name''; t \<leftarrow> string_field f ''type'';
     Some \<lparr>gp_ID = i, gp_Name = n, gp_Type = t\<rparr>
   }"

definition dec_deploymentBranchPoliciesResponse :: "deploymentBranchPoliciesResponse decoder" where
  "dec_deploymentBranchPoliciesResponse v = do {
     f \<leftarrow> members v;
     n \<leftarrow> int_field f ''total_count''; ps \<leftarrow> slice_field dec_BranchPolicy f ''branch_policies'';
     Some \<lparr>dbp_TotalCount = n, dbp_BranchPolicies = ps\<rparr>
   }"

section \<open>internal/githubapi/errors.go\<close>

definition ErrUnauthorized :: go_error where "ErrUnauthorized = New ''github unauthorized''"
definition ErrRateLimited :: go_error where "ErrRateLimited = New ''github rate limited''"
definition ErrLogsUnavailable :: go_error where "ErrLogsUnavailable = New ''github logs unavailable''"
definition ErrProviderUnavailable :: go_error where "ErrProviderUnavailable = New ''provider unavailable''"
definition ErrNotFound :: go_error where "ErrNotFound = New ''resource not found''"
definition ErrWriteTokenRequired :: go_error where "ErrWriteTokenRequired = New ''write token required''"

lemmas sentinel_defs = ErrUnauthorized_def ErrRateLimited_def ErrLogsUnavailable_def
  ErrProviderUnavailable_def ErrNotFound_def ErrWriteTokenRequired_def

record APIError =
  ap_Status :: int
  ap_Message :: string
  ap_RetryAfter :: string

text \<open>The table of \<open>http.StatusText\<close>.\<close>

definition status_texts :: "(int \<times> string) list" where
  "status_texts =
    [(100, ''Continue''), (101, ''Switching Protocols''), (102, ''Processing''), (103, ''Early Hints''),
     (200, ''OK''), (201, ''Created''), (202, ''Accepted''), (203, ''Non-Authoritative Information''),
     (204, ''No Content''), (205, ''Reset Content''), (206, ''Partial Content''), (207, ''Multi-Status''),
     (208, ''Already Reported''), (226, ''IM Used''), (300, ''Multiple Choices''),
     (301, ''Moved Permanently''), (302, ''Found''), (303, ''See Other''), (304, ''Not Modified''),
     (305, ''Use Proxy''), (307, ''Temporary Redirect''), (308, ''Permanent Redirect''),
     (400, ''Bad Request''), (401, ''Unauthorized''), (402, ''Payment Required''), (403, ''Forbidden''),
     (404, ''Not Found''), (405, ''Method Not Allowed''), (406, ''Not Acceptable''),
     (407, ''Proxy Authentication Required''), (408, ''Request Timeout''), (409, ''Conflict''),
     (410, ''Gone''), (411, ''Length Required''), (412, ''Precondition Failed''),
     (413, ''Request Entity Too Large''), (414, ''Request URI Too Long''),
     (415, ''Unsupported Media Type''), (416, ''Requested Range Not Satisfiable''),
     (417, ''Expectation Failed''), (418, ''I'' @ [CHR 0x27] @ ''m a teapot''),
     (421, ''Misdirected Request''), (422, ''Unprocessable Entity''), (423, ''Locked''),
     (424, ''Failed Dependency''), (425, ''Too Early''), (426, ''Upgrade Required''),
     (428, ''Precondition Required''), (429, ''Too Many Requests''),
     (431, ''Request Header Fields Too Large''), (451, ''Unavailable For Legal Reasons''),
     (500, ''Internal Server Error''), (501, ''Not Implemented''), (502, ''Bad Gateway''),
     (503, ''Service Unavailable''), (504, ''Gateway Timeout''), (505, ''HTTP Version Not Supported''),
     (506, ''Variant Also Negotiates''), (507, ''Insufficient Storage''), (508, ''Loop Detected''),
     (510, ''Not Extended''), (511, ''Network Authentication Required'')]"

definition StatusText :: "int \<Rightarrow> string" where
  "StatusText n = (case map_of status_texts n of None \<Rightarrow> [] | Some s \<Rightarrow> s)"

definition APIError_Error :: "APIError \<Rightarrow> string" where
  "APIError_Error e =
     (let status = StatusText (ap_Status e);
          status = (if status = '''' then ''unknown'' else status)
      in if ap_Message e = '''' then ''github api error: '' @ Itoa (ap_Status e) @ '' '' @ status
         else ''github api error: '' @ Itoa (ap_Status e) @ '' '' @ status @ '': '' @ ap_Message e)"

end
