(* ===== verification/Client.thy ===== *)
theory Client
  imports GitHub_Types
begin

text \<open>
  internal/githubapi/client.go: the GitHub REST client. A request is built from the client's base URL
  and tokens, sent through \<open>e_http\<close>, classified by status, and retried; the typed calls page through
  the list endpoints and decode the answers. The response headers that \<open>doOnce\<close>, \<open>doBytes\<close> and
  \<open>doJSON\<close> pass up are dropped by every caller and left out. The text of a decoding error is one fixed
  string in place of the package's own.
\<close>

section \<open>The client\<close>

definition defaultPerPage :: int where "defaultPerPage = 100"
definition maxAttempts :: nat where "maxAttempts = 3"

record Client =
  cl_baseURL :: string
  cl_readToken :: string
  cl_writeToken :: string
  cl_userAgent :: string
  cl_timeout :: duration

definition NewClient :: "string \<Rightarrow> string \<Rightarrow> string \<Rightarrow> string \<Rightarrow> duration \<Rightarrow> Client" where
  "NewClient baseURL readToken writeToken userAgent timeout =
     \<lparr>cl_baseURL = TrimRightSlash baseURL, cl_readToken = TrimSpace readToken,
      cl_writeToken = TrimSpace writeToken, cl_userAgent = userAgent,
      cl_timeout = (if timeout \<le> 0 then 25 * second else timeout)\<rparr>"

section \<open>One request\<close>

definition MethodGet :: string where "MethodGet = ''GET''"
definition MethodPost :: string where "MethodPost = ''POST''"

definition bearer :: "string \<Rightarrow> string" where "bearer token = ''Bearer '' @ token"

definition request_header :: "Client \<Rightarrow> string \<Rightarrow> bool \<Rightarrow> (string \<times> string) list" where
  "request_header c body write =
     (let h = Set ''Accept'' ''application/vnd.github+json'' [];
          h = Set ''X-Github-Api-Version'' ''2022-11-28'' h;
          h = (if cl_userAgent c \<noteq> '''' then Set ''User-Agent'' (cl_userAgent c) h else h);
          h = (if body \<noteq> [] then Set ''Content-Type'' ''application/json'' h else h);
          h = (if cl_readToken c \<noteq> '''' then Set ''Authorization'' (bearer (cl_readToken c)) h else h)
      in if write \<and> cl_writeToken c \<noteq> '''' then Set ''Authorization'' (bearer (cl_writeToken c)) h else h)"

definition build_request :: "Client \<Rightarrow> string \<Rightarrow> string \<Rightarrow> string \<Rightarrow> bool \<Rightarrow> http_request" where
  "build_request c method endpoint body write =
     \<lparr>rq_Method = method, rq_URL = cl_baseURL c @ endpoint,
      rq_Header = request_header c body write, rq_Body = body\<rparr>"

definition dec_message :: "string decoder" where
  "dec_message v = do { f \<leftarrow> members v; string_field f ''message'' }"

definition extractErrorMessage :: "string \<Rightarrow> string" where
  "extractErrorMessage body =
     (if body = [] then []
      else case Unmarshal dec_message body of
        Some m \<Rightarrow> if TrimSpace m \<noteq> [] then TrimSpace m else TrimSpace (take 256 body)
      | None \<Rightarrow> TrimSpace (take 256 body))"

text \<open>What \<open>doOnce\<close> makes of a response that was read: the body, or whether to retry and the error.\<close>

definition classify :: "http_response \<Rightarrow> string \<Rightarrow> (bool \<times> go_error) + string" where
  "classify resp responseBody =
     (let status = rs_Status resp; remaining = rs_Header resp ''X-RateLimit-Remaining'' in
      if 200 \<le> status \<and> status < 300 then Inr responseBody
      else
        let apiErr = APIError_Error \<lparr>ap_Status = status, ap_Message = extractErrorMessage responseBody,
                       ap_RetryAfter = rs_Header resp ''Retry-After''\<rparr> in
        if status = 429 \<or> remaining = ''0'' then Inl (True, wrap_with ErrRateLimited apiErr)
        else if 500 \<le> status then Inl (True, wrap_with ErrProviderUnavailable apiErr)
        else if status = 401 \<or> status = 403 then
          (if remaining = ''0'' then Inl (True, wrap_with ErrRateLimited apiErr)
           else Inl (False, wrap_with ErrUnauthorized apiErr))
        else if status = 404 then Inl (False, wrap_with ErrNotFound apiErr)
        else Inl (False, wrap_with ErrProviderUnavailable apiErr))"

definition http_Do :: "env \<Rightarrow> http_request \<Rightarrow> (string + http_response) io" where
  "http_Do E rq = do { emit (Requested rq); w \<leftarrow> State_Monad.get; ret (e_http E (w_trace w) rq) }"

definition doOnce :: "env \<Rightarrow> Client \<Rightarrow> string \<Rightarrow> string \<Rightarrow> string \<Rightarrow> bool \<Rightarrow> ((bool \<times> go_error) + string) io" where
  "doOnce E c method endpoint body write =
     (case url_Parse (cl_baseURL c @ endpoint) of
        Inl e \<Rightarrow> ret (Inl (False, wrap_in ''build request'' (Errorf e)))
      | Inr _ \<Rightarrow> do {
          r \<leftarrow> http_Do E (build_request c method endpoint body write);
          ret (case r of
              Inl e \<Rightarrow> Inl (True, wrap_in ''github request'' (Errorf e))
            | Inr resp \<Rightarrow>
                (case rs_Body resp of
                   Inl e \<Rightarrow> Inl (False, wrap_in ''read response body'' (Errorf e))
                 | Inr responseBody \<Rightarrow> classify resp responseBody))
        })"

section \<open>Retries\<close>

text \<open>The wait ends with the error of the context if it is done first.\<close>

definition wait :: "env \<Rightarrow> int \<Rightarrow> go_error option io" where
  "wait E d = do { emit (Waited d); w \<leftarrow> State_Monad.get; ret (map_option ctx_Err (e_done E (w_trace w))) }"

definition backoff :: "int \<Rightarrow> duration" where
  "backoff attempt = attempt * attempt * (200 * millisecond)"

text \<open>The loop at attempt \<open>attempt\<close>, with \<open>left\<close> attempts after this one.\<close>

fun attempts :: "env \<Rightarrow> ((bool \<times> go_error) + string) io \<Rightarrow> int \<Rightarrow> nat \<Rightarrow> string result io" where
  "attempts E once attempt left = do {
     r \<leftarrow> once;
     (case r of
        Inr responseBody \<Rightarrow> ret (Inr responseBody)
      | Inl (retry, err) \<Rightarrow>
          (case left of
             0 \<Rightarrow> ret (Inl err)
           | Suc left' \<Rightarrow>
               if \<not> retry then ret (Inl err)
               else do {
                 d \<leftarrow> wait E (backoff attempt);
                 (case d of
                    Some e \<Rightarrow> ret (Inl e)
                  | None \<Rightarrow> attempts E once (attempt + 1) left')
               }))
   }"

declare attempts.simps [simp del]

definition doBytes :: "env \<Rightarrow> Client \<Rightarrow> string \<Rightarrow> string \<Rightarrow> string \<Rightarrow> bool \<Rightarrow> string result io" where
  "doBytes E c method endpoint body write =
     attempts E (doOnce E c method endpoint body write) 1 (maxAttempts - 1)"

definition decode_error :: go_error where
  "decode_error = Errorf ''decode response: invalid JSON''"

text \<open>\<open>doJSON\<close> with a value to decode into, whose zero value an empty body leaves, and without one.\<close>

definition doJSON :: "env \<Rightarrow> Client \<Rightarrow> string \<Rightarrow> string \<Rightarrow> string \<Rightarrow> bool \<Rightarrow> 'a decoder \<Rightarrow> 'a \<Rightarrow> 'a result io" where
  "doJSON E c method endpoint body write dec zero =
     and_then (doBytes E c method endpoint body write)
       (\<lambda>respBody. ret (if respBody = [] then Inr zero
          else case Unmarshal dec respBody of None \<Rightarrow> Inl decode_error | Some x \<Rightarrow> Inr x))"

definition doJSON_discard :: "env \<Rightarrow> Client \<Rightarrow> string \<Rightarrow> string \<Rightarrow> string \<Rightarrow> bool \<Rightarrow> unit result io" where
  "doJSON_discard E c method endpoint body write =
     and_then (doBytes E c method endpoint body write) (\<lambda>_. ret (Inr ()))"

section \<open>The calls\<close>

definition runs_path :: "string \<Rightarrow> string \<Rightarrow> string" where
  "runs_path owner repo = ''/repos/'' @ owner @ ''/'' @ repo @ ''/actions/runs''"

definition zero_run :: WorkflowRun where
  "zero_run = \<lparr>wr_ID = 0, wr_Name = [], wr_DisplayTitle = [], wr_Status = [], wr_Conclusion = [],
     wr_HTMLURL = [], wr_HeadSHA = [], wr_CreatedAt = 0, wr_UpdatedAt = 0, wr_RunStartedAt = None\<rparr>"

definition zero_check_run :: CheckRun_gh where
  "zero_check_run = \<lparr>gc_ID = 0, gc_Name = [], gc_HTMLURL = [], gc_DetailsURL = [], gc_Status = [],
     gc_Conclusion = [], gc_Output = no_output, gc_Deployment = None\<rparr>"

definition GetRun :: "env \<Rightarrow> Client \<Rightarrow> string \<Rightarrow> string \<Rightarrow> int \<Rightarrow> WorkflowRun result io" where
  "GetRun E c owner repo runID =
     doJSON E c MethodGet (runs_path owner repo @ ''/'' @ Itoa runID) [] False dec_WorkflowRun zero_run"

text \<open>
  The loop over the pages \<open>page\<close>, ..., \<open>page + n - 1\<close>; \<open>cont\<close> is the loop condition on the number of
  entries so far. An empty page and one that is not full end it.
\<close>

fun pages :: "(int \<Rightarrow> 'a list result io) \<Rightarrow> int \<Rightarrow> (nat \<Rightarrow> bool) \<Rightarrow> nat \<Rightarrow> int \<Rightarrow> 'a list \<Rightarrow> 'a list result io" where
  "pages fetch perPage cont 0 page acc = ret (Inr acc)"
| "pages fetch perPage cont (Suc n) page acc =
     (if \<not> cont (length acc) then ret (Inr acc)
      else and_then (fetch page) (\<lambda>xs.
        if xs = [] then ret (Inr acc)
        else if int (length xs) < perPage then ret (Inr (acc @ xs))
        else pages fetch perPage cont n (page + 1) (acc @ xs)))"

definition jobs_page :: "env \<Rightarrow> Client \<Rightarrow> string \<Rightarrow> string \<Rightarrow> int \<Rightarrow> int \<Rightarrow> Job_gh list result io" where
  "jobs_page E c owner repo runID page =
     and_then (doJSON E c MethodGet
         (runs_path owner repo @ ''/'' @ Itoa runID @ ''/jobs?per_page='' @ Itoa defaultPerPage @
          ''&page='' @ Itoa page)
         [] False dec_listJobsResponse \<lparr>lj_TotalCount = 0, lj_Jobs = []\<rparr>)
       (\<lambda>resp. ret (Inr (lj_Jobs resp)))"

definition ListRunJobs :: "env \<Rightarrow> Client \<Rightarrow> string \<Rightarrow> string \<Rightarrow> int \<Rightarrow> Job_gh list result io" where
  "ListRunJobs E c owner repo runID =
     pages (jobs_page E c owner repo runID) defaultPerPage (\<lambda>_. True) 10 1 []"

definition runs_query :: "ListRunsOptions_gh \<Rightarrow> int \<Rightarrow> Values" where
  "runs_query opts page =
     (let q = Set ''per_page'' (Itoa (go_PerPage opts)) [];
          q = Set ''page'' (Itoa page) q;
          q = (if go_Created opts \<noteq> '''' then Set ''created'' (go_Created opts) q else q);
          q = (if go_Branch opts \<noteq> '''' then Set ''branch'' (go_Branch opts) q else q);
          q = (if go_Event opts \<noteq> '''' then Set ''event'' (go_Event opts) q else q)
      in if go_Status opts \<noteq> '''' then Set ''status'' (go_Status opts) q else q)"

definition runs_page :: "env \<Rightarrow> Client \<Rightarrow> string \<Rightarrow> string \<Rightarrow> ListRunsOptions_gh \<Rightarrow> int \<Rightarrow> WorkflowRun list result io" where
  "runs_page E c owner repo opts page =
     and_then (doJSON E c MethodGet (runs_path owner repo @ ''?'' @ Encode (runs_query opts page))
         [] False dec_listRunsResponse \<lparr>lr_TotalCount = 0, lr_WorkflowRuns = []\<rparr>)
       (\<lambda>resp. ret (Inr (lr_WorkflowRuns resp)))"

definition clamp_options :: "ListRunsOptions_gh \<Rightarrow> ListRunsOptions_gh" where
  "clamp_options opts =
     (if go_PerPage opts \<le> 0 \<or> defaultPerPage < go_PerPage opts
      then opts\<lparr>go_PerPage := defaultPerPage\<rparr> else opts)"

definition clamp_runs :: "int \<Rightarrow> int" where
  "clamp_runs maxRuns = (if maxRuns \<le> 0 then defaultPerPage else maxRuns)"

definition ListRepositoryRuns ::
  "env \<Rightarrow> Client \<Rightarrow> string \<Rightarrow> string \<Rightarrow> ListRunsOptions_gh \<Rightarrow> int \<Rightarrow> WorkflowRun list result io" where
  "ListRepositoryRuns E c owner repo opts maxRuns =
     (let maxRuns = clamp_runs maxRuns; opts = clamp_options opts in
      and_then (pages (runs_page E c owner repo opts) (go_PerPage opts) (\<lambda>n. int n < maxRuns) 10 1 [])
        (\<lambda>runs. ret (Inr (if maxRuns < int (length runs) then take (nat maxRuns) runs else runs))))"

definition GetCheckRun :: "env \<Rightarrow> Client \<Rightarrow> string \<Rightarrow> string \<Rightarrow> int \<Rightarrow> CheckRun_gh result io" where
  "GetCheckRun E c owner repo checkRunID =
     doJSON E c MethodGet (''/repos/'' @ owner @ ''/'' @ repo @ ''/check-runs/'' @ Itoa checkRunID)
       [] False dec_CheckRun zero_check_run"

definition GetCheckRunAnnotations ::
  "env \<Rightarrow> Client \<Rightarrow> string \<Rightarrow> string \<Rightarrow> int \<Rightarrow> CheckRunAnnotation_gh list result io" where
  "GetCheckRunAnnotations E c owner repo checkRunID =
     doJSON E c MethodGet
       (''/repos/'' @ owner @ ''/'' @ repo @ ''/check-runs/'' @ Itoa checkRunID @
        ''/annotations?per_page='' @ Itoa defaultPerPage)
       [] False (dec_slice dec_CheckRunAnnotation) []"

definition ListDeploymentBranchPolicies ::
  "env \<Rightarrow> Client \<Rightarrow> string \<Rightarrow> string \<Rightarrow> string \<Rightarrow> BranchPolicy_gh list result io" where
  "ListDeploymentBranchPolicies E c owner repo environment =
     and_then (doJSON E c MethodGet
         (''/repos/'' @ owner @ ''/'' @ repo @ ''/environments/'' @ PathEscape environment @
          ''/deployment-branch-policies'')
         [] False dec_deploymentBranchPoliciesResponse \<lparr>dbp_TotalCount = 0, dbp_BranchPolicies = []\<rparr>)
       (\<lambda>resp. ret (Inr (dbp_BranchPolicies resp)))"

section \<open>Logs\<close>

definition log_header :: "string \<Rightarrow> string" where
  "log_header name = [CHR 0x0A] @ ''===== '' @ name @ '' ====='' @ [CHR 0x0A]"

fun zip_files :: "int \<Rightarrow> string \<Rightarrow> zip_entry list \<Rightarrow> string result" where
  "zip_files maxBytes buf [] = Inr buf"
| "zip_files maxBytes buf (f # fs) =
     (if HasSuffix (ze_Name f) ''/'' then zip_files maxBytes buf fs
      else if maxBytes - int (length buf) \<le> 0 then Inr buf
      else if \<not> ze_Opens f then zip_files maxBytes buf fs
      else
        let buf = buf @ log_header (ze_Name f); remaining = maxBytes - int (length buf) in
        if remaining \<le> 0 then Inr buf
        else if int (length (ze_Data f)) < remaining \<and> ze_ReadError f \<noteq> None
          then Inl (Errorf (the (ze_ReadError f)))
        else
          let buf = buf @ take (nat remaining) (ze_Data f) in
          if maxBytes \<le> int (length buf) then Inr buf else zip_files maxBytes buf fs)"

definition log_limit :: "int \<Rightarrow> int" where
  "log_limit maxBytes = (if maxBytes \<le> 0 then 2 ^ 20 else maxBytes)"

definition unzipOrText :: "env \<Rightarrow> string \<Rightarrow> int \<Rightarrow> string result" where
  "unzipOrText E body maxBytes =
     (let maxBytes = log_limit maxBytes in
      case e_zip E body of
        None \<Rightarrow> Inr (if maxBytes < int (length body) then take (nat maxBytes) body else body)
      | Some files \<Rightarrow>
          (case zip_files maxBytes [] files of
             Inl e \<Rightarrow> Inl e
           | Inr buf \<Rightarrow> if buf = [] then Inl (Errorf ''empty logs archive'') else Inr buf))"

definition DownloadRunLogs :: "env \<Rightarrow> Client \<Rightarrow> string \<Rightarrow> string \<Rightarrow> int \<Rightarrow> int \<Rightarrow> string result io" where
  "DownloadRunLogs E c owner repo runID maxBytes = do {
     r \<leftarrow> doBytes E c MethodGet (runs_path owner repo @ ''/'' @ Itoa runID @ ''/logs'') [] False;
     ret (case r of
         Inl err \<Rightarrow> if err = ErrNotFound then Inl ErrLogsUnavailable else Inl err
       | Inr body \<Rightarrow>
           if body = [] then Inl ErrLogsUnavailable
           else (case unzipOrText E body (log_limit maxBytes) of
               Inl _ \<Rightarrow> Inl ErrLogsUnavailable
             | Inr text \<Rightarrow> Inr text))
   }"

section \<open>Rerun\<close>

definition rerun_payload :: string where
  "rerun_payload = ''{'' @ [dquote] @ ''enable_debug_logging'' @ [dquote] @ '':false}''"

definition rerun_endpoint :: "string \<Rightarrow> string \<Rightarrow> int \<Rightarrow> bool \<Rightarrow> string" where
  "rerun_endpoint owner repo runID failedJobsOnly =
     runs_path owner repo @ ''/'' @ Itoa runID @ (if failedJobsOnly then ''/rerun-failed-jobs'' else ''/rerun'')"

definition Rerun :: "env \<Rightarrow> Client \<Rightarrow> string \<Rightarrow> string \<Rightarrow> int \<Rightarrow> bool \<Rightarrow> unit result io" where
  "Rerun E c owner repo runID failedJobsOnly =
     (if TrimSpace (cl_writeToken c) = '''' then ret (Inl ErrWriteTokenRequired)
      else doJSON_discard E c MethodPost (rerun_endpoint owner repo runID failedJobsOnly) rerun_payload True)"

section \<open>Requests\<close>

lemma after_http_Do [simp]: "after (http_Do E rq) w = w\<lparr>w_trace := w_trace w @ [Requested rq]\<rparr>"
  and val_http_Do [simp]: "val (http_Do E rq) w = e_http E (w_trace w @ [Requested rq]) rq"
  by (simp_all add: http_Do_def)

lemma after_wait [simp]: "after (wait E d) w = w\<lparr>w_trace := w_trace w @ [Waited d]\<rparr>"
  and val_wait [simp]: "val (wait E d) w = map_option ctx_Err (e_done E (w_trace w @ [Waited d]))"
  by (simp_all add: wait_def)

lemma after_doOnce:
  "after (doOnce E c m ep b wr) w =
   (case url_Parse (cl_baseURL c @ ep) of Inl _ \<Rightarrow> w
    | Inr _ \<Rightarrow> w\<lparr>w_trace := w_trace w @ [Requested (build_request c m ep b wr)]\<rparr>)"
  by (simp add: doOnce_def split: sum.split)

lemma doOnce_bad_url:
  "url_Parse (cl_baseURL c @ ep) = Inl e \<Longrightarrow>
   val (doOnce E c m ep b wr) w = Inl (False, wrap_in ''build request'' (Errorf e))"
  by (simp add: doOnce_def)

lemma doBytes_attempts:
  "doBytes E c m ep b wr = attempts E (doOnce E c m ep b wr) 1 (Suc (Suc 0))"
  by (simp add: doBytes_def maxAttempts_def numeral_2_eq_2)

lemmas attempts_unfold = attempts.simps [of _ _ 1 "Suc (Suc 0)"] attempts.simps [of _ _ 2 "Suc 0"]
  attempts.simps [of _ _ 3 0]

lemma retry_sequence:
  "\<exists>n \<le> 5. w_trace (after (doBytes E c m ep b wr) w) = w_trace w @
     take n [Requested (build_request c m ep b wr), Waited (200 * millisecond),
             Requested (build_request c m ep b wr), Waited (800 * millisecond),
             Requested (build_request c m ep b wr)]"
proof -
  have b: "backoff 1 = 200 * millisecond" "backoff 2 = 800 * millisecond" by (simp_all add: backoff_def)
  show ?thesis
  proof (cases "url_Parse (cl_baseURL c @ ep)")
    case (Inl e)
    then show ?thesis
      by (intro exI [of _ 0]) (simp add: doBytes_attempts attempts_unfold doOnce_bad_url after_doOnce)
  next
    case (Inr u)
    let ?o = "doOnce E c m ep b wr"
    let ?r = "Requested (build_request c m ep b wr)"
    have o: "after ?o v = v\<lparr>w_trace := w_trace v @ [?r]\<rparr>" for v by (simp add: after_doOnce Inr)
    have "list_ex (\<lambda>n. w_trace (after (doBytes E c m ep b wr) w) = w_trace w @
        take n [?r, Waited (200 * millisecond), ?r, Waited (800 * millisecond), ?r]) [0..<6]"
      unfolding doBytes_attempts
      by (simp add: attempts_unfold o b upt_rec split: sum.split prod.split option.split nat.split)
    then obtain n where "n < 6" "w_trace (after (doBytes E c m ep b wr) w) = w_trace w @
        take n [?r, Waited (200 * millisecond), ?r, Waited (800 * millisecond), ?r]"
      unfolding list_ex_iff by auto
    then show ?thesis by (intro exI [of _ n]) simp
  qed
qed

text \<open>C27. A call sends the same request at most three times, waits 200 and then 800 milliseconds in
  between, and does nothing else: its trace is an initial part of that sequence.\<close>

theorem doBytes_trace:
  "\<exists>n \<le> 5. w_trace (after (doBytes E c m ep b wr) w) = w_trace w @
     take n [Requested (build_request c m ep b wr), Waited (200 * millisecond),
             Requested (build_request c m ep b wr), Waited (800 * millisecond),
             Requested (build_request c m ep b wr)]"
  by (rule retry_sequence)

text \<open>An answer is the body of the last response, and it had a status of success.\<close>

lemma doOnce_Inr:
  "val (doOnce E c m ep b wr) w = Inr body \<Longrightarrow>
   \<exists>r. e_http E (w_trace w @ [Requested (build_request c m ep b wr)]) (build_request c m ep b wr) = Inr r \<and>
       rs_Body r = Inr body \<and> 200 \<le> rs_Status r \<and> rs_Status r < 300"
  by (auto simp: doOnce_def classify_def Let_def split: sum.splits if_splits)

lemma doOnce_Inr_trace:
  "val (doOnce E c m ep b wr) w = Inr body \<Longrightarrow>
   w_trace (after (doOnce E c m ep b wr) w) = w_trace w @ [Requested (build_request c m ep b wr)]"
  by (auto simp: after_doOnce doOnce_def split: sum.splits)

definition answered :: "env \<Rightarrow> http_request \<Rightarrow> event list \<Rightarrow> string \<Rightarrow> bool" where
  "answered E rq tr body \<longleftrightarrow>
     (\<exists>r. tr \<noteq> [] \<and> last tr = Requested rq \<and> e_http E tr rq = Inr r \<and> rs_Body r = Inr body \<and>
          200 \<le> rs_Status r \<and> rs_Status r < 300)"

lemma attempts_answered:
  "val (attempts E (doOnce E c m ep b wr) k left) w = Inr body \<Longrightarrow>
   answered E (build_request c m ep b wr) (w_trace (after (attempts E (doOnce E c m ep b wr) k left) w)) body"
proof (induction left arbitrary: k w)
  case 0
  then show ?case
    using doOnce_Inr [of E c m ep b wr w body] doOnce_Inr_trace [of E c m ep b wr w body]
    by (auto simp: attempts.simps [of _ _ _ 0] answered_def split: sum.splits prod.splits)
next
  case (Suc left)
  then show ?case
    using doOnce_Inr [of E c m ep b wr w body] doOnce_Inr_trace [of E c m ep b wr w body]
    by (auto simp: attempts.simps [of _ _ _ "Suc left"] answered_def
        split: sum.splits prod.splits if_splits option.splits)
qed

text \<open>A call that returns a body was answered: its last step is the request, and the response to
  it had a status from 200 to 299 and this body.\<close>

theorem doBytes_answered:
  "list_all (\<lambda>body. answered E (build_request c m ep b wr) (w_trace (after (doBytes E c m ep b wr) w)) body)
     (case val (doBytes E c m ep b wr) w of Inl _ \<Rightarrow> [] | Inr body \<Rightarrow> [body])"
  using attempts_answered [of E c m ep b wr 1 "maxAttempts - 1" w]
  by (simp add: doBytes_def split: sum.split)

section \<open>Errors\<close>

definition throttled :: "http_response \<Rightarrow> bool" where
  "throttled r \<longleftrightarrow> rs_Status r = 429 \<or> rs_Header r ''X-RateLimit-Remaining'' = ''0''"

text \<open>What a failing status says: which sentinel the error is, and whether it is retried.\<close>

definition status_error :: "http_response \<Rightarrow> go_error" where
  "status_error r =
     (if throttled r then ErrRateLimited
      else if rs_Status r = 401 \<or> rs_Status r = 403 then ErrUnauthorized
      else if rs_Status r = 404 then ErrNotFound
      else ErrProviderUnavailable)"

text \<open>A response is a success exactly if its status is from 200 to 299, and then the body is
  handed on. Any other one is an error that \<open>errors.Is\<close> matches with one sentinel alone: rate limited
  for status 429 or an exhausted quota, unauthorized for 401 and 403, not found for 404, unavailable for
  the rest; it is retried exactly if it is a throttle or a status of at least 500.\<close>

theorem classify_spec:
  "(if 200 \<le> rs_Status r \<and> rs_Status r < 300 then classify r body = Inr body
    else \<exists>e retry. classify r body = Inl (retry, e) \<and>
      retry = (throttled r \<or> 500 \<le> rs_Status r) \<and>
      filter (errors_Is e) [ErrUnauthorized, ErrRateLimited, ErrLogsUnavailable, ErrProviderUnavailable,
        ErrNotFound, ErrWriteTokenRequired] = [status_error r])"
  by (auto simp: classify_def Let_def throttled_def status_error_def sentinel_defs)

lemma classify_not_logs: "classify r body = Inl (retry, e) \<Longrightarrow> \<not> errors_Is e ErrLogsUnavailable \<and> e \<noteq> ErrNotFound"
  by (auto simp: classify_def Let_def sentinel_defs wrap_with_def split: if_splits)

lemma doOnce_not_logs:
  "val (doOnce E c m ep b wr) w = Inl (retry, e) \<Longrightarrow> \<not> errors_Is e ErrLogsUnavailable \<and> e \<noteq> ErrNotFound"
  by (auto simp: doOnce_def wrap_in_def sentinel_defs split: sum.splits dest!: classify_not_logs)

lemma ctx_Err_not_logs: "\<not> errors_Is (ctx_Err d) ErrLogsUnavailable \<and> ctx_Err d \<noteq> ErrNotFound"
  by (cases d) (simp_all add: ctx_Err_def sentinel_defs)

lemma attempts_not_logs:
  "val (attempts E (doOnce E c m ep b wr) k left) w = Inl e \<Longrightarrow> \<not> errors_Is e ErrLogsUnavailable \<and> e \<noteq> ErrNotFound"
proof (induction left arbitrary: k w)
  case 0
  then show ?case
    using doOnce_not_logs [of E c m ep b wr w]
    by (auto simp: attempts.simps [of _ _ _ 0] split: sum.splits prod.splits)
next
  case (Suc left)
  then show ?case
    using doOnce_not_logs [of E c m ep b wr w] ctx_Err_not_logs
    by (auto simp: attempts.simps [of _ _ _ "Suc left"] split: sum.splits prod.splits if_splits option.splits)
qed

lemma doBytes_not_logs:
  "val (doBytes E c m ep b wr) w = Inl e \<Longrightarrow> \<not> errors_Is e ErrLogsUnavailable \<and> e \<noteq> ErrNotFound"
  unfolding doBytes_def by (rule attempts_not_logs)

text \<open>\<open>DownloadRunLogs\<close> reports the logs as unavailable only for a response that succeeded and whose
  body is empty or unreadable. An error of the request itself is passed on as it is: in particular a
  status of 404, which comes wrapped, is never turned into \<open>ErrLogsUnavailable\<close>, although the code
  compares the error with \<open>ErrNotFound\<close> to do that.\<close>

theorem DownloadRunLogs_request_error:
  "(case val (doBytes E c MethodGet (runs_path owner repo @ ''/'' @ Itoa runID @ ''/logs'') [] False) w of
      Inl e \<Rightarrow> val (DownloadRunLogs E c owner repo runID maxBytes) w = Inl e \<and> \<not> errors_Is e ErrLogsUnavailable
    | Inr body \<Rightarrow> (case val (DownloadRunLogs E c owner repo runID maxBytes) w of
          Inl e \<Rightarrow> e = ErrLogsUnavailable \<and> (body = [] \<or> isl (unzipOrText E body (log_limit maxBytes)))
        | Inr text \<Rightarrow> body \<noteq> [] \<and> unzipOrText E body (log_limit maxBytes) = Inr text))"
  using doBytes_not_logs [of E c MethodGet "runs_path owner repo @ ''/'' @ Itoa runID @ ''/logs''" "[]" False w]
  by (auto simp: DownloadRunLogs_def split: sum.splits)

section \<open>Tokens\<close>

lemma map_of_Set: "map_of (Set k v q) k' = (if k' = k then Some v else map_of q k')"
  by (induction q) (auto simp: Set_def)

text \<open>What a read may do: GET requests without a body, with the read token or none, and waits.\<close>

definition read_event :: "Client \<Rightarrow> event \<Rightarrow> bool" where
  "read_event c e \<longleftrightarrow>
     (case e of
        Requested rq \<Rightarrow>
          rq_Method rq = MethodGet \<and> rq_Body rq = [] \<and> prefix (cl_baseURL c) (rq_URL rq) \<and>
          map_of (rq_Header rq) ''Authorization'' =
            (if cl_readToken c = '''' then None else Some (bearer (cl_readToken c)))
      | Waited _ \<Rightarrow> True
      | _ \<Rightarrow> False)"

lemma read_event_request [simp]: "read_event c (Requested (build_request c MethodGet ep [] False))"
  by (simp add: read_event_def build_request_def request_header_def Let_def map_of_Set)

lemma read_event_wait [simp]: "read_event c (Waited d)"
  by (simp add: read_event_def)

text \<open>
  What the calls of the client do to the world, from what one request and one wait do: the reads are
  made of GET requests without a body.
\<close>

lemma retried_moves:
  assumes "effect R" "moves R once" "\<And>d. moves R (wait E d)"
  shows "moves R (attempts E once k n)"
proof (induction n arbitrary: k)
  case 0
  show ?case
    by (subst attempts.simps) (auto intro!: effect.rules [OF assms(1)] assms(2) split: sum.split prod.split)
next
  case (Suc n)
  show ?case
    by (subst attempts.simps)
       (auto intro!: effect.rules [OF assms(1)] assms(2,3) Suc split: sum.split prod.split option.split)
qed

locale client_effect = effect R for R +
  fixes E :: env and c :: Client
  assumes get: "moves R (http_Do E (build_request c MethodGet ep [] False))"
    and waits: "moves R (wait E d)"
begin

lemma doBytes_reads: "moves R (doBytes E c MethodGet ep [] False)"
  unfolding doBytes_def doOnce_def
  by (intro retried_moves effect_axioms rules get waits)

lemma doJSON_reads: "moves R (doJSON E c MethodGet ep [] False dec z)"
  unfolding doJSON_def by (intro rules doBytes_reads)

lemma pages_moves: "(\<And>p. moves R (fetch p)) \<Longrightarrow> moves R (pages fetch k cont n p acc)"
proof (induction n arbitrary: p acc)
  case 0
  show ?case using ret_moves by simp
next
  case (Suc n)
  show ?case unfolding pages.simps by (intro rules Suc)
qed

lemma reads:
  "moves R (GetRun E c ow rp i)"
  "moves R (ListRunJobs E c ow rp i)"
  "moves R (ListRepositoryRuns E c ow rp opts n)"
  "moves R (GetCheckRun E c ow rp i)"
  "moves R (GetCheckRunAnnotations E c ow rp i)"
  "moves R (ListDeploymentBranchPolicies E c ow rp s)"
  "moves R (DownloadRunLogs E c ow rp i n)"
  unfolding GetRun_def ListRunJobs_def ListRepositoryRuns_def GetCheckRun_def GetCheckRunAnnotations_def
    ListDeploymentBranchPolicies_def DownloadRunLogs_def jobs_page_def runs_page_def
  by (intro rules pages_moves doJSON_reads doBytes_reads)+

end

lemma http_Do_quiet: "P (Requested rq) \<Longrightarrow> moves (quiet P) (http_Do E rq)"
  unfolding http_Do_def by (intro quiet.rules) simp

lemma wait_quiet: "P (Waited d) \<Longrightarrow> moves (quiet P) (wait E d)"
  unfolding wait_def by (intro quiet.rules) simp

interpretation client_reads: client_effect "quiet (read_event c)" E c for c E
  by unfold_locales (simp_all add: http_Do_quiet wait_quiet)

text \<open>No read call of the client sends anything but GET requests under its base URL, with an empty
  body and the read token as the only credential: the write token never leaves with a read.\<close>

theorem reads_use_read_token:
  "emits (read_event c) (GetRun E c owner repo i) \<and>
   emits (read_event c) (ListRunJobs E c owner repo i) \<and>
   emits (read_event c) (ListRepositoryRuns E c owner repo opts n) \<and>
   emits (read_event c) (GetCheckRun E c owner repo i) \<and>
   emits (read_event c) (GetCheckRunAnnotations E c owner repo i) \<and>
   emits (read_event c) (ListDeploymentBranchPolicies E c owner repo s) \<and>
   emits (read_event c) (DownloadRunLogs E c owner repo i n)"
  by (intro conjI quiet_emits client_reads.reads)

definition rerun_event :: "Client \<Rightarrow> string \<Rightarrow> string \<Rightarrow> int \<Rightarrow> bool \<Rightarrow> event \<Rightarrow> bool" where
  "rerun_event c owner repo i failed e \<longleftrightarrow>
     (case e of
        Requested rq \<Rightarrow>
          rq_Method rq = MethodPost \<and> rq_Body rq = rerun_payload \<and>
          rq_URL rq = cl_baseURL c @ rerun_endpoint owner repo i failed \<and>
          map_of (rq_Header rq) ''Authorization'' = Some (bearer (cl_writeToken c))
      | Waited _ \<Rightarrow> True
      | _ \<Rightarrow> False)"

lemma Rerun_posts:
  assumes "TrimSpace (cl_writeToken c) \<noteq> ''''"
  shows "moves (quiet (rerun_event c owner repo i failed)) (Rerun E c owner repo i failed)"
proof -
  let ?P = "rerun_event c owner repo i failed"
  from assms have "cl_writeToken c \<noteq> ''''" by auto
  then have "?P (Requested (build_request c MethodPost (rerun_endpoint owner repo i failed) rerun_payload True))"
    by (simp add: rerun_event_def build_request_def request_header_def Let_def map_of_Set)
  then have "moves (quiet ?P) (doOnce E c MethodPost (rerun_endpoint owner repo i failed) rerun_payload True)"
    unfolding doOnce_def by (intro quiet.rules http_Do_quiet)
  then show ?thesis
    unfolding Rerun_def doJSON_discard_def doBytes_def
    by (intro quiet.rules retried_moves quiet.effect_axioms wait_quiet) (simp_all add: rerun_event_def)
qed

lemma Rerun_moves: "moves (quiet (rerun_event c owner repo i failed)) (Rerun E c owner repo i failed)"
proof (cases "TrimSpace (cl_writeToken c) = ''''")
  case True
  then show ?thesis by (simp add: Rerun_def quiet.ret_moves)
qed (rule Rerun_posts)

text \<open>A rerun without a write token fails before anything is sent. With one, it sends only POST
  requests to the rerun endpoint of that run, with the write token.\<close>

theorem Rerun_requests:
  "if TrimSpace (cl_writeToken c) = '''' then Rerun E c owner repo i failed = ret (Inl ErrWriteTokenRequired)
   else emits (rerun_event c owner repo i failed) (Rerun E c owner repo i failed)"
  using Rerun_posts [of c owner repo i failed E] by (auto simp: Rerun_def intro: quiet_emits)

section \<open>Paging\<close>

text \<open>Page \<open>p\<close> of a list served \<open>k\<close> entries at a time.\<close>

definition page_of :: "nat \<Rightarrow> 'a list \<Rightarrow> int \<Rightarrow> 'a list" where
  "page_of k xs p = take k (drop (nat (p - 1) * k) xs)"


lemma nat_pred_mult: "1 \<le> p \<Longrightarrow> nat p * k = nat (p - 1) * k + k"
  by (cases "nat p") (simp_all add: nat_diff_distrib)

lemma pages_serves:
  assumes "\<And>w p'. p \<le> p' \<Longrightarrow> p' < p + int n \<Longrightarrow> val (fetch p') w = Inr (page_of k xs p')"
    and "1 \<le> p" "0 < k" "nat (p - 1) * k \<le> length xs"
  shows "\<exists>j. val (pages fetch (int k) cont n p (take (nat (p - 1) * k) xs)) w = Inr (take j xs) \<and>
    j \<le> nat (p - 1 + int n) * k \<and>
    (j = nat (p - 1 + int n) * k \<or> length xs \<le> j \<or> \<not> cont j)"
  using assms
proof (induction n arbitrary: p w)
  case 0
  then show ?case by auto
next
  case (Suc n)
  let ?a = "take (nat (p - 1) * k) xs" and ?x = "page_of k xs p"
  have len: "length ?a = nat (p - 1) * k" using Suc.prems by simp
  have eq: "nat p * k = nat (p - 1) * k + k" using Suc.prems by (intro nat_pred_mult)
  have app: "?a @ ?x = take (nat p * k) xs" unfolding eq by (simp add: page_of_def take_add)
  have mono: "nat (p - 1) * k \<le> nat (p - 1 + int (Suc n)) * k" "nat p * k \<le> nat (p - 1 + int (Suc n)) * k"
    by (intro mult_right_mono nat_mono; simp)+
  show ?case
  proof (cases "cont (length ?a)")
    case False
    with len mono show ?thesis by (intro exI [of _ "nat (p - 1) * k"]) simp
  next
    case True
    have v: "val (fetch p) w = Inr ?x" for w using Suc.prems by simp
    show ?thesis
    proof (cases "length ?x < k")
      case True
      then have all: "length xs \<le> nat p * k" "?a @ ?x = xs"
        unfolding app using eq by (auto simp: page_of_def split: if_splits)
      moreover have "?x = [] \<Longrightarrow> ?a = xs" using all(2) by simp
      ultimately show ?thesis
        using \<open>cont (length ?a)\<close> True v mono
        by (intro exI [of _ "nat p * k"]) (auto simp: and_then_simps)
    next
      case False
      then have full: "length ?x = k" "nat p * k \<le> length xs"
        using eq Suc.prems(3,4) by (auto simp: page_of_def min_def split: if_splits)
      have p1: "nat (p + 1 - 1) = nat p" "p + 1 - 1 + int n = p - 1 + int (Suc n)" by simp_all
      have "\<exists>j. val (pages fetch (int k) cont n (p + 1) (take (nat (p + 1 - 1) * k) xs)) (after (fetch p) w) = Inr (take j xs) \<and>
          j \<le> nat (p + 1 - 1 + int n) * k \<and> (j = nat (p + 1 - 1 + int n) * k \<or> length xs \<le> j \<or> \<not> cont j)"
        by (rule Suc.IH) (use Suc.prems full(2) in auto)
      then show ?thesis
        using \<open>cont (length ?a)\<close> full v Suc.prems(3) unfolding p1 app [symmetric]
        by (auto simp: and_then_simps)
    qed
  qed
qed

lemma clamp_perPage: "1 \<le> go_PerPage (clamp_options opts) \<and> go_PerPage (clamp_options opts) \<le> defaultPerPage"
  by (simp add: clamp_options_def defaultPerPage_def)

lemma clamp_runs_pos: "1 \<le> clamp_runs n"
  by (simp add: clamp_runs_def defaultPerPage_def)

lemma cap_take: "(if m < int (length r) then take (nat m) r else r) = take (nat m) r"
  by auto


lemma ListRunJobs_serves:
  assumes "\<And>p w. 1 \<le> p \<Longrightarrow> p \<le> 10 \<Longrightarrow> val (jobs_page E c owner repo i p) w = Inr (page_of 100 xs p)"
  shows "val (ListRunJobs E c owner repo i) w = Inr (take 1000 xs)"
proof -
  obtain j where "val (ListRunJobs E c owner repo i) w = Inr (take j xs)" "j \<le> 1000" "j = 1000 \<or> length xs \<le> j"
    using pages_serves [of 1 10 "jobs_page E c owner repo i" 100 xs "\<lambda>_. True" w] assms
    by (auto simp: ListRunJobs_def defaultPerPage_def)
  then show ?thesis by auto
qed

text \<open>A server whose answers depend on the request alone.\<close>

lemma doBytes_ok:
  assumes "url_Parse (cl_baseURL c @ ep) = Inr u" "\<And>tr. e_http E tr (build_request c m ep b wr) = Inr r"
    "200 \<le> rs_Status r" "rs_Status r < 300" "rs_Body r = Inr body"
  shows "val (doBytes E c m ep b wr) w = Inr body"
proof -
  have "val (doOnce E c m ep b wr) w = Inr body" using assms by (simp add: doOnce_def classify_def)
  then show ?thesis by (simp add: doBytes_attempts attempts_unfold)
qed

definition quiet_env :: env where
  "quiet_env = \<lparr>e_http = \<lambda>_ _. Inl ''connection refused'', e_done = \<lambda>_. None, e_now = \<lambda>_. 0,
     e_os = \<lambda>_ _. None, e_zip = \<lambda>_. None,
     e_float = \<lambda>_. ''0'', e_order = \<lambda>_ ks. ks\<rparr>"

definition ok_response :: "string \<Rightarrow> http_response" where
  "ok_response body = \<lparr>rs_Status = 200, rs_Header = \<lambda>_. [], rs_Body = Inr body\<rparr>"

definition serving :: "(string \<Rightarrow> string) \<Rightarrow> env" where
  "serving body = quiet_env\<lparr>e_http := \<lambda>_ rq. Inr (ok_response (body (rq_URL rq)))\<rparr>"

lemma serving_doJSON:
  assumes "url_Parse (cl_baseURL c @ ep) = Inr u" "body (cl_baseURL c @ ep) \<noteq> []"
    "Unmarshal dec (body (cl_baseURL c @ ep)) = Some x"
  shows "val (doJSON (serving body) c m ep b wr dec z) w = Inr x"
proof -
  have "val (doBytes (serving body) c m ep b wr) w = Inr (body (cl_baseURL c @ ep))"
    by (rule doBytes_ok [where r = "ok_response (body (cl_baseURL c @ ep))", OF assms(1)])
       (simp_all add: serving_def ok_response_def build_request_def)
  with assms show ?thesis by (simp add: doJSON_def and_then_simps)
qed

definition sample_client :: Client where
  "sample_client = NewClient ''https://api.github.com'' ''r'' ''w'' ''ua'' 0"

definition sample_options :: ListRunsOptions_gh where
  "sample_options = \<lparr>go_PerPage = 0, go_Page = 0, go_Created = [], go_Branch = [], go_Event = [], go_Status = ''failure''\<rparr>"

text \<open>A server with one run: it is on page 1, the other pages are empty.\<close>

definition json_field :: "string \<Rightarrow> string \<Rightarrow> string" where
  "json_field k v = [dquote] @ k @ [dquote] @ '':'' @ v"

definition one_run_body :: "string \<Rightarrow> string" where
  "one_run_body url =
     ''{'' @ json_field ''workflow_runs''
       (if sublist ''page=1&'' url then ''[{'' @ json_field ''id'' ''7'' @ ''}]'' else ''[]'') @ ''}''"

definition one_run :: WorkflowRun where "one_run = zero_run\<lparr>wr_ID := 7\<rparr>"

definition sample_page_ok :: "int \<Rightarrow> bool" where
  "sample_page_ok p \<longleftrightarrow>
     (let u = cl_baseURL sample_client @ runs_path ''o'' ''r'' @ ''?'' @
            Encode (runs_query (clamp_options sample_options) p) in
      (case url_Parse u of Inl _ \<Rightarrow> False | Inr _ \<Rightarrow> True) \<and>
      (case Unmarshal dec_listRunsResponse (one_run_body u) of
         None \<Rightarrow> False | Some r \<Rightarrow> lr_WorkflowRuns r = page_of 100 [one_run] p))"

lemma sample_pages: "list_all sample_page_ok [1,2,3,4,5,6,7,8,9,10]"
  by code_simp


section \<open>The size of the logs\<close>

lemma zip_files_bound:
  "zip_files m buf fs = Inr t \<Longrightarrow> int (length buf) \<le> m \<Longrightarrow>
   int (length t) \<le> m \<or> (\<exists>f \<in> set fs. int (length t) < m + int (length (log_header (ze_Name f))))"
proof (induction m buf fs rule: zip_files.induct)
  case (2 m buf f fs)
  let ?b = "buf @ log_header (ze_Name f)"
  let ?r = "m - int (length ?b)"
  show ?case
  proof (cases "HasSuffix (ze_Name f) ''/'' \<or> m - int (length buf) \<le> 0 \<or> \<not> ze_Opens f")
    case True
    with 2 show ?thesis by (auto split: if_splits)
  next
    case False
    show ?thesis
    proof (cases "?r \<le> 0")
      case True
      with False "2.prems" have "t = ?b" by (simp add: Let_def)
      with False show ?thesis by auto
    next
      case pos: False
      define b2 where "b2 = ?b @ take (nat ?r) (ze_Data f)"
      have len: "int (length b2) \<le> m" using pos by (simp add: b2_def)
      have step: "zip_files m buf (f # fs) =
          (if int (length (ze_Data f)) < ?r \<and> ze_ReadError f \<noteq> None then Inl (Errorf (the (ze_ReadError f)))
           else if m \<le> int (length b2) then Inr b2 else zip_files m b2 fs)"
        using False pos by (simp add: Let_def b2_def)
      then consider "t = b2" | "zip_files m b2 fs = Inr t"
          "\<not> m \<le> int (length b2)" "\<not> (int (length (ze_Data f)) < ?r \<and> ze_ReadError f \<noteq> None)"
        using "2.prems"(1) unfolding step by (metis Inl_Inr_False Inr_inject)
      then show ?thesis
      proof cases
        case 1
        with len show ?thesis by simp
      next
        case 2
        moreover from this False pos len
        have "int (length t) \<le> m \<or> (\<exists>f \<in> set fs. int (length t) < m + int (length (log_header (ze_Name f))))"
          unfolding b2_def by (intro "2.IH"(3) [OF _ _ _ refl refl _ _ refl]) simp_all
        ultimately show ?thesis by auto
      qed
    qed
  qed
qed simp

text \<open>C38. The text taken from the logs of a run keeps to the limit (one megabyte if it is not positive),
  but for the separator line of the last archive entry, which is written in full.\<close>

theorem unzipOrText_bound:
  "case unzipOrText E body maxBytes of
     Inl _ \<Rightarrow> e_zip E body \<noteq> None
   | Inr text \<Rightarrow> int (length text) \<le> log_limit maxBytes \<or>
       (\<exists>files f. e_zip E body = Some files \<and> f \<in> set files \<and>
          int (length text) < log_limit maxBytes + int (length (log_header (ze_Name f))))"
proof (cases "e_zip E body")
  case None
  then show ?thesis by (auto simp: unzipOrText_def Let_def log_limit_def)
next
  case (Some files)
  show ?thesis
  proof (cases "zip_files (log_limit maxBytes) [] files")
    case (Inl e)
    with Some show ?thesis by (simp add: unzipOrText_def)
  next
    case (Inr t)
    have "0 \<le> log_limit maxBytes" by (simp add: log_limit_def)
    with zip_files_bound [OF Inr] Some Inr show ?thesis
      by (auto simp: unzipOrText_def Let_def)
  qed
qed

text \<open>So the limit can be exceeded: ten bytes allowed, fifteen returned.\<close>

lemma unzipOrText_exceeds:
  "unzipOrText (quiet_env\<lparr>e_zip := \<lambda>_. Some [\<lparr>ze_Name = ''1'', ze_Opens = True, ze_Data = ''x'', ze_ReadError = None\<rparr>]\<rparr>)
     ''PK'' 10 = Inr (log_header ''1'') \<and> 10 < length (log_header ''1'')"
  by (simp add: unzipOrText_def quiet_env_def log_limit_def log_header_def suffix_to_prefix)

end
