(* ===== verification/Client_Calls.thy ===== *)
theory Client_Calls
  imports Client
begin

text \<open>
  What a call of internal/githubapi/client.go may cost, and what it survives: every operation of the client
  ends after a bounded number of requests and of waiting, and a call whose request is answered at one of the
  three tries returns that answer, if what went wrong before was transient.
\<close>

section \<open>Cost\<close>

definition requests :: "event list \<Rightarrow> nat" where
  "requests tr = length (filter (\<lambda>e. case e of Requested _ \<Rightarrow> True | _ \<Rightarrow> False) tr)"

definition waited :: "event list \<Rightarrow> duration" where
  "waited tr = sum_list (map (\<lambda>e. case e of Waited d \<Rightarrow> d | _ \<Rightarrow> 0) tr)"

text \<open>At most \<open>n\<close> calls' worth of requests and waits: three requests and one second each.\<close>

definition effort :: "nat \<Rightarrow> world \<Rightarrow> world \<Rightarrow> bool" where
  "effort n w w' \<longleftrightarrow>
     (\<exists>tr. w_trace w' = w_trace w @ tr \<and> requests tr \<le> 3 * n \<and> waited tr \<le> int n * second)"

lemma effort_refl: "effort n w w"
  by (auto simp: effort_def requests_def waited_def second_def)

lemma effort_trans: "effort m u v \<Longrightarrow> effort n v w \<Longrightarrow> effort (m + n) u w"
  unfolding effort_def requests_def waited_def second_def
  by (elim exE) (rule_tac x = "tr @ tra" in exI, simp)

lemma effort_ret: "moves (effort n) (ret x)"
  by (simp add: moves_def effort_refl)

lemma effort_and_then:
  "moves (effort m) a \<Longrightarrow> (\<And>x. moves (effort n) (f x)) \<Longrightarrow> moves (effort (m + n)) (and_then a f)"
  by (auto simp: moves_def and_then_simps split: sum.split intro: effort_trans effort_trans [OF _ effort_refl])

lemma effort_and_then_ret: "moves (effort n) a \<Longrightarrow> moves (effort n) (and_then a (\<lambda>x. ret (f x)))"
  by (simp add: moves_def and_then_simps split: sum.split)

lemma effort_take:
  "n \<le> 5 \<Longrightarrow> requests (take n [Requested rq, Waited (200 * millisecond), Requested rq,
       Waited (800 * millisecond), Requested rq]) \<le> 3 \<and>
     waited (take n [Requested rq, Waited (200 * millisecond), Requested rq,
       Waited (800 * millisecond), Requested rq]) \<le> second"
  by (simp add: requests_def waited_def second_def millisecond_def take_Cons' split: nat.split)

lemma doBytes_effort: "moves (effort 1) (doBytes E c m ep b wr)"
proof (unfold moves_def, intro allI)
  fix w
  obtain n where "n \<le> 5" "w_trace (after (doBytes E c m ep b wr) w) = w_trace w @
     take n [Requested (build_request c m ep b wr), Waited (200 * millisecond),
             Requested (build_request c m ep b wr), Waited (800 * millisecond),
             Requested (build_request c m ep b wr)]"
    using retry_sequence by blast
  with effort_take show "effort 1 w (after (doBytes E c m ep b wr) w)"
    unfolding effort_def by fastforce
qed

lemma doJSON_effort: "moves (effort 1) (doJSON E c m ep b wr dec z)"
  unfolding doJSON_def by (intro effort_and_then_ret doBytes_effort)

lemma doJSON_then_effort: "moves (effort 1) (and_then (doJSON E c m ep b wr dec z) (\<lambda>x. ret (f x)))"
  by (intro effort_and_then_ret doJSON_effort)

lemma pages_effort: "(\<And>p. moves (effort 1) (fetch p)) \<Longrightarrow> moves (effort n) (pages fetch k cont n p acc)"
proof (induction n arbitrary: p acc)
  case 0
  show ?case by (simp add: effort_ret)
next
  case (Suc n)
  have "moves (effort (1 + n)) (and_then (fetch p) (\<lambda>xs.
        if xs = [] then ret (Inr acc)
        else if int (length xs) < k then ret (Inr (acc @ xs))
        else pages fetch k cont n (p + 1) (acc @ xs)))"
    by (rule effort_and_then, rule Suc.prems) (simp add: Suc.IH Suc.prems [simplified] effort_ret)
  then show ?case by (simp add: effort_ret)
qed

text \<open>C28. Every operation of the client ends after a bounded effort, whatever GitHub answers: at most three
  requests and one second of waiting for a single call, and ten times that for the two that list page by page.\<close>

theorem calls_bounded:
  "moves (effort 10) (ListRunJobs E c owner repo i) \<and>
   moves (effort 10) (ListRepositoryRuns E c owner repo opts n) \<and>
   moves (effort 1) (GetRun E c owner repo i) \<and>
   moves (effort 1) (GetCheckRun E c owner repo i) \<and>
   moves (effort 1) (GetCheckRunAnnotations E c owner repo i) \<and>
   moves (effort 1) (ListDeploymentBranchPolicies E c owner repo s) \<and>
   moves (effort 1) (DownloadRunLogs E c owner repo i n) \<and>
   moves (effort 1) (Rerun E c owner repo i failed)"
proof (intro conjI)
  show "moves (effort 10) (ListRunJobs E c owner repo i)"
    unfolding ListRunJobs_def jobs_page_def by (intro pages_effort doJSON_then_effort)
  show "moves (effort 10) (ListRepositoryRuns E c owner repo opts n)"
    unfolding ListRepositoryRuns_def runs_page_def Let_def
    by (intro effort_and_then_ret pages_effort doJSON_then_effort)
  show "moves (effort 1) (DownloadRunLogs E c owner repo i n)"
    using doBytes_effort by (simp add: DownloadRunLogs_def moves_def)
  show "moves (effort 1) (Rerun E c owner repo i failed)"
    unfolding Rerun_def doJSON_discard_def
    by (cases "TrimSpace (cl_writeToken c) = ''''")
      (simp_all only: simp_thms if_True if_False effort_ret effort_and_then_ret doBytes_effort)
qed (simp_all only: GetRun_def GetCheckRun_def GetCheckRunAnnotations_def ListDeploymentBranchPolicies_def
  doJSON_effort doJSON_then_effort)

section \<open>Recovery\<close>

text \<open>The trace behind the request of try \<open>n\<close>, if the tries before it were made.\<close>

definition try_trace :: "http_request \<Rightarrow> nat \<Rightarrow> event list" where
  "try_trace rq n = take (2 * n - 1)
     [Requested rq, Waited (200 * millisecond), Requested rq, Waited (800 * millisecond), Requested rq]"

text \<open>
  A failure that another try may mend: the request got no response, or a complete one that is a throttle or
  a server error.
\<close>

definition transient :: "string + http_response \<Rightarrow> bool" where
  "transient r \<longleftrightarrow>
     (case r of
        Inl _ \<Rightarrow> True
      | Inr resp \<Rightarrow> \<not> isl (rs_Body resp) \<and> (throttled resp \<or> 500 \<le> rs_Status resp) \<and>
          \<not> (200 \<le> rs_Status resp \<and> rs_Status resp < 300))"

definition answers_with :: "string + http_response \<Rightarrow> string \<Rightarrow> bool" where
  "answers_with r body \<longleftrightarrow>
     (\<exists>resp. r = Inr resp \<and> rs_Body resp = Inr body \<and> 200 \<le> rs_Status resp \<and> rs_Status resp < 300)"

lemma doOnce_transient:
  assumes "\<not> isl (url_Parse (cl_baseURL c @ ep))"
    and "transient (e_http E (w_trace w @ [Requested (build_request c m ep b wr)]) (build_request c m ep b wr))"
  shows "\<exists>e. val (doOnce E c m ep b wr) w = Inl (True, e)"
  using assms
  by (auto simp: doOnce_def transient_def classify_def throttled_def Let_def split: sum.splits)

lemma doOnce_answers:
  assumes "\<not> isl (url_Parse (cl_baseURL c @ ep))"
    and "answers_with (e_http E (w_trace w @ [Requested (build_request c m ep b wr)]) (build_request c m ep b wr)) body"
  shows "val (doOnce E c m ep b wr) w = Inr body"
  using assms by (auto simp: doOnce_def answers_with_def classify_def split: sum.splits)

lemma after_doOnce_ok:
  "\<not> isl (url_Parse (cl_baseURL c @ ep)) \<Longrightarrow>
   after (doOnce E c m ep b wr) w = w\<lparr>w_trace := w_trace w @ [Requested (build_request c m ep b wr)]\<rparr>"
  by (auto simp: after_doOnce split: sum.split)

text \<open>C29. A call recovers from transient failures: if one of the three tries is answered with a success, every
  try before it failed for a transient reason, and the context is not done, the call returns the body of that
  answer.\<close>

theorem doBytes_recovers:
  assumes "\<not> isl (url_Parse (cl_baseURL c @ ep))" "rq = build_request c m ep b wr" "1 \<le> n" "n \<le> 3"
    and "\<And>k. 1 \<le> k \<Longrightarrow> k < n \<Longrightarrow> transient (e_http E (w_trace w @ try_trace rq k) rq)"
    and "\<And>tr. e_done E tr = None"
    and "answers_with (e_http E (w_trace w @ try_trace rq n) rq) body"
  shows "val (doBytes E c m ep b wr) w = Inr body"
proof -
  have b: "backoff 1 = 200 * millisecond" "backoff 2 = 800 * millisecond" by (simp_all add: backoff_def)
  note run = doBytes_attempts attempts_unfold b after_doOnce_ok [OF assms(1)] assms(6)
  note fails = doOnce_transient [OF assms(1), of E _ m b wr]
  note ok = doOnce_answers [OF assms(1), of E _ m b wr body]
  let ?w1 = "w\<lparr>w_trace := w_trace w @ [Requested rq, Waited (200 * millisecond)]\<rparr>"
  let ?w2 = "w\<lparr>w_trace := w_trace w @ [Requested rq, Waited (200 * millisecond), Requested rq, Waited (800 * millisecond)]\<rparr>"
  consider "n = 1" | "n = 2" | "n = 3" using assms(3,4) by linarith
  then show ?thesis
  proof cases
    case 1
    then have "val (doOnce E c m ep b wr) w = Inr body"
      using assms(7) by (intro ok) (simp add: try_trace_def assms(2))
    then show ?thesis by (simp add: run)
  next
    case 2
    then obtain e where "val (doOnce E c m ep b wr) w = Inl (True, e)"
      using fails [of w] assms(5) [of 1] by (auto simp: try_trace_def assms(2))
    moreover have "val (doOnce E c m ep b wr) ?w1 = Inr body"
      using assms(7) 2 by (intro ok) (simp add: try_trace_def assms(2) numeral_3_eq_3)
    ultimately show ?thesis by (simp add: run assms(2))
  next
    case 3
    then obtain e where "val (doOnce E c m ep b wr) w = Inl (True, e)"
      using fails [of w] assms(5) [of 1] by (auto simp: try_trace_def assms(2))
    moreover obtain e' where "val (doOnce E c m ep b wr) ?w1 = Inl (True, e')"
      using fails [of ?w1] assms(5) [of 2] 3 by (auto simp: try_trace_def assms(2) numeral_3_eq_3)
    moreover have "val (doOnce E c m ep b wr) ?w2 = Inr body"
      using assms(7) 3 by (intro ok) (simp add: try_trace_def assms(2) eval_nat_numeral)
    ultimately show ?thesis by (simp add: run assms(2))
  qed
qed

text \<open>The connection breaks down, then the server is busy, then it answers.\<close>

definition recovering :: env where
  "recovering = quiet_env\<lparr>e_http := \<lambda>tr _.
     if requests tr = 1 then Inl ''connection reset''
     else if requests tr = 2 then Inr (ok_response []\<lparr>rs_Status := 503\<rparr>) else Inr (ok_response ''{}'')\<rparr>"

theorem doBytes_recovers_witness:
  "val (doBytes recovering sample_client MethodGet ''/rate_limit'' [] False) empty_world = Inr ''{}''"
proof (rule doBytes_recovers [where n = 3, OF _ refl])
  show "\<not> isl (url_Parse (cl_baseURL sample_client @ ''/rate_limit''))" by code_simp
next
  fix k :: nat
  assume "1 \<le> k" "k < 3"
  then have "k = 1 \<or> k = 2" by auto
  then show "transient (e_http recovering (w_trace empty_world @
      try_trace (build_request sample_client MethodGet ''/rate_limit'' [] False) k)
      (build_request sample_client MethodGet ''/rate_limit'' [] False))"
    by (auto simp: recovering_def requests_def try_trace_def empty_world_def transient_def ok_response_def
        numeral_3_eq_3)
qed (simp_all add: recovering_def quiet_env_def requests_def try_trace_def empty_world_def answers_with_def
  ok_response_def eval_nat_numeral)

end
