(* ===== verification/Locator.thy ===== *)
theory Locator
  imports GitHub_Types
begin

text \<open>
  internal/githubapi/locator.go: the run URL, repository and check-run URL parsers, each of whose
  errors is a branch with the text the code gives it. A locator the parser accepts prints as a URL
  that the parser reads back; what a repository name looks like on the accepted side is \<open>safe_name\<close>.
\<close>

section \<open>The parsers\<close>

record RunLocator_gh =
  lc_Owner :: string
  lc_Repo :: string
  lc_RunID :: int
  lc_RunURL :: string

definition Repository :: "RunLocator_gh \<Rightarrow> string" where
  "Repository r = lc_Owner r @ ''/'' @ lc_Repo r"

definition run_url :: "string \<Rightarrow> string \<Rightarrow> int \<Rightarrow> string" where
  "run_url owner repo i = ''https://github.com/'' @ owner @ ''/'' @ repo @ ''/actions/runs/'' @ Itoa i"

definition ParseRunURL :: "string \<Rightarrow> RunLocator_gh result" where
  "ParseRunURL raw =
     (if TrimSpace raw = [] then Inl (Errorf ''run_url is required'')
      else case url_Parse (TrimSpace raw) of
        Inl e \<Rightarrow> Inl (wrap_in ''parse run url'' (Errorf e))
      | Inr u \<Rightarrow>
          if \<not> EqualFold (u_Host u) ''github.com'' then Inl (Errorf (''unsupported host '' @ Quote (u_Host u)))
          else
            let segments = split_on (CHR ''/'') (TrimSlash (Clean (u_Path u))) in
            if length segments < 5 \<or> segments ! 2 \<noteq> ''actions'' \<or> segments ! 3 \<noteq> ''runs'' then
              Inl (Errorf ''unsupported run url path'')
            else case ParseInt (segments ! 4) of
              Inl e \<Rightarrow> Inl (wrap_in ''parse run id'' (Errorf (NumError_text ''ParseInt'' (segments ! 4) e)))
            | Inr runID \<Rightarrow>
                Inr \<lparr>lc_Owner = segments ! 0, lc_Repo = segments ! 1, lc_RunID = runID,
                     lc_RunURL = run_url (segments ! 0) (segments ! 1) runID\<rparr>)"

definition ParseRepository :: "string \<Rightarrow> (string \<times> string) result" where
  "ParseRepository repo =
     (let parts = split_on (CHR ''/'') (TrimSpace repo) in
      if length parts \<noteq> 2 \<or> parts ! 0 = '''' \<or> parts ! 1 = '''' then
        Inl (Errorf ''repository must be in owner/repo format'')
      else Inr (parts ! 0, parts ! 1))"

definition bad_check_path :: "int result" where
  "bad_check_path = Inl (Errorf ''unsupported check run url path'')"

text \<open>The part of the path behind the base path, if the base has one.\<close>

definition relative_path :: "string \<Rightarrow> string \<Rightarrow> string option" where
  "relative_path cleanPath basePath =
     (if basePath \<noteq> '''' \<and> basePath \<noteq> ''.'' then
        (if HasPrefix cleanPath (basePath @ ''/'') then Some (TrimPrefix cleanPath (basePath @ ''/'')) else None)
      else Some cleanPath)"

definition check_run_id :: "string \<Rightarrow> int result" where
  "check_run_id relativePath =
     (let segments = split_on (CHR ''/'') relativePath in
      if length segments \<noteq> 5 then bad_check_path
      else if segments ! 0 \<noteq> ''repos'' \<or> segments ! 3 \<noteq> ''check-runs'' then bad_check_path
      else case ParseInt (segments ! 4) of
        Inl e \<Rightarrow> Inl (wrap_in ''parse check run id'' (Errorf (NumError_text ''ParseInt'' (segments ! 4) e)))
      | Inr i \<Rightarrow> Inr i)"

definition ParseCheckRunURLForBase :: "string \<Rightarrow> string \<Rightarrow> int result" where
  "ParseCheckRunURLForBase raw baseURL =
     (if TrimSpace raw = [] then Inl (Errorf ''check_run_url is required'')
      else case url_Parse (TrimSpace raw) of
        Inl e \<Rightarrow> Inl (wrap_in ''parse check run url'' (Errorf e))
      | Inr u \<Rightarrow> (case url_Parse (TrimSpace baseURL) of
          Inl e \<Rightarrow> Inl (wrap_in ''parse github api base url'' (Errorf e))
        | Inr base \<Rightarrow>
            if u_Host base = '''' then Inl (Errorf ''github api base url host is required'')
            else if \<not> EqualFold (u_Host u) (u_Host base) then
              Inl (Errorf (''unsupported host '' @ Quote (u_Host u)))
            else case relative_path (TrimSlash (Clean (u_Path u))) (TrimSlash (Clean (u_Path base))) of
              None \<Rightarrow> bad_check_path
            | Some rel \<Rightarrow> check_run_id rel))"

definition ParseCheckRunURL :: "string \<Rightarrow> int result" where
  "ParseCheckRunURL raw = ParseCheckRunURLForBase raw ''https://api.github.com''"

section \<open>Plain URLs\<close>

text \<open>The characters of a GitHub owner or repository name.\<close>

definition name_char :: "char \<Rightarrow> bool" where
  "name_char c \<longleftrightarrow> is_alnum c \<or> c \<in> set ''-_.''"

definition safe_name :: "string \<Rightarrow> bool" where
  "safe_name s \<longleftrightarrow> s \<noteq> [] \<and> s \<noteq> ''.'' \<and> s \<noteq> ''..'' \<and> list_all name_char s"

lemma name_char_byte: "name_char c \<Longrightarrow> 45 \<le> byte c \<and> byte c < 127"
  by (auto simp: name_char_def is_alnum_def is_digit_def)

lemma name_char_not [simp]:
  "\<not> name_char CHR ''/''" "\<not> name_char CHR ''#''" "\<not> name_char CHR ''?''" "\<not> name_char CHR ''%''"
  "\<not> name_char CHR '':''"
  by (simp_all add: name_char_def is_alnum_def is_digit_def)

lemma names_not_in: "list_all name_char s \<Longrightarrow> \<not> name_char c \<Longrightarrow> c \<notin> set s"
  by (auto simp: list_all_iff)

lemma digit_name_char: "is_digit c \<Longrightarrow> name_char c"
  by (simp add: name_char_def is_alnum_def)

lemma Itoa_safe [simp]: "safe_name (Itoa i)"
proof -
  have "list_all name_char (Itoa i)"
    by (auto simp: list_all_iff dest!: Itoa_chars intro: digit_name_char)
       (simp add: name_char_def)
  moreover have "CHR ''.'' \<notin> set (Itoa i)"
    using Itoa_chars [of "CHR ''.''" i] by (auto simp: is_digit_def)
  ultimately show ?thesis by (auto simp: safe_name_def)
qed

lemma safe_name_visible [simp]: "safe_name s \<Longrightarrow> visible s"
  by (auto simp: safe_name_def visible_def list_all_iff dest!: name_char_byte)

lemma unescape_plain: "list_all (\<lambda>c. c \<noteq> CHR ''%'') s \<Longrightarrow> unescape encodePath s = Inr s"
  by (induction s) simp_all

text \<open>A URL of scheme https, a plain host and a plain path is taken apart as it reads.\<close>

definition path_char :: "char \<Rightarrow> bool" where
  "path_char c \<longleftrightarrow> name_char c \<or> c = CHR ''/''"

lemma path_char_plain:
  "path_char c \<Longrightarrow> c \<noteq> CHR ''#'' \<and> c \<noteq> CHR ''?'' \<and> c \<noteq> CHR ''%'' \<and> \<not> is_ctl c"
  by (auto simp: path_char_def is_ctl_def dest: name_char_byte)

lemma takeWhile_none: "list_all (\<lambda>x. x \<noteq> c) s \<Longrightarrow> Cut c s = (s, None)"
  by (induction s) (auto simp: Cut_def)

lemma host_char_escape: "name_char c \<Longrightarrow> \<not> shouldEscape c encodeHost \<and> c \<noteq> CHR ''%''"
proof (cases "is_alnum c")
  case True
  then show ?thesis by (auto simp: shouldEscape_def is_alnum_def is_digit_def)
next
  case False
  moreover assume "name_char c"
  ultimately have "c = CHR ''-'' \<or> c = CHR ''_'' \<or> c = CHR ''.''" by (simp add: name_char_def)
  then show ?thesis by (elim disjE) (simp_all add: shouldEscape_def)
qed

lemma parseAuthority_plain:
  assumes "list_all name_char h"
  shows "parseAuthority h = Inr h"
proof -
  have "unescape encodeHost h = Inr h"
    using assms by (induction h) (auto dest: host_char_escape)
  moreover have "list_all (\<lambda>x. x \<noteq> CHR ''@'') (rev h)" "list_all (\<lambda>x. x \<noteq> CHR '':'') h"
    "CHR ''['' \<notin> set h"
    using assms by (auto simp: list_all_iff name_char_def is_alnum_def is_digit_def)
  then have "Cut (CHR ''@'') (rev h) = (rev h, None)" "Cut (CHR '':'') h = (h, None)"
    "CHR ''['' \<notin> set (tl h)" "\<not> prefix ''['' h"
    by (simp_all add: takeWhile_none) (cases h; simp; fail)+
  ultimately show ?thesis by (simp add: parseAuthority_def CutLast_def parseHost_def)
qed

lemma url_Parse_plain:
  assumes h: "list_all name_char h" and p: "list_all path_char p"
  shows "url_Parse (''https://'' @ h @ ''/'' @ p) =
    Inr \<lparr>u_Scheme = ''https'', u_Opaque = [], u_Host = h, u_Path = ''/'' @ p\<rparr>"
proof -
  let ?u = "''https://'' @ h @ ''/'' @ p"
  let ?r = "''//'' @ h @ ''/'' @ p"
  have all: "list_all path_char (''/'' @ h @ ''/'' @ p)"
    using h p by (auto simp: path_char_def list_all_iff)
  then have plain: "list_all (\<lambda>c. c \<noteq> CHR ''#'') (h @ ''/'' @ p)" "list_all (\<lambda>c. c \<noteq> CHR ''?'') (h @ ''/'' @ p)"
    "list_all (\<lambda>c. c \<noteq> CHR ''%'') p" "list_all (\<lambda>c. \<not> is_ctl c) (h @ ''/'' @ p)"
    by (auto simp: list_all_iff dest!: path_char_plain)
  have "Cut (CHR ''#'') ?u = (?u, None)" by (rule takeWhile_none) (use plain in simp)
  moreover have q: "Cut (CHR ''?'') ?r = (?r, None)" by (rule takeWhile_none) (use plain in simp)
  have "\<not> list_ex is_ctl ?u"
    using plain(4) by (simp add: list_ex_iff list_all_iff is_ctl_def)
  moreover have "getScheme ?u = Inr (''https'', ?r)"
    by (simp add: getScheme_def is_letter_def is_alnum_def is_digit_def)
  moreover have "ToLower ''https'' = ''https''" by code_simp
  moreover have "parse_rest ''https'' ?r =
      Inr \<lparr>u_Scheme = ''https'', u_Opaque = [], u_Host = h, u_Path = ''/'' @ p\<rparr>"
  proof -
    have "takeWhile (\<lambda>c. c \<noteq> CHR ''/'') (h @ ''/'' @ p) = h" "dropWhile (\<lambda>c. c \<noteq> CHR ''/'') (h @ ''/'' @ p) = ''/'' @ p"
      using names_not_in [OF h, of "CHR ''/''"] by (induction h) auto
    moreover have "unescape encodePath (''/'' @ p) = Inr (''/'' @ p)"
      using plain(3) by (intro unescape_plain) simp
    ultimately show ?thesis
      using q h by (simp add: parse_rest_def has_authority_def parseAuthority_plain)
  qed
  ultimately show ?thesis by (simp add: url_Parse_def parse_url_def)
qed

text \<open>A path of plain elements is clean.\<close>

lemma clean_plain:
  "\<forall>e \<in> set es. e \<notin> {'''', ''.'', ''..''} \<Longrightarrow> foldl (clean_step b) out es = rev es @ out"
  by (induction es arbitrary: out) auto

lemma join_end:
  "es \<noteq> [] \<Longrightarrow> \<forall>e \<in> set es. e \<noteq> [] \<and> c \<notin> set e \<Longrightarrow> join [c] es \<noteq> [] \<and> last (join [c] es) \<noteq> c"
  by (induction "[c]" es rule: join.induct) (auto dest: last_in_set)

lemma safe_name_plain: "safe_name e \<Longrightarrow> e \<notin> {'''', ''.'', ''..''} \<and> CHR ''/'' \<notin> set e"
  using names_not_in [of e "CHR ''/''"] by (simp add: safe_name_def)

lemma Clean_plain:
  assumes "es \<noteq> []" "list_all safe_name es"
  shows "TrimSlash (Clean (''/'' @ join ''/'' es)) = join ''/'' es"
proof -
  have es: "\<forall>e \<in> set es. e \<notin> {'''', ''.'', ''..''} \<and> CHR ''/'' \<notin> set e"
    using assms(2) safe_name_plain by (simp add: list_all_iff)
  then have sp: "split_on (CHR ''/'') (''/'' @ join ''/'' es) = [] # es"
    using split_on_join [OF assms(1), of "CHR ''/''"] by simp
  have "foldl (clean_step True) [] ([] # es) = rev es"
    using clean_plain [of es True "[]"] es by simp
  then have C: "Clean (''/'' @ join ''/'' es) = ''/'' @ join ''/'' es"
    unfolding Clean_def sp by simp
  have l: "last (join ''/'' es) \<noteq> CHR ''/''" "join ''/'' es \<noteq> []"
    using join_end [OF assms(1), of "CHR ''/''"] es by auto
  have "\<not> suffix ''/'' (join ''/'' es)"
    using l by (auto simp: suffix_def)
  moreover obtain x xs where x: "es = x # xs" using assms(1) by (cases es) auto
  then have "\<not> prefix ''/'' (join ''/'' es)"
    using es by (cases x) (auto simp: join_Cons)
  then have "trim_left [''/''] (join ''/'' es) = join ''/'' es"
    by (intro trim_left_id) (simp add: strip_any_eq_None del: strip_any.simps)
  then have "trim_left [''/''] (''/'' @ join ''/'' es) = join ''/'' es"
    by (simp add: trim_left.simps [of _ "CHR ''/'' # join ''/'' es"])
  ultimately show ?thesis
    unfolding C TrimSlash_def by (simp add: trim_right_id)
qed

section \<open>Round trips\<close>

lemma safe_names_path: "list_all safe_name es \<Longrightarrow> list_all path_char (join ''/'' es)"
  by (induction "''/''" es rule: join.induct)
     (auto simp: safe_name_def path_char_def list_all_iff)

lemma safe_names_visible: "list_all safe_name es \<Longrightarrow> visible (join ''/'' es)"
  by (induction "''/''" es rule: join.induct) auto

lemma safe_word [simp]: "safe_name ''actions''" "safe_name ''runs''" "safe_name ''repos''" "safe_name ''check-runs''"
  by (simp_all add: safe_name_def name_char_def is_alnum_def)

lemma names_visible: "list_all name_char h \<Longrightarrow> visible h"
  by (auto simp: visible_def list_all_iff dest!: name_char_byte)

lemma TrimSpace_plain:
  assumes "list_all name_char h" "list_all safe_name es"
  shows "TrimSpace (''https://'' @ h @ ''/'' @ join ''/'' es) = ''https://'' @ h @ ''/'' @ join ''/'' es"
  by (rule TrimSpace_visible) (simp add: names_visible safe_names_visible assms)

text \<open>A plain https URL is parsed, cleaned and split into its elements.\<close>

lemma parsed_elements:
  assumes "es \<noteq> []" "list_all safe_name es" "list_all name_char h"
  defines "u \<equiv> ''https://'' @ h @ ''/'' @ join ''/'' es"
  shows "TrimSpace u = u \<and> u \<noteq> [] \<and>
    url_Parse u = Inr \<lparr>u_Scheme = ''https'', u_Opaque = [], u_Host = h, u_Path = ''/'' @ join ''/'' es\<rparr> \<and>
    TrimSlash (Clean (''/'' @ join ''/'' es)) = join ''/'' es \<and>
    split_on (CHR ''/'') (join ''/'' es) = es"
proof (intro conjI)
  show "TrimSpace u = u" unfolding u_def by (rule TrimSpace_plain [OF assms(3,2)])
  show "u \<noteq> []" by (simp add: u_def)
  show "url_Parse u = Inr \<lparr>u_Scheme = ''https'', u_Opaque = [], u_Host = h, u_Path = ''/'' @ join ''/'' es\<rparr>"
    unfolding u_def by (rule url_Parse_plain [OF assms(3) safe_names_path [OF assms(2)]])
  show "TrimSlash (Clean (''/'' @ join ''/'' es)) = join ''/'' es" by (rule Clean_plain [OF assms(1,2)])
  show "split_on (CHR ''/'') (join ''/'' es) = es"
    by (rule split_on_join [OF assms(1)]) (use assms(2) safe_name_plain in \<open>simp add: list_all_iff\<close>)
qed

lemma join_append: "es \<noteq> [] \<Longrightarrow> xs \<noteq> [] \<Longrightarrow> join ''/'' (es @ xs) = (join ''/'' es @ ''/'') @ join ''/'' xs"
  by (induction "''/''" es rule: join.induct) (auto simp: join_Cons)

lemma join_not_dot:
  assumes "es \<noteq> []" "list_all safe_name es"
  shows "join ''/'' es \<noteq> '''' \<and> join ''/'' es \<noteq> ''.''"
proof -
  have "split_on (CHR ''/'') (join ''/'' es) = es"
    by (rule split_on_join [OF assms(1)]) (use assms(2) safe_name_plain in \<open>simp add: list_all_iff\<close>)
  moreover have "es \<noteq> ['''']" "es \<noteq> [''.'']" using assms(2) by (auto simp: safe_name_def)
  ultimately show ?thesis by fastforce
qed

lemma run_url_elements:
  "run_url owner repo i = ''https://'' @ ''github.com'' @ ''/'' @ join ''/'' [owner, repo, ''actions'', ''runs'', Itoa i]"
  by (simp add: run_url_def)

lemma github_host: "list_all name_char ''github.com''" "list_all name_char ''api.github.com''"
  by (simp_all add: name_char_def is_alnum_def)

lemma run_url_round_trip:
  assumes "safe_name owner" "safe_name repo" "in64 i"
  shows "ParseRunURL (run_url owner repo i) =
    Inr \<lparr>lc_Owner = owner, lc_Repo = repo, lc_RunID = i, lc_RunURL = run_url owner repo i\<rparr>"
proof -
  let ?es = "[owner, repo, ''actions'', ''runs'', Itoa i]"
  have "list_all safe_name ?es" using assms by simp
  from parsed_elements [OF _ this github_host(1)]
  show ?thesis
    unfolding run_url_elements
    by (simp only: ParseRunURL_def if_False sum.case URL.select_convs EqualFold_refl simp_thms Let_def
          list.distinct list.size nth_Cons_0) (simp add: ParseInt_Itoa assms(3) run_url_def)
qed

text \<open>C32. The URL the adapter prints for a run is read back as that run: for an owner and a
  repository made of letters, digits, hyphens, underscores and dots, and any 64-bit run id,
  \<open>ParseRunURL\<close> returns the same owner, repository and id, with the same URL.\<close>

theorem ParseRunURL_round_trip:
  assumes "safe_name owner" "safe_name repo" "in64 i"
  shows "ParseRunURL (run_url owner repo i) =
    Inr \<lparr>lc_Owner = owner, lc_Repo = repo, lc_RunID = i, lc_RunURL = run_url owner repo i\<rparr>"
  using assms by (rule run_url_round_trip)

theorem ParseRunURL_round_trip_witness:
  "ParseRunURL (run_url ''keithdoyle9'' ''pipeline-mcp'' 9007199254740993) =
    Inr \<lparr>lc_Owner = ''keithdoyle9'', lc_Repo = ''pipeline-mcp'', lc_RunID = 9007199254740993,
         lc_RunURL = run_url ''keithdoyle9'' ''pipeline-mcp'' 9007199254740993\<rparr>"
  by (rule ParseRunURL_round_trip) (simp_all add: safe_name_def name_char_def is_alnum_def is_digit_def in64_def)

lemma two_parts:
  "(if length ps \<noteq> 2 \<or> ps ! 0 = [] \<or> ps ! 1 = [] then Inl e else Inr (ps ! 0, ps ! 1)) = Inr (a, b) \<longleftrightarrow>
   ps = [a, b] \<and> a \<noteq> [] \<and> b \<noteq> []"
  by (cases ps rule: remdups_adj.cases) auto

lemma repository_parts:
  "ParseRepository repo = Inr (owner, name) \<longleftrightarrow>
   TrimSpace repo = owner @ ''/'' @ name \<and> owner \<noteq> [] \<and> name \<noteq> [] \<and>
   CHR ''/'' \<notin> set owner \<and> CHR ''/'' \<notin> set name"
proof -
  have there: "s = a @ ''/'' @ b \<and> CHR ''/'' \<notin> set a \<and> CHR ''/'' \<notin> set b" if "split_on (CHR ''/'') s = [a, b]" for s a b
    using join_split_on [of "CHR ''/''" s, symmetric] split_on_no_sep [of _ "CHR ''/''" s] unfolding that by simp
  have conv: "split_on (CHR ''/'') (a @ ''/'' @ b) = [a, b]" if "CHR ''/'' \<notin> set a" "CHR ''/'' \<notin> set b" for a b
    using that by simp
  have "ParseRepository repo = Inr (owner, name) \<longleftrightarrow>
      split_on (CHR ''/'') (TrimSpace repo) = [owner, name] \<and> owner \<noteq> [] \<and> name \<noteq> []"
    unfolding ParseRepository_def Let_def by (rule two_parts)
  then show ?thesis
    using there [of "TrimSpace repo" owner name] conv [of owner name] by metis
qed

text \<open>A repository is accepted exactly when it reads, without surrounding blanks, as an owner
  and a name around a single slash, and then these two are returned.\<close>

theorem ParseRepository_iff:
  "ParseRepository repo = Inr (owner, name) \<longleftrightarrow>
   TrimSpace repo = owner @ ''/'' @ name \<and> owner \<noteq> [] \<and> name \<noteq> [] \<and>
   CHR ''/'' \<notin> set owner \<and> CHR ''/'' \<notin> set name"
  by (rule repository_parts)

text \<open>What the run URL parser accepts: the host is github.com up to case, the id fits 64 bits, owner and
  repository have no slash, and the URL it returns is the canonical one.\<close>

lemma ParseRunURL_sound:
  assumes "ParseRunURL raw = Inr l"
  shows "in64 (lc_RunID l) \<and> CHR ''/'' \<notin> set (lc_Owner l) \<and> CHR ''/'' \<notin> set (lc_Repo l) \<and>
    lc_RunURL l = run_url (lc_Owner l) (lc_Repo l) (lc_RunID l) \<and>
    (\<exists>u. url_Parse (TrimSpace raw) = Inr u \<and> EqualFold (u_Host u) ''github.com'')"
proof -
  obtain u where u: "url_Parse (TrimSpace raw) = Inr u" "EqualFold (u_Host u) ''github.com''"
    and rest: "(let segments = split_on (CHR ''/'') (TrimSlash (Clean (u_Path u))) in
            if length segments < 5 \<or> segments ! 2 \<noteq> ''actions'' \<or> segments ! 3 \<noteq> ''runs'' then
              Inl (Errorf ''unsupported run url path'')
            else case ParseInt (segments ! 4) of
              Inl e \<Rightarrow> Inl (wrap_in ''parse run id'' (Errorf (NumError_text ''ParseInt'' (segments ! 4) e)))
            | Inr runID \<Rightarrow>
                Inr \<lparr>lc_Owner = segments ! 0, lc_Repo = segments ! 1, lc_RunID = runID,
                     lc_RunURL = run_url (segments ! 0) (segments ! 1) runID\<rparr>) = Inr l"
    using assms unfolding ParseRunURL_def by (auto split: if_splits sum.splits)
  define segs where "segs = split_on (CHR ''/'') (TrimSlash (Clean (u_Path u)))"
  from rest have len: "5 \<le> length segs" and l: "ParseInt (segs ! 4) = Inr (lc_RunID l)"
    "lc_Owner l = segs ! 0" "lc_Repo l = segs ! 1" "lc_RunURL l = run_url (segs ! 0) (segs ! 1) (lc_RunID l)"
    unfolding segs_def [symmetric] Let_def by (auto split: if_splits sum.splits)
  have "CHR ''/'' \<notin> set (segs ! k)" if "k < 5" for k
    unfolding segs_def by (rule split_on_no_sep [of _ _ "TrimSlash (Clean (u_Path u))"], rule nth_mem)
      (use that len segs_def in simp)
  with l u show ?thesis by (simp add: ParseInt_in64)
qed



end
