(* ===== verification/GitHub_Adapter.thy ===== *)
theory GitHub_Adapter
  imports Client_Calls Locator Providers
begin

text \<open>
  internal/githubapi/adapter.go: the GitHub client as a provider adapter. Every method first takes the
  repository apart; the conversions copy the API structs field by field into those of
  internal/providers; \<open>MapError\<close> turns the client's errors into tool errors. The adapter works
  over the interface \<open>providerClient\<close>, a record of its methods, which \<open>client_api\<close> fills with those of
  client.go; \<open>adapter\<close> is the record of the adapter's methods. A pointer that the interface may return as nil
  is an option where the code looks for nil and goes on, that is for check runs.
\<close>

section \<open>Conversions\<close>

definition toProviderRun :: "WorkflowRun \<Rightarrow> Run" where
  "toProviderRun r = \<lparr>run_ID = wr_ID r, run_Name = wr_Name r, run_DisplayTitle = wr_DisplayTitle r,
     run_Status = wr_Status r, run_Conclusion = wr_Conclusion r, run_RunURL = wr_HTMLURL r,
     run_HeadSHA = wr_HeadSHA r, run_CreatedAt = wr_CreatedAt r, run_UpdatedAt = wr_UpdatedAt r,
     run_RunStartedAt = wr_RunStartedAt r\<rparr>"

definition toProviderRuns :: "WorkflowRun list \<Rightarrow> Run list" where
  "toProviderRuns runs = map (\<lambda>r. \<lparr>run_ID = wr_ID r, run_Name = wr_Name r, run_DisplayTitle = wr_DisplayTitle r,
     run_Status = wr_Status r, run_Conclusion = wr_Conclusion r, run_RunURL = wr_HTMLURL r,
     run_HeadSHA = wr_HeadSHA r, run_CreatedAt = wr_CreatedAt r, run_UpdatedAt = wr_UpdatedAt r,
     run_RunStartedAt = wr_RunStartedAt r\<rparr>) runs"

definition toProviderSteps :: "Step_gh list \<Rightarrow> Step list" where
  "toProviderSteps steps = map (\<lambda>s. \<lparr>step_Name = gs_Name s, step_Status = gs_Status s,
     step_Conclusion = gs_Conclusion s, step_Number = gs_Number s, step_StartedAt = gs_StartedAt s,
     step_CompletedAt = gs_CompletedAt s\<rparr>) steps"

definition toProviderJobs :: "Job_gh list \<Rightarrow> Job list" where
  "toProviderJobs jobs = map (\<lambda>j. \<lparr>job_ID = gj_ID j, job_Name = gj_Name j, job_Status = gj_Status j,
     job_Conclusion = gj_Conclusion j, job_HeadBranch = gj_HeadBranch j, job_StartedAt = gj_StartedAt j,
     job_CompletedAt = gj_CompletedAt j, job_RunURL = gj_HTMLURL j, job_CheckRunURL = gj_CheckRunURL j,
     job_RunnerID = gj_RunnerID j, job_Steps = toProviderSteps (gj_Steps j)\<rparr>) jobs"

definition toProviderDeployment :: "DeploymentInfo_gh option \<Rightarrow> DeploymentInfo option" where
  "toProviderDeployment d =
     (case d of
        None \<Rightarrow> None
      | Some d \<Rightarrow> Some \<lparr>dp_ID = gd_ID d, dp_Environment = gd_Environment d,
                   dp_OriginalEnvironment = gd_OriginalEnvironment d\<rparr>)"

definition toProviderCheckRun :: "CheckRun_gh \<Rightarrow> CheckRun" where
  "toProviderCheckRun c = \<lparr>cr_ID = gc_ID c, cr_Name = gc_Name c, cr_RunURL = gc_HTMLURL c,
     cr_DetailsURL = gc_DetailsURL c, cr_Status = gc_Status c, cr_Conclusion = gc_Conclusion c,
     cr_Output = \<lparr>co_Title = gco_Title (gc_Output c), co_Summary = gco_Summary (gc_Output c),
       co_Text = gco_Text (gc_Output c), co_AnnotationsURL = gco_AnnotationsURL (gc_Output c)\<rparr>,
     cr_Deployment = toProviderDeployment (gc_Deployment c)\<rparr>"

definition toProviderAnnotations :: "CheckRunAnnotation_gh list \<Rightarrow> CheckRunAnnotation list" where
  "toProviderAnnotations as = map (\<lambda>a. \<lparr>an_Path = ga_Path a, an_StartLine = ga_StartLine a,
     an_AnnotationLevel = ga_AnnotationLevel a, an_Title = ga_Title a, an_Message = ga_Message a,
     an_BlobHref = ga_BlobHref a\<rparr>) as"

definition toProviderPolicies :: "BranchPolicy_gh list \<Rightarrow> BranchPolicy list" where
  "toProviderPolicies ps = map (\<lambda>p. \<lparr>bp_ID = gp_ID p, bp_Name = gp_Name p, bp_Type = gp_Type p\<rparr>) ps"

definition toClientOptions :: "ListRunsOptions \<Rightarrow> ListRunsOptions_gh" where
  "toClientOptions opts = \<lparr>go_PerPage = lo_PerPage opts, go_Page = lo_Page opts, go_Created = lo_Created opts,
     go_Branch = lo_Branch opts, go_Event = lo_Event opts, go_Status = lo_Status opts\<rparr>"

section \<open>The methods\<close>

record providerClient =
  pc_GetRun :: "string \<Rightarrow> string \<Rightarrow> int \<Rightarrow> WorkflowRun result io"
  pc_ListRunJobs :: "string \<Rightarrow> string \<Rightarrow> int \<Rightarrow> Job_gh list result io"
  pc_DownloadRunLogs :: "string \<Rightarrow> string \<Rightarrow> int \<Rightarrow> int \<Rightarrow> string result io"
  pc_ListRepositoryRuns :: "string \<Rightarrow> string \<Rightarrow> ListRunsOptions_gh \<Rightarrow> int \<Rightarrow> WorkflowRun list result io"
  pc_GetCheckRun :: "string \<Rightarrow> string \<Rightarrow> int \<Rightarrow> CheckRun_gh option result io"
  pc_GetCheckRunAnnotations :: "string \<Rightarrow> string \<Rightarrow> int \<Rightarrow> CheckRunAnnotation_gh list result io"
  pc_ListDeploymentBranchPolicies :: "string \<Rightarrow> string \<Rightarrow> string \<Rightarrow> BranchPolicy_gh list result io"
  pc_Rerun :: "string \<Rightarrow> string \<Rightarrow> int \<Rightarrow> bool \<Rightarrow> unit result io"

text \<open>The client of client.go; the pointer it returns is never nil.\<close>

definition client_api :: "env \<Rightarrow> Client \<Rightarrow> providerClient" where
  "client_api E c =
     \<lparr>pc_GetRun = GetRun E c,
      pc_ListRunJobs = ListRunJobs E c,
      pc_DownloadRunLogs = DownloadRunLogs E c,
      pc_ListRepositoryRuns = ListRepositoryRuns E c,
      pc_GetCheckRun = (\<lambda>owner repo checkRunID. and_then (GetCheckRun E c owner repo checkRunID) (\<lambda>x. ret (Inr (Some x)))),
      pc_GetCheckRunAnnotations = GetCheckRunAnnotations E c,
      pc_ListDeploymentBranchPolicies = ListDeploymentBranchPolicies E c,
      pc_Rerun = Rerun E c\<rparr>"

record ProviderAdapter =
  pa_client :: providerClient
  pa_apiBaseURL :: string

definition NewProviderAdapter :: "providerClient \<Rightarrow> string \<Rightarrow> ProviderAdapter" where
  "NewProviderAdapter client apiBaseURL =
     \<lparr>pa_client = client, pa_apiBaseURL = TrimRightSlash (TrimSpace apiBaseURL)\<rparr>"

definition adapter_ParseRepository :: "string \<Rightarrow> string result" where
  "adapter_ParseRepository repository =
     (case ParseRepository repository of Inl e \<Rightarrow> Inl e | Inr (owner, repo) \<Rightarrow> Inr (owner @ ''/'' @ repo))"

definition adapter_ParseRunURL :: "string \<Rightarrow> RunLocator result" where
  "adapter_ParseRunURL raw =
     (case ParseRunURL raw of
        Inl e \<Rightarrow> Inl e
      | Inr l \<Rightarrow> Inr \<lparr>rl_Repository = Repository l, rl_RunID = lc_RunID l, rl_RunURL = lc_RunURL l\<rparr>)"

definition adapter_ParseCheckRunURL :: "ProviderAdapter \<Rightarrow> string \<Rightarrow> int result" where
  "adapter_ParseCheckRunURL a raw =
     (if TrimSpace (pa_apiBaseURL a) = '''' then ParseCheckRunURL raw
      else ParseCheckRunURLForBase raw (pa_apiBaseURL a))"

definition adapter_RunURL :: "string \<Rightarrow> int \<Rightarrow> string" where
  "adapter_RunURL repository runID =
     (case ParseRepository repository of Inl _ \<Rightarrow> [] | Inr (owner, repo) \<Rightarrow> run_url owner repo runID)"

text \<open>\<open>owner, repo, err := a.ownerRepo(repository)\<close>, then the call, then the conversion.\<close>

definition ownerRepo :: "string \<Rightarrow> (string \<times> string) result" where
  "ownerRepo repository = ParseRepository repository"

definition for_repo :: "string \<Rightarrow> (string \<Rightarrow> string \<Rightarrow> 'a result io) \<Rightarrow> ('a \<Rightarrow> 'b) \<Rightarrow> 'b result io" where
  "for_repo repository call conv =
     (case ownerRepo repository of
        Inl e \<Rightarrow> ret (Inl e)
      | Inr (owner, repo) \<Rightarrow> and_then (call owner repo) (\<lambda>x. ret (Inr (conv x))))"

definition adapter_GetRun :: "ProviderAdapter \<Rightarrow> string \<Rightarrow> int \<Rightarrow> Run result io" where
  "adapter_GetRun a repository runID =
     for_repo repository (\<lambda>owner repo. pc_GetRun (pa_client a) owner repo runID) toProviderRun"

definition adapter_ListRunJobs :: "ProviderAdapter \<Rightarrow> string \<Rightarrow> int \<Rightarrow> Job list result io" where
  "adapter_ListRunJobs a repository runID =
     for_repo repository (\<lambda>owner repo. pc_ListRunJobs (pa_client a) owner repo runID) toProviderJobs"

definition adapter_DownloadRunLogs :: "ProviderAdapter \<Rightarrow> string \<Rightarrow> int \<Rightarrow> int \<Rightarrow> string result io" where
  "adapter_DownloadRunLogs a repository runID maxBytes =
     for_repo repository (\<lambda>owner repo. pc_DownloadRunLogs (pa_client a) owner repo runID maxBytes) (\<lambda>s. s)"

definition adapter_ListRepositoryRuns ::
  "ProviderAdapter \<Rightarrow> string \<Rightarrow> ListRunsOptions \<Rightarrow> int \<Rightarrow> Run list result io" where
  "adapter_ListRepositoryRuns a repository opts maxRuns =
     for_repo repository
       (\<lambda>owner repo. pc_ListRepositoryRuns (pa_client a) owner repo (toClientOptions opts) maxRuns) toProviderRuns"

definition adapter_GetCheckRun :: "ProviderAdapter \<Rightarrow> string \<Rightarrow> int \<Rightarrow> CheckRun option result io" where
  "adapter_GetCheckRun a repository checkRunID =
     for_repo repository (\<lambda>owner repo. pc_GetCheckRun (pa_client a) owner repo checkRunID) (map_option toProviderCheckRun)"

definition adapter_GetCheckRunAnnotations ::
  "ProviderAdapter \<Rightarrow> string \<Rightarrow> int \<Rightarrow> CheckRunAnnotation list result io" where
  "adapter_GetCheckRunAnnotations a repository checkRunID =
     for_repo repository
       (\<lambda>owner repo. pc_GetCheckRunAnnotations (pa_client a) owner repo checkRunID) toProviderAnnotations"

definition adapter_ListDeploymentBranchPolicies ::
  "ProviderAdapter \<Rightarrow> string \<Rightarrow> string \<Rightarrow> BranchPolicy list result io" where
  "adapter_ListDeploymentBranchPolicies a repository environment =
     for_repo repository
       (\<lambda>owner repo. pc_ListDeploymentBranchPolicies (pa_client a) owner repo environment) toProviderPolicies"

definition adapter_Rerun :: "ProviderAdapter \<Rightarrow> string \<Rightarrow> int \<Rightarrow> bool \<Rightarrow> unit result io" where
  "adapter_Rerun a repository runID failedJobsOnly =
     for_repo repository (\<lambda>owner repo. pc_Rerun (pa_client a) owner repo runID failedJobsOnly) (\<lambda>u. u)"

definition IsLogsUnavailable :: "go_error \<Rightarrow> bool" where
  "IsLogsUnavailable err = errors_Is err ErrLogsUnavailable"

definition error_details :: "go_error \<Rightarrow> (string \<times> detail) list" where
  "error_details err = [(''error'', DString (Error err))]"

definition MapError :: "go_error option \<Rightarrow> ToolError option" where
  "MapError e =
     (case e of
        None \<Rightarrow> None
      | Some err \<Rightarrow> Some (
          if errors_Is err ErrUnauthorized \<or> errors_Is err ErrWriteTokenRequired then
            NewToolError ErrorCodeUnauthorized ''GitHub API authorization failed.''
              ''Verify token scopes: actions:read for read tools and actions:write for rerun.'' False (error_details err)
          else if errors_Is err ErrNotFound then
            NewToolError ErrorCodeUnauthorized ''Run not found or access denied.''
              ''Confirm the run URL is correct and provide a token that can read this repository. For Claude Code, add the server with -e GITHUB_READ_TOKEN=... or -e GITHUB_TOKEN=....''
              False (error_details err)
          else if errors_Is err ErrRateLimited then
            NewToolError ErrorCodeRateLimited ''GitHub API rate limit exceeded.''
              ''Retry after backoff or increase API quota/token capacity.'' True (error_details err)
          else if errors_Is err ErrLogsUnavailable then
            NewToolError ErrorCodeLogUnavailable ''Run logs are unavailable.''
              ''Check repository permissions and log retention settings.'' True (error_details err)
          else if errors_Is err ErrProviderUnavailable then
            NewToolError ErrorCodeProviderUnavailable ''GitHub API is unavailable.''
              ''Retry with exponential backoff and check provider status.'' True (error_details err)
          else
            NewToolError ErrorCodeInternal ''Unexpected internal error.''
              ''Check server logs and retry.'' True (error_details err)))"

definition adapter :: "ProviderAdapter \<Rightarrow> Adapter" where
  "adapter a =
     \<lparr>ad_ProviderID = ProviderGitHub,
      ad_ParseRepository = adapter_ParseRepository,
      ad_ParseRunURL = adapter_ParseRunURL,
      ad_ParseCheckRunURL = adapter_ParseCheckRunURL a,
      ad_RunURL = adapter_RunURL,
      ad_GetRun = adapter_GetRun a,
      ad_ListRunJobs = adapter_ListRunJobs a,
      ad_DownloadRunLogs = adapter_DownloadRunLogs a,
      ad_ListRepositoryRuns = adapter_ListRepositoryRuns a,
      ad_GetCheckRun = adapter_GetCheckRun a,
      ad_GetCheckRunAnnotations = adapter_GetCheckRunAnnotations a,
      ad_ListDeploymentBranchPolicies = adapter_ListDeploymentBranchPolicies a,
      ad_Rerun = adapter_Rerun a,
      ad_IsLogsUnavailable = IsLogsUnavailable,
      ad_MapError = (\<lambda>err. the (MapError (Some err)))\<rparr>"

section \<open>The contract\<close>

lemma ParseRepository_pair:
  "ParseRepository s = Inr (owner, repo) \<Longrightarrow> ParseRepository (owner @ ''/'' @ repo) = Inr (owner, repo)"
  unfolding repository_parts by (metis TrimSpace_idem)

lemma adapter_ParseRepository_eq: "adapter_ParseRepository s = Inr r \<longleftrightarrow> r = TrimSpace s \<and> \<not> isl (ParseRepository s)"
  by (auto simp: adapter_ParseRepository_def repository_parts split: sum.splits prod.splits)

lemma adapter_ParseRepository_idem:
  "adapter_ParseRepository s = Inr r \<Longrightarrow> adapter_ParseRepository r = Inr r"
  by (auto simp: adapter_ParseRepository_def dest: ParseRepository_pair split: sum.splits prod.splits)

lemma errors_Is_one: "errors_Is e (New s) \<Longrightarrow> errors_Is e (New t) \<longleftrightarrow> s = t"
  by (induction e) auto

lemma MapError_logs: "errors_Is e ErrLogsUnavailable \<Longrightarrow> te_Code (the (MapError (Some e))) = ErrorCodeLogUnavailable"
  by (simp add: MapError_def NewToolError_def sentinel_defs errors_Is_one)

lemma for_repo_moves: "effect R \<Longrightarrow> (\<And>ow rp. moves R (call ow rp)) \<Longrightarrow> moves R (for_repo r call conv)"
  unfolding for_repo_def by (intro effect.rules) assumption+

lemmas adapter_defs = adapter_GetRun_def adapter_ListRunJobs_def adapter_DownloadRunLogs_def
  adapter_ListRepositoryRuns_def adapter_GetCheckRun_def adapter_GetCheckRunAnnotations_def
  adapter_ListDeploymentBranchPolicies_def

text \<open>
  The contract of the interface: the reads of the client stay within the effect \<open>R\<close>. Then the adapter over it
  keeps the contract of a provider for \<open>R\<close>.
\<close>

locale provider_client = effect R for R +
  fixes C :: providerClient
  assumes GetRun_moves: "moves R (pc_GetRun C ow rp i)"
    and ListRunJobs_moves: "moves R (pc_ListRunJobs C ow rp i)"
    and DownloadRunLogs_moves: "moves R (pc_DownloadRunLogs C ow rp i n)"
    and ListRepositoryRuns_moves: "moves R (pc_ListRepositoryRuns C ow rp opts n)"
    and GetCheckRun_moves: "moves R (pc_GetCheckRun C ow rp i)"
    and GetCheckRunAnnotations_moves: "moves R (pc_GetCheckRunAnnotations C ow rp i)"
    and ListDeploymentBranchPolicies_moves: "moves R (pc_ListDeploymentBranchPolicies C ow rp s)"
begin

lemmas client_reads = GetRun_moves ListRunJobs_moves DownloadRunLogs_moves ListRepositoryRuns_moves
  GetCheckRun_moves GetCheckRunAnnotations_moves ListDeploymentBranchPolicies_moves

end

sublocale provider_client \<subseteq> adapted: provider R "adapter (NewProviderAdapter C b)" for b
proof
  let ?a = "NewProviderAdapter C b"
  show "ad_ParseRepository (adapter ?a) s = Inr r \<Longrightarrow> ad_ParseRepository (adapter ?a) r = Inr r" for s r
    by (simp add: adapter_def adapter_ParseRepository_idem)
  show "ad_IsLogsUnavailable (adapter ?a) e \<Longrightarrow> te_Code (ad_MapError (adapter ?a) e) = ErrorCodeLogUnavailable" for e
    by (simp add: adapter_def IsLogsUnavailable_def MapError_logs)
qed (unfold adapter_def Adapter.select_convs adapter_defs NewProviderAdapter_def ProviderAdapter.select_convs,
     (intro for_repo_moves effect_axioms client_reads)+)

text \<open>The client of client.go keeps it, for GET requests with the read token.\<close>

interpretation github: provider_client "quiet (read_event c)" "client_api E c" for c E
  by unfold_locales (simp_all add: client_api_def client_reads.reads quiet.and_then_moves quiet.ret_moves)

text \<open>The adapter's repository check is a projection: what it accepts is the argument without
  surrounding blanks, and that is accepted unchanged.\<close>

theorem adapter_ParseRepository_projection:
  "case adapter_ParseRepository s of
     Inl _ \<Rightarrow> \<not> (\<exists>owner repo. TrimSpace s = owner @ ''/'' @ repo \<and> owner \<noteq> [] \<and> repo \<noteq> [] \<and>
                CHR ''/'' \<notin> set owner \<and> CHR ''/'' \<notin> set repo)
   | Inr r \<Rightarrow> r = TrimSpace s \<and> adapter_ParseRepository r = Inr r"
proof (cases "ParseRepository s")
  case (Inl e)
  with repository_parts [of s] show ?thesis by (auto simp: adapter_ParseRepository_def)
next
  case (Inr p)
  obtain owner repo where p: "p = (owner, repo)" by (cases p)
  with Inr have "ParseRepository s = Inr (owner, repo)" by simp
  from ParseRepository_pair [OF this] this [unfolded repository_parts] Inr p show ?thesis
    by (simp add: adapter_ParseRepository_def)
qed

text \<open>The adapter's own run URLs are its own: for a repository with plain names and any 64-bit id, parsing
  the URL that \<open>RunURL\<close> prints gives back the repository, the id and the URL.\<close>

theorem adapter_RunURL_round_trip:
  assumes "safe_name owner" "safe_name repo" "in64 i"
  shows "adapter_ParseRunURL (adapter_RunURL (owner @ ''/'' @ repo) i) =
    Inr \<lparr>rl_Repository = owner @ ''/'' @ repo, rl_RunID = i, rl_RunURL = adapter_RunURL (owner @ ''/'' @ repo) i\<rparr>"
proof -
  have "TrimSpace (owner @ ''/'' @ repo) = owner @ ''/'' @ repo"
    by (rule TrimSpace_visible) (simp add: assms)
  then have "ParseRepository (owner @ ''/'' @ repo) = Inr (owner, repo)"
    unfolding repository_parts using safe_name_plain [OF assms(1)] safe_name_plain [OF assms(2)] by simp
  then show ?thesis
    by (simp add: adapter_RunURL_def adapter_ParseRunURL_def run_url_round_trip [OF assms] Repository_def)
qed

theorem adapter_RunURL_round_trip_witness:
  "adapter_ParseRunURL (adapter_RunURL (''acme'' @ ''/'' @ ''my.app'') 42) =
    Inr \<lparr>rl_Repository = ''acme'' @ ''/'' @ ''my.app'', rl_RunID = 42,
         rl_RunURL = adapter_RunURL (''acme'' @ ''/'' @ ''my.app'') 42\<rparr>"
  by (rule adapter_RunURL_round_trip) (simp_all add: safe_name_def name_char_def is_alnum_def in64_def)

section \<open>From statuses to tool errors\<close>

definition status_code :: "http_response \<Rightarrow> string" where
  "status_code r =
     (if throttled r then ErrorCodeRateLimited
      else if rs_Status r \<in> {401, 403, 404} then ErrorCodeUnauthorized
      else ErrorCodeProviderUnavailable)"

text \<open>C30. What a caller sees of a failed request: a response that is no success becomes, through the client
  and the adapter, a tool error whose code is RATE_LIMITED for a throttle, UNAUTHORIZED for 401, 403 and
  404, and PROVIDER_UNAVAILABLE otherwise, marked retryable exactly if it is not UNAUTHORIZED; so a
  rejected request such as 422 is reported as retryable although the client does not retry it.\<close>

theorem failed_response_code:
  "case classify r body of
     Inr b \<Rightarrow> 200 \<le> rs_Status r \<and> rs_Status r < 300 \<and> b = body
   | Inl (retry, e) \<Rightarrow>
       (\<exists>t. MapError (Some e) = Some t \<and> te_Code t = status_code r \<and>
            te_Retryable t = (status_code r \<noteq> ErrorCodeUnauthorized)) \<and>
       retry = (throttled r \<or> 500 \<le> rs_Status r)"
  by (auto simp: classify_def Let_def throttled_def status_code_def sentinel_defs MapError_def NewToolError_def
      ErrorCodeRateLimited_def ErrorCodeUnauthorized_def ErrorCodeProviderUnavailable_def)

end
