(* ===== verification/Server.thy ===== *)
theory Server
  imports Tools GitHub_Adapter
begin

text \<open>
  cmd/pipeline-mcp/main.go: the program as it is put together from the configuration, and the properties
  of the tools of that program, from the environment variables to the requests, the audit log and the
  counters, and the exit code of the process. The SDK's server is modelled by the sequence of tool calls it
  delivers, one after the other, and the error it ends with, if any; \<open>Interleaving\<close> has calls that overlap.
\<close>

section \<open>Wiring\<close>

definition github_client :: "Config \<Rightarrow> Client" where
  "github_client cfg =
     NewClient (cf_GitHubAPIBaseURL cfg) (cf_GitHubReadToken cfg) (cf_GitHubWriteToken cfg) (cf_UserAgent cfg)
       (cf_HTTPTimeout cfg)"

definition github_adapter :: "env \<Rightarrow> Config \<Rightarrow> ProviderAdapter" where
  "github_adapter E cfg = NewProviderAdapter (client_api E (github_client cfg)) (cf_GitHubAPIBaseURL cfg)"

definition new_dependencies :: "env \<Rightarrow> Config \<Rightarrow> Registry \<Rightarrow> Dependencies" where
  "new_dependencies E cfg registry =
     \<lparr>dp_Service = New_Service cfg (Some registry) (Append E (NewJSONLStore (cf_AuditLogPath cfg) (cf_AuditSigningKey cfg))),
      dp_Telemetry = Some (NewCollector (cf_MetricsExportPath cfg)), dp_Logger = True\<rparr>"

definition build :: "environ \<Rightarrow> env \<Rightarrow> Dependencies result" where
  "build environ E =
     (case Load environ of
        Inl err \<Rightarrow> Inl (wrap_in ''load config'' err)
      | Inr cfg \<Rightarrow>
          let ghProvider = adapter (github_adapter E cfg) in
          (case NewRegistry (ad_ProviderID ghProvider) [Some ghProvider] of
             Inl err \<Rightarrow> Inl (wrap_in ''build provider registry'' err)
           | Inr registry \<Rightarrow> Inr (new_dependencies E cfg registry)))"

primrec serve :: "env \<Rightarrow> Dependencies \<Rightarrow> tool_call list \<Rightarrow> (CallToolResult option \<times> tool_output) list io" where
  "serve E d [] = ret []"
| "serve E d (c # cs) = do { r \<leftarrow> Register E d c; rs \<leftarrow> serve E d cs; ret (r # rs) }"

definition run :: "environ \<Rightarrow> env \<Rightarrow> tool_call list \<Rightarrow> go_error option \<Rightarrow> go_error option io" where
  "run environ E calls ended =
     (case build environ E of
        Inl err \<Rightarrow> ret (Some err)
      | Inr d \<Rightarrow> do {
          log_msg LevelInfo ''starting pipeline-mcp'';
          serve E d calls;
          (case ended of
             Some err \<Rightarrow> ret (Some err)
           | None \<Rightarrow> do {
               snapshot \<leftarrow> TakeSnapshot E;
               log_msg LevelInfo ''telemetry snapshot'';
               ret None
             })
        })"

definition main :: "environ \<Rightarrow> env \<Rightarrow> tool_call list \<Rightarrow> go_error option \<Rightarrow> process_exit io" where
  "main environ E calls ended = do {
     err \<leftarrow> run environ E calls ended;
     ret (case err of
         None \<Rightarrow> \<lparr>px_Output = [], px_Failure = [], px_Code = 0\<rparr>
       | Some e \<Rightarrow> \<lparr>px_Output = [], px_Failure = ''pipeline-mcp failed: '' @ Error e @ [CHR 0x0A], px_Code = 1\<rparr>)
   }"

section \<open>The registry of the program\<close>

definition github_registry :: "env \<Rightarrow> Config \<Rightarrow> Registry" where
  "github_registry E cfg =
     \<lparr>rg_defaultProvider = ProviderGitHub, rg_adapters = [ProviderGitHub \<mapsto> adapter (github_adapter E cfg)],
      rg_ordered = [adapter (github_adapter E cfg)]\<rparr>"

abbreviation program :: "env \<Rightarrow> Config \<Rightarrow> Dependencies" where
  "program E cfg \<equiv> new_dependencies E cfg (github_registry E cfg)"

lemma ProviderID_adapter [simp]: "ad_ProviderID (adapter a) = ProviderGitHub"
  by (simp add: adapter_def)

lemma TrimSpace_ProviderGitHub [simp]: "TrimSpace ProviderGitHub = ProviderGitHub" "ProviderGitHub \<noteq> []"
  by (simp_all add: ProviderGitHub_def TrimSpace_visible)

lemma github_registry_new:
  "NewRegistry ProviderGitHub [Some (adapter (github_adapter E cfg))] = Inr (github_registry E cfg)"
  by (simp add: NewRegistry_def empty_registry_def github_registry_def Let_def)

lemma wf_github_registry: "wf_registry (github_registry E cfg)"
  by (auto simp: wf_registry_def github_registry_def provider_key_def)

lemma build_eq:
  "build environ E = (case Load environ of Inl err \<Rightarrow> Inl (wrap_in ''load config'' err) | Inr cfg \<Rightarrow> Inr (program E cfg))"
  by (simp add: build_def github_registry_new Let_def split: sum.split)

lemma github_resolve: "Resolve (Some (github_registry E cfg)) p = Inr a \<Longrightarrow> a = adapter (github_adapter E cfg)"
  by (auto simp: Resolve_def github_registry_def Let_def split: option.splits if_splits)

lemma github_resolve_url:
  "ResolveRunURL (Some (github_registry E cfg)) p u = Inr (a, l) \<Longrightarrow> a = adapter (github_adapter E cfg)"
  by (auto simp: ResolveRunURL_def parse_with_def Let_def dest: github_resolve split: sum.splits if_splits)
     (simp_all add: github_registry_def)

section \<open>Which effects the reads keep\<close>

text \<open>The reads of the program keep every effect that allows the requests of its client, the clock and the log.\<close>

lemma program_reads:
  assumes "effect R" "\<And>w w'. quiet (read_event (github_client cfg)) w w' \<Longrightarrow> R w w'"
    and "moves R (now E)" "\<And>l m. moves R (log_msg l m)"
  shows "read_service R E (dp_Service (program E cfg))"
proof -
  have p: "provider R (adapter (github_adapter E cfg))"
    unfolding github_adapter_def by (rule provider_mono [OF github.adapted.provider_axioms assms(1,2)])
  show ?thesis
    using assms(1,3,4) p
    by (auto simp: read_service_def read_service_axioms_def new_dependencies_def dest: github_resolve github_resolve_url)
qed

text \<open>
  Requests are GET requests with the read token; the log, the clock and the files are not restricted.
\<close>

definition get_only :: "Config \<Rightarrow> event \<Rightarrow> bool" where
  "get_only cfg e \<longleftrightarrow>
     (case e of Requested _ \<Rightarrow> read_event (github_client cfg) e | _ \<Rightarrow> True)"

lemma read_event_get_only: "read_event (github_client cfg) e \<Longrightarrow> get_only cfg e"
  by (cases e) (auto simp: get_only_def)

lemma quiet_get_only:
  "quiet (read_event (github_client cfg)) w w' \<Longrightarrow> grows (get_only cfg) w w'"
  by (auto simp: quiet_def grows_def intro: list.pred_mono_strong read_event_get_only)

lemma other_events_get_only [simp]:
  "get_only cfg ReadClock" "get_only cfg (Logged l m)" "get_only cfg (Called c)" "get_only cfg (Waited d)"
  by (simp_all add: get_only_def)

interpretation program_gets: read_service "grows (get_only cfg)" E "dp_Service (program E cfg)" for cfg E
  by (rule program_reads) (auto intro: emits.effect_axioms quiet_get_only emits_now emits_log)

interpretation program_metrics: read_service same_metrics E "dp_Service (program E cfg)" for cfg E
  by (rule program_reads) (auto simp: quiet_def same_metrics_def intro: same_metrics.effect_axioms)

interpretation program_files: read_service same_files E "dp_Service (program E cfg)" for cfg E
  by (rule program_reads) (auto simp: quiet_def same_files_def intro: same_files.effect_axioms)

section \<open>What the tools send\<close>

lemma Append_emits: "(\<And>c. P (Called c)) \<Longrightarrow> emits P (Append E st e)"
  unfolding Append_def checked_def make_dir_def lockAuditLogPath_def
  by (intro emits.rules emits_os) (auto intro!: emits.rules emits_os split: node.split)

text \<open>What a call of the rerun tool may send: the POST of the run it names.\<close>

definition allowed_event :: "Config \<Rightarrow> tool_call \<Rightarrow> event \<Rightarrow> bool" where
  "allowed_event cfg c e \<longleftrightarrow> get_only cfg e \<or>
     (case c of
        CallRerun i \<Rightarrow> \<not> cf_DisableMutations cfg \<and>
          (\<exists>owner repo. TrimSpace (ri_Repository i) = owner @ ''/'' @ repo \<and>
             rerun_event (github_client cfg) owner repo (ri_RunID i) (ri_FailedJobsOnly i) e)
      | _ \<Rightarrow> False)"

lemma adapter_Rerun_emits:
  assumes "adapter_ParseRepository s = Inr r"
  shows "\<exists>owner repo. TrimSpace s = owner @ ''/'' @ repo \<and>
    moves (quiet (rerun_event (github_client cfg) owner repo i f)) (adapter_Rerun (github_adapter E cfg) r i f)"
proof -
  obtain owner repo where p: "ParseRepository s = Inr (owner, repo)" "r = owner @ ''/'' @ repo"
    using assms by (auto simp: adapter_ParseRepository_def split: sum.splits)
  have r: "ParseRepository r = Inr (owner, repo)" unfolding p(2) by (rule ParseRepository_pair [OF p(1)])
  have "moves (quiet (rerun_event (github_client cfg) owner repo i f)) (adapter_Rerun (github_adapter E cfg) r i f)"
    unfolding adapter_Rerun_def for_repo_def ownerRepo_def r
    by (simp add: github_adapter_def NewProviderAdapter_def client_api_def quiet.and_then_moves quiet.ret_moves Rerun_moves)
  moreover have "TrimSpace s = owner @ ''/'' @ repo" using p(1) unfolding repository_parts by blast
  ultimately show ?thesis by blast
qed

lemma emitAudit_emits:
  assumes "P ReadClock" "\<And>c. P (Called c)"
  shows "emits P (emitAudit E (dp_Service (program E cfg)) repo i reason scope res)"
  by (simp add: emitAudit_def new_dependencies_def) (intro emits.rules emits_now Append_emits assms)

lemma program_Rerun_emits:
  "emits (allowed_event cfg (CallRerun i))
     (Service.Rerun E (dp_Service (program E cfg)) (ri_Provider i) (ri_Repository i) (ri_RunID i) (ri_FailedJobsOnly i) (ri_Reason i))"
proof (cases "rerun_checks (dp_Service (program E cfg)) (ri_Provider i) (ri_Repository i) (ri_RunID i) (ri_Reason i)")
  case (Inl e)
  then show ?thesis by (simp add: Service.Rerun_def emits.ret_moves)
next
  case (Inr pr)
  let ?P = "allowed_event cfg (CallRerun i)" and ?a = "github_adapter E cfg"
  obtain prov r where pr: "pr = (prov, r)" by (cases pr)
  have en: "\<not> cf_DisableMutations cfg" and res: "resolveProvider (dp_Service (program E cfg)) (ri_Provider i) = Inr prov"
    and rp: "ad_ParseRepository prov (ri_Repository i) = Inr r"
    using Inr unfolding pr
    by (auto simp: rerun_checks_def parse_repository_def new_dependencies_def split: sum.splits if_splits)
  have prov: "prov = adapter ?a"
    using res by (auto simp: resolveProvider_def new_dependencies_def dest: github_resolve split: sum.splits)
  have "adapter_ParseRepository (ri_Repository i) = Inr r" using rp by (simp add: prov adapter_def)
  from adapter_Rerun_emits [OF this] obtain owner repo where
    o: "TrimSpace (ri_Repository i) = owner @ ''/'' @ repo"
      "moves (quiet (rerun_event (github_client cfg) owner repo (ri_RunID i) (ri_FailedJobsOnly i)))
        (adapter_Rerun ?a r (ri_RunID i) (ri_FailedJobsOnly i))"
    by blast
  have "emits ?P (ad_Rerun prov r (ri_RunID i) (ri_FailedJobsOnly i))"
    unfolding prov adapter_def Adapter.select_convs
    by (rule emits_mono [OF quiet_emits [OF o(2)]]) (use en o(1) in \<open>auto simp: allowed_event_def\<close>)
  then show ?thesis
    unfolding Service.Rerun_def Inr pr
    by (auto intro!: emits.rules emits_now emits_log emitAudit_emits simp: allowed_event_def)
qed

lemma compare_call_emits: "emits (get_only cfg) (compare_call (dp_Service (program E cfg)) i)"
  unfolding compare_call_def by (intro emits.rules program_gets.reads)

lemma reading_tools: "(\<And>i. c \<noteq> CallRerun i) \<Longrightarrow> emits (get_only cfg) (Register E (program E cfg) c)"
  by (cases c)
    (auto simp: Register_def handlers answer_moves emits.effect_axioms handled_emits program_gets.reads
      compare_call_emits)

lemma program_emits: "emits (allowed_event cfg c) (Register E (program E cfg) c)"
proof (cases c)
  case (CallRerun i)
  then show ?thesis
    unfolding Register_def handlers CallRerun tool_call.case
    by (intro answer_moves emits.effect_axioms handled_emits program_Rerun_emits) (simp_all add: allowed_event_def)
qed (rule emits_mono [OF reading_tools], simp_all add: allowed_event_def)+

text \<open>C1. What each tool may send, from the environment variables to the wire: the four reading tools send only
  GET requests under the configured base URL, without a body and with the read token as only credential; the
  rerun tool sends, besides, at most POST requests for the run it names, and those only if mutations are enabled.\<close>

theorem tools_send_only:
  "case Load environ of
     Inl err \<Rightarrow> build environ E = Inl (wrap_in ''load config'' err)
   | Inr cfg \<Rightarrow> \<exists>d. build environ E = Inr d \<and> emits (allowed_event cfg c) (Register E d c)"
  using program_emits by (auto simp: build_eq split: sum.split)

definition harmless :: "event \<Rightarrow> bool" where
  "harmless e \<longleftrightarrow>
     (case e of Requested rq \<Rightarrow> rq_Method rq = MethodGet \<and> rq_Body rq = [] | _ \<Rightarrow> True)"

lemma allowed_harmless: "cf_DisableMutations cfg \<Longrightarrow> allowed_event cfg c e \<Longrightarrow> harmless e"
  by (cases e) (auto simp: allowed_event_def harmless_def get_only_def read_event_def split: tool_call.splits)

lemma serve_emits: "(\<And>c. emits P (Register E d c)) \<Longrightarrow> emits P (serve E d cs)"
  by (induction cs) (auto intro!: emits.rules)

text \<open>C2. Read-only by default: unless DISABLE_MUTATIONS is set to a false value, the whole program, whatever tools
  are called and whatever GitHub answers, never sends a request that is not a GET without a body.\<close>

theorem read_only_by_default:
  "if ParseBool (TrimSpace (environ ''DISABLE_MUTATIONS'')) = Inr False then True
   else emits harmless (run environ E calls ended)"
proof -
  have "emits harmless (run environ E calls ended)"
    if opt: "ParseBool (TrimSpace (environ ''DISABLE_MUTATIONS'')) \<noteq> Inr False"
  proof (cases "Load environ")
    case (Inr cfg)
    then have dis: "cf_DisableMutations cfg" using Load_mutations opt by blast
    have "emits harmless (Register E (program E cfg) c)" for c
      by (rule emits_mono [OF program_emits]) (rule allowed_harmless [OF dis])
    then show ?thesis
      unfolding run_def build_eq Inr sum.case TakeSnapshot_def
      by (intro emits.rules emits_log serve_emits emits_now) (simp_all add: harmless_def)
  qed (simp add: run_def build_eq emits.ret_moves)
  then show ?thesis by simp
qed

section \<open>What the program counts\<close>

lemma Append_metrics: "moves same_metrics (Append E st e)"
  by (simp add: moves_def same_metrics_def jsonl.metrics_kept)

lemma program_Rerun_moves:
  assumes "effect R" "moves R (now E)" "\<And>l m. moves R (log_msg l m)" "\<And>e. moves R (sv_audit (dp_Service (program E cfg)) e)"
    and "\<And>P w w'. quiet P w w' \<Longrightarrow> R w w'"
  shows "moves R (Service.Rerun E (dp_Service (program E cfg)) p repo i f reason)"
proof (cases "rerun_checks (dp_Service (program E cfg)) p repo i reason")
  case (Inr pr)
  obtain prov r where pr: "pr = (prov, r)" by (cases pr)
  have res: "resolveProvider (dp_Service (program E cfg)) p = Inr prov" and rp: "ad_ParseRepository prov repo = Inr r"
    using Inr unfolding pr
    by (auto simp: rerun_checks_def parse_repository_def split: sum.splits if_splits)
  have prov: "prov = adapter (github_adapter E cfg)"
    using res by (auto simp: resolveProvider_def new_dependencies_def dest: github_resolve split: sum.splits)
  have "adapter_ParseRepository repo = Inr r" using rp by (simp add: prov adapter_def)
  then have "moves R (ad_Rerun prov r i f)"
    using adapter_Rerun_emits assms(5) unfolding prov adapter_def Adapter.select_convs moves_def by metis
  then show ?thesis
    unfolding Service.Rerun_def Inr pr emitAudit_def sum.case prod.case
    by (intro effect.rules [OF assms(1)] assms)
qed (simp add: Service.Rerun_def effect.ret_moves [OF assms(1)])

interpretation program_metered: metered E "program E cfg" "NewCollector (cf_MetricsExportPath cfg)" for E cfg
proof
  show "moves same_metrics (Service.Rerun E (dp_Service (program E cfg)) p repo n b reason)" for p repo n b reason
    by (rule program_Rerun_moves)
      (auto simp: same_metrics.effect_axioms new_dependencies_def Append_metrics quiet_def same_metrics_def)
qed (simp_all add: program_metrics.reads, simp add: new_dependencies_def)

context metered
begin

lemma serve_counts:
  "holds (w_metrics w) h \<Longrightarrow>
   \<exists>h'. map (\<lambda>(ob, st). (ob_Tool ob, ob_Success ob)) h' =
        map2 (\<lambda>c r. (tool_name c, fst r = None)) cs (val (serve E d cs) w) \<and>
     length (val (serve E d cs) w) = length cs \<and>
     holds (w_metrics (after (serve E d cs) w)) (h @ h')"
proof (induction cs arbitrary: w h)
  case (Cons c cs)
  obtain ob st where ob: "ob_Tool ob = tool_name c" "ob_Success ob = (fst (val (Register E d c) w) = None)"
    "holds (w_metrics (after (Register E d c) w)) (h @ [(ob, st)])"
    using Register_counts [OF Cons.prems] by blast
  from Cons.IH [OF ob(3)] obtain h' where
    "map (\<lambda>(ob, st). (ob_Tool ob, ob_Success ob)) h' =
       map2 (\<lambda>c r. (tool_name c, fst r = None)) cs (val (serve E d cs) (after (Register E d c) w))"
    "length (val (serve E d cs) (after (Register E d c) w)) = length cs"
    "holds (w_metrics (after (serve E d cs) (after (Register E d c) w))) ((h @ [(ob, st)]) @ h')" by blast
  then show ?case using ob by (intro exI [of _ "(ob, st) # h'"]) simp
qed simp

end

lemma counts_from_outcomes:
  assumes "map (\<lambda>(ob, st). (ob_Tool ob, ob_Success ob)) h = map (\<lambda>(c, r). (tool_name c, fst r = None)) z"
  shows "tm_Calls (metric_of (of_tool tool h)) = wrap64 (int (length (filter (\<lambda>(c, r). tool_name c = tool) z)))"
    "tm_Errors (metric_of (of_tool tool h)) =
      wrap64 (int (length (filter (\<lambda>(c, r). tool_name c = tool \<and> fst r \<noteq> None) z)))"
proof -
  have count: "length (filter (\<lambda>(ob, st). Q (ob_Tool ob, ob_Success ob)) h) =
      length (filter (\<lambda>(c, r). Q (tool_name c, fst r = None)) z)" for Q
  proof -
    have "length (filter (\<lambda>(ob, st). Q (ob_Tool ob, ob_Success ob)) h) =
        length (filter Q (map (\<lambda>(ob, st). (ob_Tool ob, ob_Success ob)) h))"
      by (simp add: filter_map o_def case_prod_unfold)
    also have "\<dots> = length (filter (\<lambda>(c, r). Q (tool_name c, fst r = None)) z)"
      unfolding assms by (simp add: filter_map o_def case_prod_unfold)
    finally show ?thesis .
  qed
  show "tm_Calls (metric_of (of_tool tool h)) = wrap64 (int (length (filter (\<lambda>(c, r). tool_name c = tool) z)))"
    using count [of "\<lambda>(t, ok). t = tool"] by (simp add: metric_of_def of_tool_def Let_def case_prod_unfold)
  show "tm_Errors (metric_of (of_tool tool h)) =
      wrap64 (int (length (filter (\<lambda>(c, r). tool_name c = tool \<and> fst r \<noteq> None) z)))"
    using count [of "\<lambda>(t, ok). t = tool \<and> \<not> ok"]
    by (simp add: metric_of_def of_tool_def Let_def case_prod_unfold filter_map o_def conj_commute)
qed

text \<open>C10. The counters of the program are those of its calls: starting without metrics, after any sequence of tool
  calls every tool's Calls is the number of its calls and its Errors the number of those that were answered
  by an error result (modulo 2^64), whatever GitHub, the clock and the file system did.\<close>

theorem calls_counted:
  "case build environ E of
     Inl _ \<Rightarrow> True
   | Inr d \<Rightarrow>
       let w0 = w\<lparr>w_metrics := []\<rparr>; z = zip cs (val (serve E d cs) w0);
           m = lookup_metric tool (w_metrics (after (serve E d cs) w0))
       in length z = length cs \<and>
          tm_Calls m = wrap64 (int (length (filter (\<lambda>(c, r). tool_name c = tool) z))) \<and>
          tm_Errors m = wrap64 (int (length (filter (\<lambda>(c, r). tool_name c = tool \<and> fst r \<noteq> None) z)))"
proof (cases "Load environ")
  case (Inr cfg)
  let ?w = "w\<lparr>w_metrics := []\<rparr>" and ?d = "program E cfg"
  have "holds (w_metrics ?w) []" by (simp add: holds_Nil)
  from program_metered.serve_counts [OF this, where E = E and cfg = cfg and cs = cs] obtain h where
    h: "map (\<lambda>(ob, st). (ob_Tool ob, ob_Success ob)) h =
        map2 (\<lambda>c r. (tool_name c, fst r = None)) cs (val (serve E ?d cs) ?w)"
      "length (val (serve E ?d cs) ?w) = length cs"
      "holds (w_metrics (after (serve E ?d cs) ?w)) h"
    by auto
  show ?thesis
    using counts_from_outcomes [OF h(1)] h(2) holds_lookup [OF h(3)] by (simp add: build_eq Inr Let_def)
qed (simp add: build_eq)

section \<open>What a rerun records\<close>

text \<open>
  The contract of a rerun with the audit store: the provider's rerun leaves the log alone, so does
  everything but the append, and an event for the request reaches the store.
\<close>

definition rerun_record :: "Service \<Rightarrow> string \<Rightarrow> int \<Rightarrow> bool \<Rightarrow> string \<Rightarrow> bool \<Rightarrow> AuditEvent \<Rightarrow> bool" where
  "rerun_record s repository i f reason ok e \<longleftrightarrow>
     ae_Tool e = ''pipeline.rerun'' \<and> ae_Actor e = cf_Actor (sv_cfg s) \<and> ae_Repository e = repository \<and>
     ae_RunID e = i \<and> ae_Reason e = reason \<and> ae_Scope e = rerun_scope f \<and>
     ae_Outcome e = (if ok then ''success'' else ''failed'')"

lemma same_files_content: "same_files w w' \<Longrightarrow> log_content p w' = log_content p w"
  by (simp add: same_files_def log_content_def)

lemma emitAudit_appends:
  "\<exists>e v. rerun_record s repository i f reason ok e \<and> same_files w v \<and>
     val (emitAudit E s repository i reason (rerun_scope f) (if ok then ''success'' else ''failed'')) w = val (sv_audit s e) v \<and>
     after (emitAudit E s repository i reason (rerun_scope f) (if ok then ''success'' else ''failed'')) w = after (sv_audit s e) v"
proof -
  let ?t = "\<lambda>n. e_now E (w_trace w @ replicate n ReadClock)"
  let ?e = "\<lparr>ae_EventID = ''evt_'' @ Itoa (UnixNano (?t 1)) @ ''_'' @ Itoa i, ae_Tool = ''pipeline.rerun'',
    ae_Actor = cf_Actor (sv_cfg s), ae_Repository = repository, ae_RunID = i, ae_Reason = reason,
    ae_Scope = rerun_scope f, ae_Timestamp = FormatRFC3339 (?t 2),
    ae_Outcome = (if ok then ''success'' else ''failed''), ae_Signature = []\<rparr>"
  show ?thesis
    by (intro exI [of _ ?e] exI [of _ "w\<lparr>w_trace := w_trace w @ [ReadClock, ReadClock]\<rparr>"])
      (simp add: emitAudit_def rerun_record_def same_files_def numeral_2_eq_2)
qed

lemma program_audit: "sv_audit (dp_Service (program E cfg)) =
  Append E (NewJSONLStore (cf_AuditLogPath cfg) (cf_AuditSigningKey cfg))"
  by (simp add: new_dependencies_def)

text \<open>
  The store was asked to append the event while the log still held what it did in \<open>w\<close>; it answered \<open>written\<close>
  and left \<open>w'\<close>, with the whole line behind the old contents if it did not fail, and with a part of it otherwise.
\<close>

definition writes_record :: "env \<Rightarrow> JSONLStore \<Rightarrow> AuditEvent \<Rightarrow> world \<Rightarrow> unit result \<Rightarrow> world \<Rightarrow> bool" where
  "writes_record E st e w written w' \<longleftrightarrow>
     (\<exists>v. log_content (js_path st) v = log_content (js_path st) w \<and>
        written = val (Append E st e) v \<and> w' = after (Append E st e) v) \<and>
     (case written of
        Inr _ \<Rightarrow> log_content (js_path st) w' = log_content (js_path st) w @ audit_line st e
      | Inl _ \<Rightarrow> \<exists>k. log_content (js_path st) w' = log_content (js_path st) w @ take k (audit_line st e))"

lemma emitAudit_log:
  fixes E cfg repository i reason f ok w
  defines "s \<equiv> dp_Service (program E cfg)"
    and "st \<equiv> NewJSONLStore (cf_AuditLogPath cfg) (cf_AuditSigningKey cfg)"
  defines "m \<equiv> emitAudit E s repository i reason (rerun_scope f) (if ok then ''success'' else ''failed'')"
  assumes c: "same_files u w"
  shows "\<exists>e. rerun_record s repository i f reason ok e \<and> writes_record E st e u (val m w) (after m w)"
proof -
  obtain e v where e: "rerun_record s repository i f reason ok e" "same_files w v"
    "val m w = val (Append E st e) v" "after m w = after (Append E st e) v"
    using emitAudit_appends [of s repository i f reason ok w E] unfolding m_def s_def program_audit st_def by blast
  have l: "log_content (js_path st) v = log_content (js_path st) u"
    using same_files_content [OF e(2)] same_files_content [OF c] by simp
  have "case val m w of
       Inr _ \<Rightarrow> log_content (js_path st) (after m w) = log_content (js_path st) u @ audit_line st e
     | Inl _ \<Rightarrow> \<exists>k. log_content (js_path st) (after m w) = log_content (js_path st) u @ take k (audit_line st e)"
    using Append_outcome [where E = E and s = st and e = e and w = v] unfolding e(3,4) l
    by (auto split: sum.splits dest: log_content_File)
  with e l show ?thesis unfolding writes_record_def by blast
qed

lemma rerun_request_quiet:
  assumes "rerun_checks (dp_Service (program E cfg)) p repo i reason = Inr (prov, r)"
  shows "\<exists>P. moves (quiet P) (ad_Rerun prov r i f)"
proof -
  have "resolveProvider (dp_Service (program E cfg)) p = Inr prov" and rp: "ad_ParseRepository prov repo = Inr r"
    using assms by (auto simp: rerun_checks_def parse_repository_def split: sum.splits if_splits)
  then have prov: "prov = adapter (github_adapter E cfg)"
    by (auto simp: resolveProvider_def new_dependencies_def dest: github_resolve split: sum.splits)
  have "adapter_ParseRepository repo = Inr r" using rp by (simp add: prov adapter_def)
  from adapter_Rerun_emits [OF this] show ?thesis
    unfolding prov adapter_def Adapter.select_convs by metis
qed

lemma rerun_request_files:
  assumes "rerun_checks (dp_Service (program E cfg)) p repo i reason = Inr (prov, r)"
  shows "same_files w (after (ad_Rerun prov r i f) (after (now E) w))"
proof -
  obtain P where "moves (quiet P) (ad_Rerun prov r i f)" using rerun_request_quiet [OF assms] by blast
  from movesD [OF this, of "after (now E) w"] show ?thesis by (simp add: quiet_def same_files_def)
qed


text \<open>
  What reaches the log's output: the handler drops the records below the configured level. The record that a
  rerun leaves when its audit event could not be written is never dropped.
\<close>

definition log_output :: "Config \<Rightarrow> event list \<Rightarrow> (log_level \<times> string) list" where
  "log_output cfg tr =
     concat (map (\<lambda>e. case e of Logged l m \<Rightarrow> if cf_LogLevel cfg \<le> l then [(l, m)] else [] | _ \<Rightarrow> []) tr)"

lemma level_error_greatest: "l \<le> LevelError"
  by (cases l) (simp_all add: less_eq_log_level_def)

lemma error_record_written:
  "log_output cfg (w_trace (after (log_msg LevelError m) w)) = log_output cfg (w_trace w) @ [(LevelError, m)]"
  by (simp add: log_output_def level_error_greatest)

section \<open>Which run is meant\<close>


theorem Resolve_spec_witness:
  "case Resolve (Some (github_registry quiet_env default_config)) ''  '' of
     Inr a \<Rightarrow> a \<in> set (rg_ordered (github_registry quiet_env default_config)) \<and>
       provider_key a = (if TrimSpace ''  '' = '''' then rg_defaultProvider (github_registry quiet_env default_config)
         else TrimSpace ''  '')
   | Inl _ \<Rightarrow> TrimSpace ''  '' \<notin> provider_key ` set (rg_ordered (github_registry quiet_env default_config)) \<and>
       TrimSpace ''  '' \<noteq> ''''"
  by (rule Resolve_spec [OF wf_github_registry])

theorem ResolveRunURL_first_witness:
  "case ResolveRunURL (Some (github_registry quiet_env default_config)) [] ''https://github.com/a/b/actions/runs/1'' of
     Inr (a, l) \<Rightarrow> (\<exists>us vs. rg_ordered (github_registry quiet_env default_config) = us @ a # vs \<and>
       ad_ParseRunURL a ''https://github.com/a/b/actions/runs/1'' = Inr l \<and>
       list_all (\<lambda>u. isl (ad_ParseRunURL u ''https://github.com/a/b/actions/runs/1'')) us)
   | Inl _ \<Rightarrow> list_all (\<lambda>a. isl (ad_ParseRunURL a ''https://github.com/a/b/actions/runs/1''))
       (rg_ordered (github_registry quiet_env default_config))"
  by (rule ResolveRunURL_first [OF wf_github_registry]) simp

section \<open>How the program ends\<close>


end
