(* ===== verification/Answers.thy ===== *)
theory Answers
  imports Server Client_Calls
begin

text \<open>
  The whole program against an API that holds a run: what \<open>pipeline.get_run\<close>, \<open>pipeline.diagnose_failure\<close> and
  \<open>pipeline.rerun\<close> answer, from the environment variables and the arguments of the call to the responses on the
  wire and back. The predicates say what the API serves under which URL, whatever was asked before; the URLs
  and the JSON are those of the client.
\<close>

section \<open>An API that holds a run\<close>

text \<open>Every request for \<open>url\<close> gets a response with a success status and the given body.\<close>

definition serves :: "env \<Rightarrow> string \<Rightarrow> string \<Rightarrow> bool" where
  "serves E url body \<longleftrightarrow> \<not> isl (url_Parse url) \<and>
     (\<forall>tr rq. rq_URL rq = url \<longrightarrow>
        (\<exists>r. e_http E tr rq = Inr r \<and> 200 \<le> rs_Status r \<and> rs_Status r < 300 \<and> rs_Body r = Inr body))"

definition serves_json :: "env \<Rightarrow> string \<Rightarrow> 'a decoder \<Rightarrow> 'a \<Rightarrow> bool" where
  "serves_json E url dec x \<longleftrightarrow> (\<exists>body. serves E url body \<and> body \<noteq> [] \<and> Unmarshal dec body = Some x)"

definition run_endpoint :: "string \<Rightarrow> string \<Rightarrow> int \<Rightarrow> string" where
  "run_endpoint owner repo i = runs_path owner repo @ ''/'' @ Itoa i"

definition jobs_endpoint :: "string \<Rightarrow> string \<Rightarrow> int \<Rightarrow> int \<Rightarrow> string" where
  "jobs_endpoint owner repo i p = run_endpoint owner repo i @ ''/jobs?per_page=100&page='' @ Itoa p"

text \<open>The first ten pages of the jobs, a hundred at a time.\<close>

definition serves_jobs :: "env \<Rightarrow> string \<Rightarrow> string \<Rightarrow> string \<Rightarrow> int \<Rightarrow> Job_gh list \<Rightarrow> bool" where
  "serves_jobs E base owner repo i js \<longleftrightarrow>
     list_all (\<lambda>p. \<exists>n. serves_json E (base @ jobs_endpoint owner repo i p) dec_listJobsResponse
         \<lparr>lj_TotalCount = n, lj_Jobs = page_of 100 js p\<rparr>) [1..10]"

lemma serves_doBytes:
  assumes "serves E (cl_baseURL c @ ep) body"
  shows "val (doBytes E c m ep b wr) w = Inr body"
    and "after (doBytes E c m ep b wr) w = w\<lparr>w_trace := w_trace w @ [Requested (build_request c m ep b wr)]\<rparr>"
proof -
  obtain u where u: "url_Parse (cl_baseURL c @ ep) = Inr u" using assms by (cases "url_Parse (cl_baseURL c @ ep)") (auto simp: serves_def)
  obtain r where r: "e_http E (w_trace w @ [Requested (build_request c m ep b wr)]) (build_request c m ep b wr) = Inr r"
    "200 \<le> rs_Status r" "rs_Status r < 300" "rs_Body r = Inr body"
    using assms unfolding serves_def by (metis build_request_def http_request.select_convs(2))
  have "val (doOnce E c m ep b wr) w = Inr body" using u r by (simp add: doOnce_def classify_def)
  then show "val (doBytes E c m ep b wr) w = Inr body"
    "after (doBytes E c m ep b wr) w = w\<lparr>w_trace := w_trace w @ [Requested (build_request c m ep b wr)]\<rparr>"
    by (simp_all add: doBytes_attempts attempts_unfold after_doOnce u)
qed

lemma serves_doJSON: "serves_json E (cl_baseURL c @ ep) dec x \<Longrightarrow> val (doJSON E c m ep b wr dec z) w = Inr x"
  by (auto simp: serves_json_def doJSON_def and_then_simps serves_doBytes)

lemma serves_GetRun:
  "serves_json E (cl_baseURL c @ run_endpoint owner repo i) dec_WorkflowRun r \<Longrightarrow> val (GetRun E c owner repo i) w = Inr r"
  by (simp add: GetRun_def run_endpoint_def serves_doJSON)

lemma Itoa_100: "Itoa 100 = ''100''"
  by code_simp

lemma serves_ListRunJobs:
  assumes "serves_jobs E (cl_baseURL c) owner repo i js"
  shows "val (ListRunJobs E c owner repo i) w = Inr (take 1000 js)"
proof (rule ListRunJobs_serves)
  fix p :: int and w
  assume "1 \<le> p" "p \<le> 10"
  then obtain n where "serves_json E (cl_baseURL c @ jobs_endpoint owner repo i p) dec_listJobsResponse
      \<lparr>lj_TotalCount = n, lj_Jobs = page_of 100 js p\<rparr>"
    using assms unfolding serves_jobs_def list_all_iff set_upto by fastforce
  from serves_doJSON [OF this] show "val (jobs_page E c owner repo i p) w = Inr (page_of 100 js p)"
    by (simp add: jobs_page_def and_then_simps jobs_endpoint_def run_endpoint_def defaultPerPage_def Itoa_100)
qed

lemma serves_logs:
  assumes "serves E (cl_baseURL c @ run_endpoint owner repo i @ ''/logs'') body" "body \<noteq> []"
    "unzipOrText E body n = Inr logs"
  shows "val (DownloadRunLogs E c owner repo i n) w = Inr logs"
proof -
  have "unzipOrText E body (log_limit n) = Inr logs" using assms(3) by (simp add: unzipOrText_def log_limit_def)
  moreover have "val (doBytes E c MethodGet (runs_path owner repo @ ''/'' @ Itoa i @ ''/logs'') [] False) w = Inr body"
    by (rule serves_doBytes) (use assms(1) in \<open>simp add: run_endpoint_def\<close>)
  ultimately show ?thesis using assms(2) by (simp add: DownloadRunLogs_def)
qed

section \<open>The reference of a call\<close>

text \<open>
  A run URL names its run; without one, a positive run id and the repository do. The provider is left out or
  the one there is.
\<close>

definition names_run :: "RunReference \<Rightarrow> string \<Rightarrow> string \<Rightarrow> int \<Rightarrow> bool" where
  "names_run r owner repo i \<longleftrightarrow>
     (TrimSpace (ref_Provider r) = '''' \<or> TrimSpace (ref_Provider r) = ProviderGitHub) \<and>
     ParseRepository (owner @ ''/'' @ repo) = Inr (owner, repo) \<and>
     (if TrimSpace (ref_RunURL r) \<noteq> '''' then
        ParseRunURL (ref_RunURL r) =
          Inr \<lparr>lc_Owner = owner, lc_Repo = repo, lc_RunID = i, lc_RunURL = run_url owner repo i\<rparr>
      else 0 < i \<and> ref_RunID r = i \<and> ParseRepository (ref_Repository r) = Inr (owner, repo))"

abbreviation github :: "env \<Rightarrow> Config \<Rightarrow> Adapter" where
  "github E cfg \<equiv> adapter (github_adapter E cfg)"

lemma github_resolves:
  "TrimSpace p = '''' \<or> TrimSpace p = ProviderGitHub \<Longrightarrow> Resolve (Some (github_registry E cfg)) p = Inr (github E cfg)"
  by (auto simp: Resolve_def github_registry_def selected_provider_def Let_def)

lemma names_run_resolves:
  assumes "names_run r owner repo i"
  shows "resolveRunReference (dp_Service (program E cfg)) r True =
    ret (Inr (github E cfg, \<lparr>rl_Repository = owner @ ''/'' @ repo, rl_RunID = i, rl_RunURL = run_url owner repo i\<rparr>))"
proof -
  let ?s = "dp_Service (program E cfg)"
  have s: "sv_providers ?s = Some (github_registry E cfg)" by (simp add: new_dependencies_def)
  have p: "TrimSpace (ref_Provider r) = '''' \<or> TrimSpace (ref_Provider r) = ProviderGitHub"
    using assms by (simp add: names_run_def)
  have prov: "resolveProvider ?s (ref_Provider r) = Inr (github E cfg)"
    by (simp add: resolveProvider_def s github_resolves [OF p])
  show ?thesis
  proof (cases "TrimSpace (ref_RunURL r) = ''''")
    case True
    with assms prov show ?thesis
      by (simp add: resolveRunReference_def names_run_def adapter_def adapter_ParseRepository_def adapter_RunURL_def)
  next
    case False
    with assms have u: "ad_ParseRunURL (github E cfg) (ref_RunURL r) =
        Inr \<lparr>rl_Repository = owner @ ''/'' @ repo, rl_RunID = i, rl_RunURL = run_url owner repo i\<rparr>"
      by (simp add: names_run_def adapter_def adapter_ParseRunURL_def Repository_def)
    have one: "length (rg_ordered (github_registry E cfg)) = 1" "hd (rg_ordered (github_registry E cfg)) = github E cfg"
      by (simp_all add: github_registry_def)
    have "ResolveRunURL (Some (github_registry E cfg)) (ref_Provider r) (ref_RunURL r) =
        Inr (github E cfg, \<lparr>rl_Repository = owner @ ''/'' @ repo, rl_RunID = i, rl_RunURL = run_url owner repo i\<rparr>)"
      using p by (auto simp: ResolveRunURL_def Let_def parse_with_def u one github_resolves)
    with False show ?thesis by (simp add: resolveRunReference_def resolveProviderForRunURL_def s)
  qed
qed

section \<open>Reading a run\<close>

lemma named_repository: "names_run r owner repo i \<Longrightarrow> ParseRepository (owner @ ''/'' @ repo) = Inr (owner, repo)"
  by (simp add: names_run_def)

lemma github_reads:
  assumes "ParseRepository repository = Inr (owner, repo)"
  shows "ad_GetRun (github E cfg) repository i =
      and_then (GetRun E (github_client cfg) owner repo i) (\<lambda>r. ret (Inr (toProviderRun r)))"
    "ad_ListRunJobs (github E cfg) repository i =
      and_then (ListRunJobs E (github_client cfg) owner repo i) (\<lambda>js. ret (Inr (toProviderJobs js)))"
    "ad_DownloadRunLogs (github E cfg) repository i n =
      and_then (DownloadRunLogs E (github_client cfg) owner repo i n) (\<lambda>s. ret (Inr s))"
    "ad_Rerun (github E cfg) repository i f =
      and_then (Client.Rerun E (github_client cfg) owner repo i f) (\<lambda>u. ret (Inr u))"
  using assms
  by (simp_all add: adapter_def adapter_defs adapter_Rerun_def for_repo_def ownerRepo_def github_adapter_def
      NewProviderAdapter_def client_api_def)

text \<open>The API of the configuration holds the run \<open>r\<close> with the jobs \<open>js\<close>.\<close>

definition holds_run :: "env \<Rightarrow> Config \<Rightarrow> string \<Rightarrow> string \<Rightarrow> int \<Rightarrow> WorkflowRun \<Rightarrow> Job_gh list \<Rightarrow> bool" where
  "holds_run E cfg owner repo i r js \<longleftrightarrow>
     serves_json E (TrimRightSlash (cf_GitHubAPIBaseURL cfg) @ run_endpoint owner repo i) dec_WorkflowRun r \<and>
     serves_jobs E (TrimRightSlash (cf_GitHubAPIBaseURL cfg)) owner repo i js"

lemma client_base [simp]: "cl_baseURL (github_client cfg) = TrimRightSlash (cf_GitHubAPIBaseURL cfg)"
  by (simp add: github_client_def NewClient_def)

lemma held_run_reads:
  assumes "ParseRepository repository = Inr (owner, repo)" "holds_run E cfg owner repo i r js"
  shows "val (ad_GetRun (github E cfg) repository i) w = Inr (toProviderRun r)"
    and "val (ad_ListRunJobs (github E cfg) repository i) w = Inr (toProviderJobs (take 1000 js))"
proof -
  have "val (GetRun E (github_client cfg) owner repo i) v = Inr r"
    "val (ListRunJobs E (github_client cfg) owner repo i) v = Inr (take 1000 js)" for v
    using assms(2) by (simp_all add: holds_run_def serves_GetRun serves_ListRunJobs)
  then show "val (ad_GetRun (github E cfg) repository i) w = Inr (toProviderRun r)"
    "val (ad_ListRunJobs (github E cfg) repository i) w = Inr (toProviderJobs (take 1000 js))"
    by (simp_all add: github_reads [OF assms(1)] and_then_simps)
qed

lemma ProviderID_github: "ad_ProviderID (github E cfg) = ProviderGitHub"
  by simp

lemma program_get_run:
  assumes "names_run r owner repo i" "holds_run E cfg owner repo i wr js"
  shows "val (Service.GetRun E (dp_Service (program E cfg)) r) w =
    Inr (normalizeRun ProviderGitHub (toProviderRun wr) (owner @ ''/'' @ repo) (run_url owner repo i)
      (toProviderJobs (take 1000 js)))"
proof -
  define repository where "repository = owner @ ''/'' @ repo"
  note reads = held_run_reads [OF named_repository [OF assms(1)] assms(2), folded repository_def]
  show ?thesis
    unfolding Service.GetRun_def names_run_resolves [OF assms(1)] repository_def [symmetric]
    by (simp add: and_then_simps mapped_def reads)
qed

lemma no_gate: "list_all (\<lambda>j. \<not> gate_candidate j) jobs \<Longrightarrow> diagnoseMetadataFailure prov repository jobs = ret None"
  by (induction jobs) (simp_all add: diagnose_job_skips)

lemma program_diagnose:
  assumes "names_run r owner repo i" "holds_run E cfg owner repo i wr js"
    and "list_all (\<lambda>j. \<not> gate_candidate j) (toProviderJobs (take 1000 js))"
    and "serves E (TrimRightSlash (cf_GitHubAPIBaseURL cfg) @ run_endpoint owner repo i @ ''/logs'') body" "body \<noteq> []"
    and "unzipOrText E body (clamp_log_bytes cfg n) = Inr logs"
  shows "val (Service.DiagnoseFailure (dp_Service (program E cfg)) r n) w =
    Inr (diagnose_logs logs (toProviderJobs (take 1000 js)))"
proof -
  define repository where "repository = owner @ ''/'' @ repo"
  note named = named_repository [OF assms(1), folded repository_def]
  have cfg: "sv_cfg (dp_Service (program E cfg)) = cfg" by (simp add: new_dependencies_def)
  have "val (DownloadRunLogs E (github_client cfg) owner repo i (clamp_log_bytes cfg n)) v = Inr logs" for v
    by (rule serves_logs) (use assms(4-6) in simp_all)
  then have "val (ad_DownloadRunLogs (github E cfg) repository i (clamp_log_bytes cfg n)) v = Inr logs" for v
    by (simp add: github_reads [OF named] and_then_simps)
  then show ?thesis
    unfolding Service.DiagnoseFailure_def names_run_resolves [OF assms(1)] repository_def [symmetric] cfg
    by (simp add: and_then_simps mapped_def download_logs_def held_run_reads [OF named assms(2)] no_gate [OF assms(3)] Let_def)
qed

lemma handled_value:
  "val m (after (now E) w) = Inr x \<Longrightarrow>
   val (handled E d tool m confidence) w = (None, \<lparr>out_Value = Some x, out_Error = None\<rparr>)"
  by (simp add: handled_def del: after_now)

lemma built: "Load environ = Inr cfg \<Longrightarrow> build environ E = Inr d \<Longrightarrow> d = program E cfg"
  by (simp add: build_eq)

text \<open>C5. Reading a run, from the arguments to the wire and back: where a call names a run, by its URL or by repository and
  id, and the API of the configuration holds that run with its jobs, \<open>pipeline.get_run\<close> answers without an error with
  that run, normalized, under the repository and the canonical URL, with the failure of its first failed job
  among the first thousand.\<close>

theorem get_run_answers:
  assumes "Load environ = Inr cfg" "build environ E = Inr d"
    and "names_run \<lparr>ref_Provider = li_Provider c, ref_RunURL = li_RunURL c, ref_RunID = li_RunID c,
      ref_Repository = li_Repository c\<rparr> owner repo i"
    and "holds_run E cfg owner repo i r js"
  shows "val (Register E d (CallGetRun c)) w =
    (None, OutGetRun \<lparr>out_Value = Some (normalizeRun ProviderGitHub (toProviderRun r) (owner @ ''/'' @ repo)
        (run_url owner repo i) (toProviderJobs (take 1000 js))), out_Error = None\<rparr>)"
  by (simp only: Register_def tool_call.case val_answer getRun_def built [OF assms(1,2)]
      handled_value [OF program_get_run [OF assms(3,4)]] fst_conv snd_conv)

text \<open>C6. Explaining a run, the whole way: where the API holds the named run, its jobs and its logs, and no job failed before
  its first step, \<open>pipeline.diagnose_failure\<close> answers without an error with the diagnosis of the redacted text of
  the log archive, read up to the limit of the call and the configuration.\<close>

theorem diagnose_answers:
  assumes "Load environ = Inr cfg" "build environ E = Inr d"
    and "names_run \<lparr>ref_Provider = di_Provider c, ref_RunURL = di_RunURL c, ref_RunID = di_RunID c,
      ref_Repository = di_Repository c\<rparr> owner repo i"
    and "holds_run E cfg owner repo i r js"
    and "list_all (\<lambda>j. \<not> gate_candidate j) (toProviderJobs (take 1000 js))"
    and "serves E (TrimRightSlash (cf_GitHubAPIBaseURL cfg) @ run_endpoint owner repo i @ ''/logs'') body" "body \<noteq> []"
    and "unzipOrText E body (clamp_log_bytes cfg (di_MaxLogBytes c)) = Inr logs"
  shows "val (Register E d (CallDiagnoseFailure c)) w =
    (None, OutDiagnoseFailure \<lparr>out_Value = Some (diagnose_logs logs (toProviderJobs (take 1000 js))), out_Error = None\<rparr>)"
  by (simp only: Register_def tool_call.case val_answer diagnoseFailure_def built [OF assms(1,2)]
      handled_value [OF program_diagnose [OF assms(3-8)]] fst_conv snd_conv)

section \<open>Requesting a rerun\<close>

definition sent :: "world \<Rightarrow> http_request list" where
  "sent w = concat (map (\<lambda>e. case e of Requested rq \<Rightarrow> [rq] | _ \<Rightarrow> []) (w_trace w))"

definition no_request :: "event \<Rightarrow> bool" where
  "no_request e \<longleftrightarrow> (case e of Requested _ \<Rightarrow> False | _ \<Rightarrow> True)"

lemma no_request_simps [simp]:
  "no_request ReadClock" "no_request (Called c)" "no_request (Logged l m)" "no_request (Waited d)"
  by (simp_all add: no_request_def)

lemma sends_nothing: "emits no_request m \<Longrightarrow> sent (after m w) = sent w"
proof -
  assume "emits no_request m"
  then obtain es where "w_trace (after m w) = w_trace w @ es" "list_all no_request es"
    unfolding moves_def grows_def by blast
  then show ?thesis by (auto simp: sent_def no_request_def list_all_iff split: event.splits)
qed

text \<open>The export of the counters keeps the contents of every file but its own.\<close>

definition same_log :: "string \<Rightarrow> world \<Rightarrow> world \<Rightarrow> bool" where
  "same_log p w w' \<longleftrightarrow> log_content p w' = log_content p w"

interpretation same_log: effect "same_log p" for p
  by unfold_locales (simp_all add: same_log_def)

lemma same_log_steps:
  "moves (same_log p) (now E)" "moves (same_log p) (log_msg l m)" "moves (same_log p) (update_metric tool f)"
  "moves (same_log p) (os_MkdirAll E d k)" "q \<noteq> p \<Longrightarrow> moves (same_log p) (os_Create E q)"
  "q \<noteq> p \<Longrightarrow> moves (same_log p) (file_Write E q s)"
  using movesD [OF os_MkdirAll_same [of p]]
  by (auto simp: moves_def same_log_def same_content_def log_content_def os_Create_def open_with_def file_Write_def
      split: option.splits prod.splits node.splits)

lemma Observe_same_log:
  "cf_MetricsExportPath cfg \<noteq> p \<Longrightarrow> moves (same_log p) (Observe E (NewCollector (cf_MetricsExportPath cfg)) tool d ok confidence)"
  unfolding Observe_def writeSnapshotLocked_def write_snapshot_def NewCollector_def Collector.select_convs
  by (intro same_log.rules same_log_steps)

lemma observe_same_log:
  "cf_MetricsExportPath cfg \<noteq> p \<Longrightarrow> moves (same_log p) (observe E (program E cfg) tool start ok confidence)"
  unfolding observe_def new_dependencies_def Dependencies.select_convs option.case
  by (intro same_log.rules same_log_steps Observe_same_log)

lemma program_rerun_checks:
  assumes "\<not> cf_DisableMutations cfg" "TrimSpace p = '''' \<or> TrimSpace p = ProviderGitHub"
    "ParseRepository repo = Inr (owner, name)" "0 < i" "TrimSpace reason \<noteq> ''''"
  shows "rerun_checks (dp_Service (program E cfg)) p repo i reason = Inr (github E cfg, owner @ ''/'' @ name)"
  using assms
  by (simp add: rerun_checks_def resolveProvider_def new_dependencies_def github_resolves parse_repository_def adapter_def
      adapter_ParseRepository_def)

lemma sent_POST:
  assumes "serves E (cl_baseURL c @ rerun_endpoint owner name i f) body" "TrimSpace (cl_writeToken c) \<noteq> ''''"
  shows "val (Client.Rerun E c owner name i f) w = Inr ()"
    and "after (Client.Rerun E c owner name i f) w = w\<lparr>w_trace := w_trace w @
      [Requested (build_request c MethodPost (rerun_endpoint owner name i f) rerun_payload True)]\<rparr>"
  using assms by (simp_all add: Client.Rerun_def doJSON_discard_def and_then_simps serves_doBytes)

lemma emitAudit_succeeds:
  assumes "\<And>tr c. e_os E tr c = None" "appendable w (cf_AuditLogPath cfg)"
  shows "val (emitAudit E (dp_Service (program E cfg)) repository i reason (rerun_scope f) ''success'') w = Inr ()"
proof -
  obtain e v where v: "same_files w v"
    "val (emitAudit E (dp_Service (program E cfg)) repository i reason (rerun_scope f) ''success'') w =
     val (sv_audit (dp_Service (program E cfg)) e) v"
    using emitAudit_appends [of "dp_Service (program E cfg)" repository i f reason True w E, unfolded if_True] by blast
  have "appendable v (cf_AuditLogPath cfg)" using assms(2) v(1) by (simp add: appendable_def same_files_def)
  then show ?thesis
    unfolding v(2) program_audit using Append_succeeds [of E v, OF assms(1)] by (simp add: NewJSONLStore_def)
qed

lemma program_rerun:
  fixes E cfg owner name i f
  defines "rq \<equiv> build_request (github_client cfg) MethodPost (rerun_endpoint owner name i f) rerun_payload True"
    and "st \<equiv> NewJSONLStore (cf_AuditLogPath cfg) (cf_AuditSigningKey cfg)"
    and "s \<equiv> dp_Service (program E cfg)"
  assumes checks: "\<not> cf_DisableMutations cfg" "TrimSpace p = '''' \<or> TrimSpace p = ProviderGitHub"
      "ParseRepository repo = Inr (owner, name)" "0 < i" "TrimSpace reason \<noteq> ''''"
    and sends: "TrimSpace (cf_GitHubWriteToken cfg) \<noteq> ''''"
      "serves E (TrimRightSlash (cf_GitHubAPIBaseURL cfg) @ rerun_endpoint owner name i f) body"
    and log: "\<And>tr c. e_os E tr c = None" "appendable w (cf_AuditLogPath cfg)"
  shows "val (Service.Rerun E s p repo i f reason) w =
      Inr \<lparr>rr_RunID = i, rr_Repository = owner @ ''/'' @ name, rr_Scope = rerun_scope f, rr_Status = ''requested'',
        rr_Reason = reason, rr_RequestedAt = FormatRFC3339 (val (now E) w), rr_Actor = cf_Actor cfg\<rparr>"
    and "sent (after (Service.Rerun E s p repo i f reason) w) = sent w @ [rq]"
    and "\<exists>e. rerun_record s (owner @ ''/'' @ name) i f reason True e \<and>
      log_content (cf_AuditLogPath cfg) (after (Service.Rerun E s p repo i f reason) w) =
      log_content (cf_AuditLogPath cfg) w @ audit_line st e"
proof -
  define R where "R = owner @ ''/'' @ name"
  let ?w0 = "after (now E) w"
  let ?w1 = "?w0\<lparr>w_trace := w_trace ?w0 @ [Requested rq]\<rparr>"
  let ?m = "emitAudit E s R i reason (rerun_scope f) ''success''"
  have "ParseRepository R = Inr (owner, name)" unfolding R_def by (rule ParseRepository_pair [OF checks(3)])
  from github_reads(4) [OF this]
  have ad: "val (ad_Rerun (github E cfg) R i f) ?w0 = Inr ()" "after (ad_Rerun (github E cfg) R i f) ?w0 = ?w1"
    using sends by (simp_all add: and_then_simps sent_POST rq_def github_client_def NewClient_def del: after_now)
  have ok: "val ?m ?w1 = Inr ()"
    unfolding s_def by (rule emitAudit_succeeds) (use log in \<open>simp_all add: appendable_def\<close>)
  have checked: "rerun_checks s p repo i reason = Inr (github E cfg, R)"
    unfolding s_def R_def by (rule program_rerun_checks [OF checks])
  have v: "val (Service.Rerun E s p repo i f reason) w =
      Inr \<lparr>rr_RunID = i, rr_Repository = R, rr_Scope = rerun_scope f, rr_Status = ''requested'',
        rr_Reason = reason, rr_RequestedAt = FormatRFC3339 (val (now E) w), rr_Actor = cf_Actor (sv_cfg s)\<rparr>"
    and a: "after (Service.Rerun E s p repo i f reason) w = after ?m ?w1"
    using ok by (simp_all add: Service.Rerun_def checked Let_def ad del: after_now)
  show "val (Service.Rerun E s p repo i f reason) w =
      Inr \<lparr>rr_RunID = i, rr_Repository = owner @ ''/'' @ name, rr_Scope = rerun_scope f, rr_Status = ''requested'',
        rr_Reason = reason, rr_RequestedAt = FormatRFC3339 (val (now E) w), rr_Actor = cf_Actor cfg\<rparr>"
    using v by (simp add: R_def s_def new_dependencies_def)
  have "sent (after ?m ?w1) = sent ?w1"
    unfolding s_def by (rule sends_nothing) (rule emitAudit_emits; simp)
  then show "sent (after (Service.Rerun E s p repo i f reason) w) = sent w @ [rq]" by (simp add: a sent_def)
  have "same_files w ?w1" by (simp add: same_files_def)
  from emitAudit_log [OF this, where E = E and cfg = cfg and repository = R and i = i and reason = reason and f = f and ok = True,
      unfolded if_True, folded s_def st_def] obtain e where
    "rerun_record s R i f reason True e" "writes_record E st e w (Inr ()) (after ?m ?w1)"
    unfolding ok by blast
  then show "\<exists>e. rerun_record s (owner @ ''/'' @ name) i f reason True e \<and>
      log_content (cf_AuditLogPath cfg) (after (Service.Rerun E s p repo i f reason) w) =
      log_content (cf_AuditLogPath cfg) w @ audit_line st e"
    unfolding a R_def [symmetric] by (intro exI [of _ e]) (simp add: writes_record_def st_def NewJSONLStore_def)
qed

text \<open>C4. A rerun that may be made is made: where mutations are enabled and the call names a repository, a positive run id
  and a reason, GitHub accepts the request and the audit log can be written, the tool answers with the
  requested rerun, exactly one request was sent, the POST for this run, and the log has gained exactly one line, the
  signed record of the request with its success.\<close>

theorem rerun_happens:
  assumes "Load environ = Inr cfg" "build environ E = Inr d" "\<not> cf_DisableMutations cfg"
    and "TrimSpace (ri_Provider c) = '''' \<or> TrimSpace (ri_Provider c) = ProviderGitHub"
    and "ParseRepository (ri_Repository c) = Inr (owner, name)" "0 < ri_RunID c" "TrimSpace (ri_Reason c) \<noteq> ''''"
    and "serves E (TrimRightSlash (cf_GitHubAPIBaseURL cfg) @ rerun_endpoint owner name (ri_RunID c) (ri_FailedJobsOnly c)) body"
    and "\<And>tr k. e_os E tr k = None" "appendable w (cf_AuditLogPath cfg)"
    and "cf_MetricsExportPath cfg \<noteq> cf_AuditLogPath cfg"
  shows "let result = Register E d (CallRerun c); w' = after result w in
    (\<exists>t. val result w = (None, OutRerun \<lparr>out_Value = Some \<lparr>rr_RunID = ri_RunID c, rr_Repository = owner @ ''/'' @ name,
       rr_Scope = rerun_scope (ri_FailedJobsOnly c), rr_Status = ''requested'', rr_Reason = ri_Reason c,
       rr_RequestedAt = FormatRFC3339 t, rr_Actor = cf_Actor cfg\<rparr>, out_Error = None\<rparr>)) \<and>
    sent w' = sent w @ [build_request (github_client cfg) MethodPost
       (rerun_endpoint owner name (ri_RunID c) (ri_FailedJobsOnly c)) rerun_payload True] \<and>
    (\<exists>e. rerun_record (dp_Service d) (owner @ ''/'' @ name) (ri_RunID c) (ri_FailedJobsOnly c) (ri_Reason c) True e \<and>
       log_content (cf_AuditLogPath cfg) w' = log_content (cf_AuditLogPath cfg) w @
         audit_line (NewJSONLStore (cf_AuditLogPath cfg) (cf_AuditSigningKey cfg)) e)"
proof -
  let ?d = "program E cfg" and ?w0 = "after (now E) w"
  let ?m = "Service.Rerun E (dp_Service ?d) (ri_Provider c) (ri_Repository c) (ri_RunID c) (ri_FailedJobsOnly c) (ri_Reason c)"
  let ?o = "observe E ?d ''pipeline.rerun'' (val (now E) w) True None"
  have token: "TrimSpace (cf_GitHubWriteToken cfg) \<noteq> ''''"
    using Load_valid [OF assms(1)] assms(3) by (simp add: valid_config_def)
  have "appendable ?w0 (cf_AuditLogPath cfg)" using assms(10) by (simp add: appendable_def)
  note made = program_rerun [OF assms(3-7) token assms(8,9) this]
  have a: "after (Register E ?d (CallRerun c)) w = after ?o (after ?m ?w0)"
    and v: "val (Register E ?d (CallRerun c)) w = (None, OutRerun \<lparr>out_Value = Some (projr (val ?m ?w0)), out_Error = None\<rparr>)"
    by (simp_all add: Register_def rerun_def handled_def val_answer made(1) del: after_now)
  have s: "sent (after ?o (after ?m ?w0)) = sent w @ [build_request (github_client cfg) MethodPost
       (rerun_endpoint owner name (ri_RunID c) (ri_FailedJobsOnly c)) rerun_payload True]"
    using sends_nothing [OF observe_emits [of no_request]] made(2) by (simp add: sent_def)
  have "log_content (cf_AuditLogPath cfg) (after ?o (after ?m ?w0)) = log_content (cf_AuditLogPath cfg) (after ?m ?w0)"
    using movesD [OF observe_same_log [OF assms(11)]] by (simp add: same_log_def)
  then show ?thesis
    unfolding built [OF assms(1,2)] Let_def a v s
    using made(1,3) by (auto simp: log_content_def)
qed

text \<open>
  The repository check does not look at the characters of the two names, and the client puts them into the path
  as they are: a question mark ends the path, so the request goes to another resource than the run's.
\<close>

lemma repository_cuts_path:
  "ParseRepository ''o/r?'' = Inr (''o'', ''r?'') \<and>
   (case url_Parse (''https://api.github.com'' @ rerun_endpoint ''o'' ''r?'' 7 False) of
      Inl _ \<Rightarrow> False | Inr u \<Rightarrow> u_Path u = ''/repos/o/r'')"
  by code_simp

section \<open>A run to answer for\<close>

definition sample_body :: "string \<Rightarrow> string" where
  "sample_body url =
     (if HasSuffix url ''/actions/runs/7'' then
        ''{'' @ json_field ''id'' ''7'' @ '','' @ json_field ''conclusion'' (json_string ''failure'') @ ''}''
      else if HasSuffix url ''/logs'' then ''npm ERR! code ERESOLVE''
      else if HasSuffix url ''&page=1'' then
        ''{'' @ json_field ''total_count'' ''1'' @ '','' @ json_field ''jobs''
          (''[{'' @ json_field ''name'' (json_string ''build'') @ '','' @
           json_field ''conclusion'' (json_string ''failure'') @ ''}]'') @ ''}''
      else ''{'' @ json_field ''total_count'' ''1'' @ ''}'')"

definition held_run :: WorkflowRun where
  "held_run = zero_run\<lparr>wr_ID := 7, wr_Conclusion := ''failure''\<rparr>"

definition held_job :: Job_gh where
  "held_job = \<lparr>gj_ID = 0, gj_Name = ''build'', gj_Status = [], gj_Conclusion = ''failure'', gj_HeadBranch = [],
     gj_StartedAt = None, gj_CompletedAt = None, gj_HTMLURL = [], gj_CheckRunURL = [], gj_RunnerID = 0, gj_Steps = []\<rparr>"

definition sample_url :: "string \<Rightarrow> string" where
  "sample_url ep = TrimRightSlash (cf_GitHubAPIBaseURL default_config) @ ep"

lemma sample_serves: "\<not> isl (url_Parse url) \<Longrightarrow> serves (serving body) url (body url)"
  by (simp add: serves_def serving_def ok_response_def)

lemma sample_serves_json:
  "\<not> isl (url_Parse url) \<and> body url \<noteq> [] \<and> Unmarshal dec (body url) = Some x \<Longrightarrow> serves_json (serving body) url dec x"
  unfolding serves_json_def using sample_serves by blast

lemma sample_run_served:
  "\<not> isl (url_Parse (sample_url (run_endpoint ''o'' ''r'' 7))) \<and> sample_body (sample_url (run_endpoint ''o'' ''r'' 7)) \<noteq> [] \<and>
   Unmarshal dec_WorkflowRun (sample_body (sample_url (run_endpoint ''o'' ''r'' 7))) = Some held_run"
  by code_simp

lemma sample_jobs_served:
  "list_all (\<lambda>p. \<not> isl (url_Parse (sample_url (jobs_endpoint ''o'' ''r'' 7 p))) \<and>
     sample_body (sample_url (jobs_endpoint ''o'' ''r'' 7 p)) \<noteq> [] \<and>
     Unmarshal dec_listJobsResponse (sample_body (sample_url (jobs_endpoint ''o'' ''r'' 7 p))) =
       Some \<lparr>lj_TotalCount = 1, lj_Jobs = page_of 100 [held_job] p\<rparr>) [1..10]"
  by code_simp

lemma sample_holds: "holds_run (serving sample_body) default_config ''o'' ''r'' 7 held_run [held_job]"
proof -
  have "list_all (\<lambda>p. serves_json (serving sample_body) (sample_url (jobs_endpoint ''o'' ''r'' 7 p)) dec_listJobsResponse
      \<lparr>lj_TotalCount = 1, lj_Jobs = page_of 100 [held_job] p\<rparr>) [1..10]"
    using sample_jobs_served by (rule list.pred_mono_strong) (rule sample_serves_json)
  then have "serves_jobs (serving sample_body) (TrimRightSlash (cf_GitHubAPIBaseURL default_config)) ''o'' ''r'' 7 [held_job]"
    unfolding serves_jobs_def sample_url_def by (rule list.pred_mono_strong) blast
  with sample_serves_json [of "sample_url (run_endpoint ''o'' ''r'' 7)" sample_body, OF sample_run_served] show ?thesis by (simp add: holds_run_def sample_url_def)
qed

lemma sample_named:
  "names_run \<lparr>ref_Provider = [], ref_RunURL = [], ref_RunID = 7, ref_Repository = ''o/r''\<rparr> ''o'' ''r'' 7"
  by code_simp

lemma sample_built: "build (\<lambda>_. []) E = Inr (program E default_config)"
  by (simp add: build_eq Load_defaults)

theorem get_run_answers_witness:
  "val (Register (serving sample_body) (program (serving sample_body) default_config)
      (CallGetRun \<lparr>li_Provider = [], li_RunURL = [], li_RunID = 7, li_Repository = ''o/r''\<rparr>)) empty_world =
    (None, OutGetRun \<lparr>out_Value = Some (normalizeRun ProviderGitHub (toProviderRun held_run) (''o'' @ ''/'' @ ''r'')
        (run_url ''o'' ''r'' 7) (toProviderJobs (take 1000 [held_job]))), out_Error = None\<rparr>)"
  by (rule get_run_answers [OF Load_defaults sample_built]) (use sample_named sample_holds in simp_all)

lemma sample_logs_served:
  "\<not> isl (url_Parse (sample_url (run_endpoint ''o'' ''r'' 7 @ ''/logs''))) \<and>
   sample_body (sample_url (run_endpoint ''o'' ''r'' 7 @ ''/logs'')) = ''npm ERR! code ERESOLVE''"
  by code_simp

lemma sample_ungated: "list_all (\<lambda>j. \<not> gate_candidate j) (toProviderJobs (take 1000 [held_job]))"
  by code_simp

definition sample_diagnose :: DiagnoseFailureInput where
  "sample_diagnose = \<lparr>di_Provider = [], di_RunURL = [], di_RunID = 7, di_Repository = ''o/r'', di_MaxLogBytes = 0\<rparr>"

theorem diagnose_answers_witness:
  "val (Register (serving sample_body) (program (serving sample_body) default_config)
      (CallDiagnoseFailure sample_diagnose)) empty_world =
    (None, OutDiagnoseFailure \<lparr>out_Value = Some (diagnose_logs ''npm ERR! code ERESOLVE'' (toProviderJobs (take 1000 [held_job]))),
       out_Error = None\<rparr>)"
proof (rule diagnose_answers [OF Load_defaults sample_built _ sample_holds sample_ungated])
  show "serves (serving sample_body) (TrimRightSlash (cf_GitHubAPIBaseURL default_config) @ run_endpoint ''o'' ''r'' 7 @ ''/logs'')
      ''npm ERR! code ERESOLVE''"
    using sample_serves [of "sample_url (run_endpoint ''o'' ''r'' 7 @ ''/logs'')" sample_body] sample_logs_served
    by (simp add: sample_url_def)
  show "unzipOrText (serving sample_body) ''npm ERR! code ERESOLVE'' (clamp_log_bytes default_config (di_MaxLogBytes sample_diagnose)) =
      Inr ''npm ERR! code ERESOLVE''"
    by (simp add: unzipOrText_def serving_def quiet_env_def log_limit_def clamp_log_bytes_def default_config_def sample_diagnose_def)
qed (use sample_named in \<open>simp_all add: sample_diagnose_def\<close>)

text \<open>A program that may rerun, and a call for it.\<close>

definition rerun_environ :: environ where
  "rerun_environ k = (if k = ''DISABLE_MUTATIONS'' then ''false'' else if k = ''GITHUB_WRITE_TOKEN'' then ''t'' else [])"

definition rerun_config :: Config where
  "rerun_config = default_config\<lparr>cf_GitHubWriteToken := ''t'', cf_DisableMutations := False\<rparr>"

definition rerun_input :: RerunInput where
  "rerun_input = \<lparr>ri_Provider = [], ri_Repository = ''o/r'', ri_RunID = 7, ri_FailedJobsOnly = True, ri_Reason = ''flaky''\<rparr>"

lemma rerun_loads: "Load rerun_environ = Inr rerun_config"
  by code_simp

lemma rerun_url: "\<not> isl (url_Parse (TrimRightSlash (cf_GitHubAPIBaseURL rerun_config) @
    rerun_endpoint ''o'' ''r'' (ri_RunID rerun_input) (ri_FailedJobsOnly rerun_input)))"
  by code_simp

lemma rerun_call:
  "\<not> cf_DisableMutations rerun_config \<and> TrimSpace (ri_Provider rerun_input) = '''' \<and>
   ParseRepository (ri_Repository rerun_input) = Inr (''o'', ''r'') \<and> 0 < ri_RunID rerun_input \<and>
   TrimSpace (ri_Reason rerun_input) \<noteq> '''' \<and> cf_MetricsExportPath rerun_config \<noteq> cf_AuditLogPath rerun_config"
  by code_simp

lemma rerun_path: "cf_AuditLogPath rerun_config \<notin> set (path_chain (Dir (cf_AuditLogPath rerun_config)))"
  by code_simp

lemma rerun_log: "appendable empty_world (cf_AuditLogPath rerun_config)"
  using rerun_path by (simp add: appendable_def empty_world_def is_file_def list_ex_iff)

theorem rerun_happens_witness:
  "let E = serving (\<lambda>_. []); result = Register E (program E rerun_config) (CallRerun rerun_input); w' = after result empty_world in
    (\<exists>t. val result empty_world = (None, OutRerun \<lparr>out_Value = Some \<lparr>rr_RunID = ri_RunID rerun_input,
       rr_Repository = ''o'' @ ''/'' @ ''r'', rr_Scope = rerun_scope (ri_FailedJobsOnly rerun_input), rr_Status = ''requested'',
       rr_Reason = ri_Reason rerun_input, rr_RequestedAt = FormatRFC3339 t, rr_Actor = cf_Actor rerun_config\<rparr>, out_Error = None\<rparr>)) \<and>
    sent w' = sent empty_world @ [build_request (github_client rerun_config) MethodPost
       (rerun_endpoint ''o'' ''r'' (ri_RunID rerun_input) (ri_FailedJobsOnly rerun_input)) rerun_payload True] \<and>
    (\<exists>e. rerun_record (dp_Service (program E rerun_config)) (''o'' @ ''/'' @ ''r'') (ri_RunID rerun_input)
         (ri_FailedJobsOnly rerun_input) (ri_Reason rerun_input) True e \<and>
       log_content (cf_AuditLogPath rerun_config) w' = log_content (cf_AuditLogPath rerun_config) empty_world @
         audit_line (NewJSONLStore (cf_AuditLogPath rerun_config) (cf_AuditSigningKey rerun_config)) e)"
proof -
  let ?E = "serving (\<lambda>_. [])"
  have "build rerun_environ ?E = Inr (program ?E rerun_config)" by (simp add: build_eq rerun_loads)
  from rerun_happens [OF rerun_loads this _ _ _ _ _ sample_serves [OF rerun_url] _ rerun_log] rerun_call
  show ?thesis by (simp only: Let_def) (simp add: serving_def quiet_env_def)
qed

end
