(* ===== verification/Interleaving.thy ===== *)
theory Interleaving
  imports Answers "HOL-Library.Multiset"
begin

text \<open>
  Tool calls that run at the same time. The SDK may serve a call while others are under way; what they share is
  the collector and the audit log, each behind a mutex (internal/telemetry/collector.go, internal/audit/store.go).
  So the steps of a call are those that touch neither, in any number and order, the locked append of a rerun and
  the locked observation that ends the call, and the steps of different calls interleave freely. The theorems
  show that nothing is lost or mixed up by that, and that the sequence \<open>serve\<close> is one of the schedules.
\<close>

section \<open>Steps\<close>

text \<open>
  A call under way, or answered with or without success; and what has become of its record: none was made, it was
  written, or writing it failed.
\<close>

datatype log_state = Unrecorded | Written | Damaged

datatype call_state = Working tool_call log_state | Answered tool_call log_state bool

definition append_state :: "unit result \<Rightarrow> log_state" where
  "append_state r = (case r of Inl _ \<Rightarrow> Damaged | Inr _ \<Rightarrow> Written)"

definition elsewhere :: "world \<Rightarrow> world \<Rightarrow> bool" where
  "elsewhere w w' \<longleftrightarrow> w_fs w' = w_fs w \<and> w_metrics w' = w_metrics w"

definition program_store :: "Config \<Rightarrow> JSONLStore" where
  "program_store cfg = NewJSONLStore (cf_AuditLogPath cfg) (cf_AuditSigningKey cfg)"

definition program_collector :: "Config \<Rightarrow> Collector" where
  "program_collector cfg = NewCollector (cf_MetricsExportPath cfg)"

definition records :: "Config \<Rightarrow> RerunInput \<Rightarrow> AuditEvent \<Rightarrow> bool" where
  "records cfg i e \<longleftrightarrow>
     ae_Tool e = ''pipeline.rerun'' \<and> ae_Actor e = cf_Actor cfg \<and> ae_RunID e = ri_RunID i \<and>
     ae_Reason e = ri_Reason i \<and> ae_Scope e = rerun_scope (ri_FailedJobsOnly i)"

inductive step :: "env \<Rightarrow> Config \<Rightarrow> call_state list \<times> world \<Rightarrow> call_state list \<times> world \<Rightarrow> bool" for E cfg where
  elsewhere: "elsewhere w w' \<Longrightarrow> step E cfg (ts, w) (ts, w')"
| append: "k < length ts \<Longrightarrow> ts ! k = Working (CallRerun i) Unrecorded \<Longrightarrow> records cfg i e \<Longrightarrow>
    step E cfg (ts, w)
      (ts[k := Working (CallRerun i) (append_state (val (Append E (program_store cfg) e) w))],
       after (Append E (program_store cfg) e) w)"
| observe: "k < length ts \<Longrightarrow> ts ! k = Working c r \<Longrightarrow>
    step E cfg (ts, w)
      (ts[k := Answered c r ok], after (Observe E (program_collector cfg) (tool_name c) d ok confidence) w)"

inductive_cases stepE: "step E cfg (ts, w) (ts', w')"

abbreviation steps :: "env \<Rightarrow> Config \<Rightarrow> call_state list \<times> world \<Rightarrow> call_state list \<times> world \<Rightarrow> bool" where
  "steps E cfg \<equiv> (step E cfg)\<^sup>*\<^sup>*"

definition started :: "tool_call list \<Rightarrow> call_state list" where
  "started cs = map (\<lambda>c. Working c Unrecorded) cs"

fun call_of :: "call_state \<Rightarrow> tool_call" where
  "call_of (Working c r) = c"
| "call_of (Answered c r ok) = c"

fun log_state_of :: "call_state \<Rightarrow> log_state" where
  "log_state_of (Working c r) = r"
| "log_state_of (Answered c r ok) = r"

text \<open>What is counted of an answered call.\<close>

fun outcome :: "call_state \<Rightarrow> (string \<times> bool) list" where
  "outcome (Working c r) = []"
| "outcome (Answered c r ok) = [(tool_name c, ok)]"

definition outcomes :: "call_state list \<Rightarrow> (string \<times> bool) multiset" where
  "outcomes ts = mset (concat (map outcome ts))"

lemma call_kept: "step E cfg (ts, w) (ts', w') \<Longrightarrow> map call_of ts' = map call_of ts"
  by (erule stepE) (auto simp: map_update intro: list_update_same_conv [THEN iffD2] nth_equalityI simp: nth_list_update)

lemma concat_update:
  "k < length ts \<Longrightarrow> mset (concat (map g (ts[k := x]))) + mset (g (ts ! k)) = mset (concat (map g ts)) + mset (g x)"
proof -
  assume k: "k < length ts"
  let ?a = "take k ts" and ?b = "drop (Suc k) ts"
  have "ts = ?a @ ts ! k # ?b" "ts[k := x] = ?a @ x # ?b"
    using k by (simp_all add: id_take_nth_drop [symmetric] upd_conv_take_nth_drop)
  then have "mset (concat (map g ts)) = mset (concat (map g ?a)) + mset (g (ts ! k)) + mset (concat (map g ?b))"
    "mset (concat (map g (ts[k := x]))) = mset (concat (map g ?a)) + mset (g x) + mset (concat (map g ?b))"
    by (metis concat.simps(2) concat_append list.simps(9) map_append mset_append union_assoc)+
  then show ?thesis by simp
qed

lemma outcomes_append: "k < length ts \<Longrightarrow> ts ! k = Working c r \<Longrightarrow> outcomes (ts[k := Working c' r']) = outcomes ts"
  and outcomes_observe: "k < length ts \<Longrightarrow> ts ! k = Working c r \<Longrightarrow>
    outcomes (ts[k := Answered c r ok]) = outcomes ts + {#(tool_name c, ok)#}"
  using concat_update [of k ts outcome] by (simp_all add: outcomes_def)

lemma outcomes_started [simp]: "outcomes (started cs) = {#}"
  by (simp add: outcomes_def started_def)

section \<open>The counters\<close>

definition counted :: "call_state list \<times> world \<Rightarrow> bool" where
  "counted = (\<lambda>(ts, w). \<exists>h. holds (w_metrics w) h \<and>
     mset (map (\<lambda>(ob, st). (ob_Tool ob, ob_Success ob)) h) = outcomes ts)"

lemma counted_step: "step E cfg x y \<Longrightarrow> counted x \<Longrightarrow> counted y"
proof (induction rule: step.induct)
  case (elsewhere w w' ts)
  then show ?case by (simp add: counted_def elsewhere_def)
next
  case (append k ts i e w)
  moreover have "w_metrics (after (Append E (program_store cfg) e) w) = w_metrics w" by (rule jsonl.metrics_kept)
  ultimately show ?case by (simp add: counted_def outcomes_append [OF append(1,2)])
next
  case (observe k ts c r w ok d confidence)
  then obtain h where h: "holds (w_metrics w) h" "mset (map (\<lambda>(ob, st). (ob_Tool ob, ob_Success ob)) h) = outcomes ts"
    by (auto simp: counted_def)
  let ?ob = "\<lparr>ob_Tool = tool_name c, ob_Duration = d, ob_Success = ok, ob_Confidence = confidence\<rparr>"
  let ?st = "FormatRFC3339 (e_now E (w_trace w @ [ReadClock]))"
  have "holds (w_metrics (after (Observe E (program_collector cfg) (tool_name c) d ok confidence) w)) (h @ [(?ob, ?st)])"
    using holds_step [OF h(1), of ?ob ?st] by (simp add: Observe_metrics)
  with h(2) observe show ?case
    by (auto simp: counted_def outcomes_observe [OF observe(1,2)] intro!: exI [of _ "h @ [(?ob, ?st)]"])
qed

lemma counted_steps: "steps E cfg x y \<Longrightarrow> counted x \<Longrightarrow> counted y"
  by (induction rule: rtranclp_induct) (auto intro: counted_step)

definition answered_calls :: "string \<Rightarrow> call_state list \<Rightarrow> nat" where
  "answered_calls tool ts = length (filter (\<lambda>(t, ok). t = tool) (concat (map outcome ts)))"

definition failed_calls :: "string \<Rightarrow> call_state list \<Rightarrow> nat" where
  "failed_calls tool ts = length (filter (\<lambda>(t, ok). t = tool \<and> \<not> ok) (concat (map outcome ts)))"

lemma counted_metric:
  assumes "counted (ts, w)"
  shows "tm_Calls (lookup_metric tool (w_metrics w)) = wrap64 (int (answered_calls tool ts))"
    "tm_Errors (lookup_metric tool (w_metrics w)) = wrap64 (int (failed_calls tool ts))"
proof -
  obtain h where h: "holds (w_metrics w) h"
    "mset (map (\<lambda>(ob, st). (ob_Tool ob, ob_Success ob)) h) = mset (concat (map outcome ts))"
    using assms unfolding counted_def outcomes_def prod.case by blast
  have n: "length (filter P (map (\<lambda>(ob, st). (ob_Tool ob, ob_Success ob)) h)) = length (filter P (concat (map outcome ts)))" for P
    using arg_cong [OF h(2), of "\<lambda>m. size (filter_mset P m)"] by (simp only: mset_filter [symmetric] size_mset)
  show "tm_Calls (lookup_metric tool (w_metrics w)) = wrap64 (int (answered_calls tool ts))"
    using n [of "\<lambda>(t, ok). t = tool"]
    by (simp add: holds_lookup [OF h(1)] metric_of_def of_tool_def answered_calls_def filter_map o_def case_prod_unfold Let_def)
  show "tm_Errors (lookup_metric tool (w_metrics w)) = wrap64 (int (failed_calls tool ts))"
    using n [of "\<lambda>(t, ok). t = tool \<and> \<not> ok"]
    by (simp add: holds_lookup [OF h(1)] metric_of_def of_tool_def failed_calls_def filter_map o_def case_prod_unfold Let_def
        conj_commute)
qed


section \<open>The log\<close>

text \<open>
  What the log has gained: one piece for every record that was handed to it, each the line of one call's record,
  or a part of such a line if writing failed.
\<close>

definition piece :: "Config \<Rightarrow> tool_call list \<Rightarrow> bool \<Rightarrow> string \<Rightarrow> bool" where
  "piece cfg cs damaged s \<longleftrightarrow>
     (\<exists>i e n. CallRerun i \<in> set cs \<and> records cfg i e \<and> s = take n (audit_line (program_store cfg) e) \<and>
        (damaged \<or> s = audit_line (program_store cfg) e))"

definition handed :: "call_state list \<Rightarrow> nat" where
  "handed ts = length (filter (\<lambda>r. r \<noteq> Unrecorded) (map log_state_of ts))"

definition damaged :: "call_state list \<Rightarrow> bool" where
  "damaged ts \<longleftrightarrow> Damaged \<in> set (map log_state_of ts)"

definition logged :: "Config \<Rightarrow> string \<Rightarrow> call_state list \<times> world \<Rightarrow> bool" where
  "logged cfg old = (\<lambda>(ts, w). \<exists>ps. log_content (cf_AuditLogPath cfg) w = old @ concat ps \<and>
     length ps = handed ts \<and> list_all (piece cfg (map call_of ts) (damaged ts)) ps)"

lemma piece_mono: "piece cfg cs b s \<Longrightarrow> (b \<Longrightarrow> b') \<Longrightarrow> piece cfg cs b' s"
  by (auto simp: piece_def)

lemma log_states_observe:
  "k < length ts \<Longrightarrow> ts ! k = Working c r \<Longrightarrow> map log_state_of (ts[k := Answered c r ok]) = map log_state_of ts"
  by (simp add: map_update) (metis list_update_id log_state_of.simps(1) nth_map)

lemma handed_append:
  assumes "k < length ts" "ts ! k = Working c Unrecorded" "r \<noteq> Unrecorded"
  shows "handed (ts[k := Working c r]) = Suc (handed ts)"
proof -
  let ?g = "\<lambda>t. if log_state_of t \<noteq> Unrecorded then [t] else []"
  have h: "handed xs = size (mset (concat (map ?g xs)))" for xs
    by (induction xs) (simp_all add: handed_def)
  show ?thesis using concat_update [OF assms(1), of ?g "Working c r"] assms(2,3) unfolding h by simp
qed

lemma damaged_append:
  assumes "k < length ts" "ts ! k = Working c Unrecorded"
  shows "damaged (ts[k := Working c r]) \<longleftrightarrow> damaged ts \<or> r = Damaged"
proof -
  have "damaged xs \<longleftrightarrow> Damaged \<in># mset (concat (map (\<lambda>t. [log_state_of t]) xs))" for xs
    by (induction xs) (auto simp: damaged_def)
  moreover have "add_mset Unrecorded (mset (concat (map (\<lambda>t. [log_state_of t]) (ts[k := Working c r])))) =
      add_mset r (mset (concat (map (\<lambda>t. [log_state_of t]) ts)))"
    using concat_update [OF assms(1), of "\<lambda>t. [log_state_of t]" "Working c r"] assms(2) by simp
  from arg_cong [OF this, of "\<lambda>m. Damaged \<in># m"] have
    "Damaged \<in># mset (concat (map (\<lambda>t. [log_state_of t]) (ts[k := Working c r]))) \<longleftrightarrow>
     Damaged = r \<or> Damaged \<in># mset (concat (map (\<lambda>t. [log_state_of t]) ts))" by simp
  ultimately show ?thesis by blast
qed

lemma append_piece:
  assumes "records cfg i e" "CallRerun i \<in> set cs"
  shows "\<exists>s. log_content (cf_AuditLogPath cfg) (after (Append E (program_store cfg) e) w) =
      log_content (cf_AuditLogPath cfg) w @ s \<and>
    piece cfg cs (append_state (val (Append E (program_store cfg) e) w) = Damaged) s"
proof -
  have path: "js_path (program_store cfg) = cf_AuditLogPath cfg" by (simp add: program_store_def NewJSONLStore_def)
  show ?thesis
  proof (cases "val (Append E (program_store cfg) e) w")
    case (Inl err)
    then obtain n where "log_content (cf_AuditLogPath cfg) (after (Append E (program_store cfg) e) w) =
        log_content (cf_AuditLogPath cfg) w @ take n (audit_line (program_store cfg) e)"
      using Append_outcome [where E = E and s = "program_store cfg" and e = e and w = w] by (auto simp: path)
    with Inl assms show ?thesis
      by (intro exI [of _ "take n (audit_line (program_store cfg) e)"]) (auto simp: piece_def append_state_def)
  next
    case (Inr u)
    then have "log_content (cf_AuditLogPath cfg) (after (Append E (program_store cfg) e) w) =
        log_content (cf_AuditLogPath cfg) w @ audit_line (program_store cfg) e"
      using log_content_File [OF Append_Inr [OF Inr]] by (simp add: path)
    moreover have "piece cfg cs b (audit_line (program_store cfg) e)" for b
      unfolding piece_def using assms by (metis order_refl take_all)
    ultimately show ?thesis by blast
  qed
qed

lemma logged_step:
  assumes "cf_MetricsExportPath cfg \<noteq> cf_AuditLogPath cfg"
  shows "step E cfg x y \<Longrightarrow> logged cfg old x \<Longrightarrow> logged cfg old y"
proof (induction rule: step.induct)
  case (elsewhere w w' ts)
  then show ?case by (simp add: logged_def elsewhere_def log_content_def)
next
  case (append k ts i e w)
  let ?r = "append_state (val (Append E (program_store cfg) e) w)" and ?w = "after (Append E (program_store cfg) e) w"
  let ?ts = "ts[k := Working (CallRerun i) ?r]"
  have kept: "map call_of ?ts = map call_of ts"
    by (rule call_kept [OF step.append [OF append(1-3)]])
  obtain ps where ps: "log_content (cf_AuditLogPath cfg) w = old @ concat ps" "length ps = handed ts"
      "list_all (piece cfg (map call_of ts) (damaged ts)) ps"
    using append(4) by (auto simp: logged_def)
  have "CallRerun i \<in> set (map call_of ts)" using append(1,2) by (metis call_of.simps(1) length_map nth_map nth_mem)
  then obtain s where s: "log_content (cf_AuditLogPath cfg) ?w = log_content (cf_AuditLogPath cfg) w @ s"
      "piece cfg (map call_of ts) (?r = Damaged) s"
    using append_piece [OF append(3)] by blast
  have r: "?r \<noteq> Unrecorded" by (simp add: append_state_def split: sum.split)
  have "list_all (piece cfg (map call_of ts) (damaged ?ts)) (ps @ [s])"
    using ps(3) s(2) by (auto simp: damaged_append [OF append(1,2)] list_all_iff intro: piece_mono)
  with ps(1,2) s(1) show ?case
    unfolding logged_def prod.case kept handed_append [OF append(1,2) r]
    by (intro exI [of _ "ps @ [s]"]) simp
next
  case (observe k ts c r w ok d confidence)
  have "map call_of (ts[k := Answered c r ok]) = map call_of ts"
    by (rule call_kept [OF step.observe [OF observe(1,2)]])
  moreover have "log_content (cf_AuditLogPath cfg) (after (Observe E (program_collector cfg) (tool_name c) d ok confidence) w) =
      log_content (cf_AuditLogPath cfg) w"
    using movesD [OF Observe_same_log [OF assms]] by (simp add: same_log_def program_collector_def)
  moreover have "handed (ts[k := Answered c r ok]) = handed ts" "damaged (ts[k := Answered c r ok]) = damaged ts"
    unfolding handed_def damaged_def log_states_observe [OF observe(1,2)] by simp_all
  ultimately show ?case using observe(3) by (simp add: logged_def)
qed


section \<open>The sequence as a schedule\<close>

text \<open>One call, the \<open>k\<close>-th, from start to answer, while the others wait.\<close>

lemma steps_elsewhere: "elsewhere w w' \<Longrightarrow> steps E cfg (ts, w) (ts, w')"
  by (rule r_into_rtranclp) (rule step.elsewhere)

lemma elsewhere_simps [simp]: "elsewhere w (w\<lparr>w_trace := tr\<rparr>)"
  by (simp add: elsewhere_def)

lemma observed:
  assumes "k < length ts" "ts ! k = Working c r"
  shows "steps E cfg (ts, w)
    (ts[k := Answered c r ok], after (Tools.observe E (program E cfg) (tool_name c) start ok confidence) w)"
proof -
  let ?d = "Sub (val (now E) w) start" and ?w0 = "after (now E) w"
  let ?w1 = "after (Observe E (program_collector cfg) (tool_name c) ?d ok confidence) ?w0"
  let ?w2 = "after (Tools.observe E (program E cfg) (tool_name c) start ok confidence) w"
  have "steps E cfg (ts, w) (ts, ?w0)" by (rule steps_elsewhere) simp
  also have "step E cfg (ts, ?w0) (ts[k := Answered c r ok], ?w1)" by (rule step.observe [OF assms])
  also have "steps E cfg (ts[k := Answered c r ok], ?w1) (ts[k := Answered c r ok], ?w2)"
    by (rule steps_elsewhere)
      (simp add: Tools.observe_def new_dependencies_def program_collector_def elsewhere_def)
  finally show ?thesis .
qed

lemma handled_steps:
  assumes k: "k < length ts" "ts ! k = Working c Unrecorded"
    and m: "\<And>w. \<exists>r. steps E cfg (ts, w) (ts[k := Working c r], after m w)"
  shows "\<exists>r. steps E cfg (ts, w)
    (ts[k := Answered c r (fst (val (handled E (program E cfg) (tool_name c) m conf) w) = None)],
     after (handled E (program E cfg) (tool_name c) m conf) w)"
proof -
  let ?w0 = "after (now E) w"
  obtain r where r: "steps E cfg (ts, ?w0) (ts[k := Working c r], after m ?w0)" using m by blast
  have "steps E cfg (ts, w) (ts, ?w0)" by (rule steps_elsewhere) simp
  also note r
  finally have s: "steps E cfg (ts, w) (ts[k := Working c r], after m ?w0)" .
  have w: "k < length (ts[k := Working c r])" "ts[k := Working c r] ! k = Working c r" using k by simp_all
  have o: "steps E cfg (ts, w) (ts[k := Answered c r ok],
      after (Tools.observe E (program E cfg) (tool_name c) start ok confidence) (after m ?w0))" for ok start confidence
    using rtranclp_trans [OF s observed [OF w]] by simp
  show ?thesis
    using o by (cases "val m ?w0") (auto simp: handled_def toolErrorResult_def simp del: after_now)
qed

lemma read_steps:
  assumes "moves same_metrics m" "moves same_files m" "ts ! k = Working c r"
  shows "\<exists>r. steps E cfg (ts, w) (ts[k := Working c r], after m w)"
proof (intro exI)
  have "elsewhere w (after m w)"
    using movesD [OF assms(1)] movesD [OF assms(2)] by (simp add: elsewhere_def same_metrics_def same_files_def)
  from steps_elsewhere [OF this] show "steps E cfg (ts, w) (ts[k := Working c r], after m w)"
    by (simp add: assms(3) [symmetric])
qed

lemma emitAudit_steps:
  assumes "k < length ts" "ts ! k = Working (CallRerun i) Unrecorded"
  shows "\<exists>r. steps E cfg (ts, w) (ts[k := Working (CallRerun i) r],
    after (emitAudit E (dp_Service (program E cfg)) repository (ri_RunID i) (ri_Reason i) (rerun_scope (ri_FailedJobsOnly i)) res) w)"
proof -
  let ?m = "emitAudit E (dp_Service (program E cfg)) repository (ri_RunID i) (ri_Reason i) (rerun_scope (ri_FailedJobsOnly i)) res"
  let ?w0 = "after (now E) (after (now E) w)"
  have "\<exists>e. records cfg i e \<and> after ?m w = after (Append E (program_store cfg) e) ?w0"
    by (intro exI [of _ "\<lparr>ae_EventID = ''evt_'' @ Itoa (UnixNano (val (now E) w)) @ ''_'' @ Itoa (ri_RunID i),
        ae_Tool = ''pipeline.rerun'', ae_Actor = cf_Actor cfg, ae_Repository = repository, ae_RunID = ri_RunID i,
        ae_Reason = ri_Reason i, ae_Scope = rerun_scope (ri_FailedJobsOnly i),
        ae_Timestamp = FormatRFC3339 (val (now E) (after (now E) w)), ae_Outcome = res, ae_Signature = []\<rparr>"])
      (simp add: records_def emitAudit_def new_dependencies_def program_store_def)
  then obtain e where e: "records cfg i e" "after ?m w = after (Append E (program_store cfg) e) ?w0" by blast
  have "steps E cfg (ts, w) (ts, ?w0)" by (rule steps_elsewhere) (simp add: elsewhere_def)
  also have "step E cfg (ts, ?w0) (ts[k := Working (CallRerun i) (append_state (val (Append E (program_store cfg) e) ?w0))],
      after (Append E (program_store cfg) e) ?w0)"
    by (rule step.append [OF assms e(1)])
  finally show ?thesis unfolding e(2) by blast
qed

lemma rerun_steps:
  assumes "k < length ts" "ts ! k = Working (CallRerun i) Unrecorded"
  shows "\<exists>r. steps E cfg (ts, w) (ts[k := Working (CallRerun i) r],
    after (Service.Rerun E (dp_Service (program E cfg)) (ri_Provider i) (ri_Repository i) (ri_RunID i)
      (ri_FailedJobsOnly i) (ri_Reason i)) w)"
proof (cases "rerun_checks (dp_Service (program E cfg)) (ri_Provider i) (ri_Repository i) (ri_RunID i) (ri_Reason i)")
  case (Inl e)
  then show ?thesis
    using assms by (intro exI [of _ Unrecorded]) (simp add: Service.Rerun_def flip: assms(2))
next
  case (Inr pr)
  obtain prov R where pr: "pr = (prov, R)" by (cases pr)
  let ?rerun = "Service.Rerun E (dp_Service (program E cfg)) (ri_Provider i) (ri_Repository i) (ri_RunID i)
      (ri_FailedJobsOnly i) (ri_Reason i)"
  let ?w0 = "after (now E) w"
  let ?w1 = "after (ad_Rerun prov R (ri_RunID i) (ri_FailedJobsOnly i)) ?w0"
  let ?audit = "\<lambda>res. emitAudit E (dp_Service (program E cfg)) R (ri_RunID i) (ri_Reason i) (rerun_scope (ri_FailedJobsOnly i)) res"
  obtain P where "moves (quiet P) (ad_Rerun prov R (ri_RunID i) (ri_FailedJobsOnly i))"
    using rerun_request_quiet [OF Inr [unfolded pr]] by blast
  from movesD [OF this, of ?w0] have "elsewhere w ?w1" by (simp add: elsewhere_def quiet_def)
  note sent = steps_elsewhere [OF this, of E cfg ts]
  obtain res where res: "after ?rerun w = after (?audit res) ?w1 \<or>
      after ?rerun w = after (log_msg LevelError ''failed to persist audit event'') (after (?audit res) ?w1)"
    by (cases "val (ad_Rerun prov R (ri_RunID i) (ri_FailedJobsOnly i)) ?w0"; cases "val (?audit ''success'') ?w1")
      (simp_all add: Service.Rerun_def Inr pr Let_def del: after_now, metis+)
  obtain r where r: "steps E cfg (ts, ?w1) (ts[k := Working (CallRerun i) r], after (?audit res) ?w1)"
    using emitAudit_steps [OF assms] by blast
  have s: "steps E cfg (ts, w) (ts[k := Working (CallRerun i) r], after (?audit res) ?w1)"
    by (rule rtranclp_trans [OF sent r])
  have logging: "steps E cfg (ts[k := Working (CallRerun i) r], after (?audit res) ?w1)
    (ts[k := Working (CallRerun i) r], after (log_msg LevelError ''failed to persist audit event'') (after (?audit res) ?w1))"
    by (rule steps_elsewhere) simp
  show ?thesis using res s rtranclp_trans [OF s logging] by metis
qed

lemma call_steps:
  assumes "k < length ts" "ts ! k = Working c Unrecorded"
  shows "\<exists>r. steps E cfg (ts, w)
    (ts[k := Answered c r (fst (val (Register E (program E cfg) c) w) = None)], after (Register E (program E cfg) c) w)"
proof -
  have compare: "moves R (compare_call (dp_Service (program E cfg)) x)"
    if "read_service R E (dp_Service (program E cfg))" for R x
    using that read_service.reads(4) [OF that] read_service.axioms(1) [OF that]
    unfolding compare_call_def by (auto intro!: effect.rules)
  note handled = handled_steps [OF assms, OF read_steps [OF _ _ assms(2)]]
  show ?thesis
  proof (cases c)
    case (CallRerun i)
    note w = assms(1) assms(2) [unfolded CallRerun]
    show ?thesis
      unfolding CallRerun using handled_steps [OF w, OF rerun_steps [OF w]]
      by (simp add: Register_def val_answer rerun_def tool_name_def)
  next
    case (CallGetRun x)
    then show ?thesis
      using handled [OF program_metrics.reads(1) program_files.reads(1)]
      by (simp add: Register_def val_answer getRun_def tool_name_def)
  next
    case (CallDiagnoseFailure x)
    then show ?thesis
      using handled [OF program_metrics.reads(2) program_files.reads(2)]
      by (simp add: Register_def val_answer diagnoseFailure_def tool_name_def)
  next
    case (CallAnalyzeFlakyTests x)
    then show ?thesis
      using handled [OF program_metrics.reads(3) program_files.reads(3)]
      by (simp add: Register_def val_answer analyzeFlakyTests_def tool_name_def)
  next
    case (CallComparePerformance x)
    then show ?thesis
      using handled [OF compare [OF program_metrics.read_service_axioms] compare [OF program_files.read_service_axioms]]
      by (simp add: Register_def val_answer comparePerformance_def tool_name_def)
  qed
qed

lemma serve_steps:
  "\<exists>ts. steps E cfg (ds @ started cs, w) (ds @ ts, after (serve E (program E cfg) cs) w) \<and>
     map call_of ts = cs \<and>
     concat (map outcome ts) = map2 (\<lambda>c r. (tool_name c, fst r = None)) cs (val (serve E (program E cfg) cs) w)"
proof (induction cs arbitrary: ds w)
  case Nil
  show ?case by (simp add: started_def)
next
  case (Cons c cs)
  let ?w = "after (Register E (program E cfg) c) w" and ?ok = "fst (val (Register E (program E cfg) c) w) = None"
  have k: "length ds < length (ds @ started (c # cs))" "(ds @ started (c # cs)) ! length ds = Working c Unrecorded"
    by (simp_all add: started_def)
  obtain r where r: "steps E cfg (ds @ started (c # cs), w) ((ds @ [Answered c r ?ok]) @ started cs, ?w)"
    using call_steps [OF k, where E = E and cfg = cfg and w = w] by (simp add: started_def) blast
  obtain ts where ts: "steps E cfg ((ds @ [Answered c r ?ok]) @ started cs, ?w)
      ((ds @ [Answered c r ?ok]) @ ts, after (serve E (program E cfg) cs) ?w)"
    "map call_of ts = cs"
    "concat (map outcome ts) = map2 (\<lambda>c r. (tool_name c, fst r = None)) cs (val (serve E (program E cfg) cs) ?w)"
    using Cons.IH by blast
  have "steps E cfg (ds @ started (c # cs), w) (ds @ Answered c r ?ok # ts, after (serve E (program E cfg) (c # cs)) w)"
    using rtranclp_trans [OF r ts(1)] by simp
  with ts(2,3) show ?case by (intro exI [of _ "Answered c r ?ok # ts"]) simp
qed

text \<open>C9. The calls made one after the other are one of the schedules: whatever the calls and the surroundings, the world
  that \<open>serve\<close> leaves is reached by steps that answer every call, each with the outcome \<open>serve\<close> returns.\<close>

theorem serve_is_schedule:
  "\<exists>ts. steps E cfg (started cs, w) (ts, after (serve E (program E cfg) cs) w) \<and>
     map call_of ts = cs \<and>
     concat (map outcome ts) = map2 (\<lambda>c r. (tool_name c, fst r = None)) cs (val (serve E (program E cfg) cs) w)"
  using serve_steps [where ds = "[]"] by simp

section \<open>Two calls at once\<close>

text \<open>A rerun that hands its record to the log, is overtaken by another call, and is answered after it.\<close>

definition overtaking :: tool_call where
  "overtaking = CallGetRun \<lparr>li_Provider = [], li_RunURL = [], li_RunID = 7, li_Repository = ''o/r''\<rparr>"

definition sample_record :: AuditEvent where
  "sample_record = \<lparr>ae_EventID = ''evt_0_7'', ae_Tool = ''pipeline.rerun'', ae_Actor = cf_Actor rerun_config,
     ae_Repository = ''o/r'', ae_RunID = ri_RunID rerun_input, ae_Reason = ri_Reason rerun_input,
     ae_Scope = rerun_scope (ri_FailedJobsOnly rerun_input), ae_Timestamp = [], ae_Outcome = ''success'', ae_Signature = []\<rparr>"

definition after_append :: world where
  "after_append = after (Append quiet_env (program_store rerun_config) sample_record) (empty_world\<lparr>w_metrics := []\<rparr>)"

definition after_overtaking :: world where
  "after_overtaking =
     after (Observe quiet_env (program_collector rerun_config) (tool_name overtaking) 0 False None) after_append"

definition after_both :: world where
  "after_both =
     after (Observe quiet_env (program_collector rerun_config) (tool_name (CallRerun rerun_input)) 0 True None) after_overtaking"

lemma sample_append:
  "append_state (val (Append quiet_env (program_store rerun_config) sample_record) (empty_world\<lparr>w_metrics := []\<rparr>)) = Written"
  using Append_succeeds [of quiet_env "empty_world\<lparr>w_metrics := []\<rparr>" "program_store rerun_config" sample_record] rerun_log
  by (simp add: append_state_def quiet_env_def program_store_def NewJSONLStore_def appendable_def)

lemma overtaken:
  "steps quiet_env rerun_config (started [CallRerun rerun_input, overtaking], empty_world\<lparr>w_metrics := []\<rparr>)
     ([Answered (CallRerun rerun_input) Written True, Answered overtaking Unrecorded False], after_both)"
proof -
  let ?w0 = "empty_world\<lparr>w_metrics := []\<rparr>" and ?r = "CallRerun rerun_input"
  have "records rerun_config rerun_input sample_record" by (simp add: records_def sample_record_def)
  then have 1: "step quiet_env rerun_config (started [?r, overtaking], ?w0) ([Working ?r Written, Working overtaking Unrecorded], after_append)"
    using step.append [of 0 "started [?r, overtaking]" rerun_input rerun_config sample_record quiet_env ?w0]
    by (simp add: started_def after_append_def sample_append)
  have 2: "step quiet_env rerun_config ([Working ?r Written, Working overtaking Unrecorded], after_append)
      ([Working ?r Written, Answered overtaking Unrecorded False], after_overtaking)"
    using step.observe [of 1 "[Working ?r Written, Working overtaking Unrecorded]" overtaking Unrecorded quiet_env
        rerun_config after_append False 0 None]
    by (simp add: after_overtaking_def)
  have 3: "step quiet_env rerun_config ([Working ?r Written, Answered overtaking Unrecorded False], after_overtaking)
      ([Answered ?r Written True, Answered overtaking Unrecorded False], after_both)"
    using step.observe [of 0 "[Working ?r Written, Answered overtaking Unrecorded False]" ?r Written quiet_env
        rerun_config after_overtaking True 0 None]
    by (simp add: after_both_def)
  have "steps quiet_env rerun_config (started [?r, overtaking], ?w0)
      ([Working ?r Written, Working overtaking Unrecorded], after_append)"
    using 1 by (rule r_into_rtranclp [where r = "step quiet_env rerun_config"])
  also note 2
  also note 3
  finally show ?thesis .
qed



end
