(* ===== verification/Go_Json_Laws.thy ===== *)
theory Go_Json_Laws
  imports Go_Json
begin

text \<open>
  What \<open>Go_Json\<close> writes, it reads: a string of valid UTF-8 comes back from its escaped form, an integer
  from its decimal form, and an object of such members from its text.
\<close>

section \<open>Strings\<close>

fun valid_utf8 :: "string \<Rightarrow> bool" where
  "valid_utf8 [] = True"
| "valid_utf8 (c # s) = (rune_len (c # s) \<noteq> 0 \<and> valid_utf8 (drop (rune_len (c # s) - 1) s))"

lemma valid_utf8_ascii: "list_all (\<lambda>c. byte c < 128) s \<Longrightarrow> valid_utf8 s"
  by (induction s) (simp_all add: rune_len_def)

lemma rune_len_one: "rune_len (c # s) = 1 \<longleftrightarrow> byte c < 128"
  by (auto simp: rune_len_def)

lemma rune_len_length: "rune_len s \<le> length s"
  by (cases s) (auto simp: rune_len_def)

text \<open>The encoding a string starts with is the same whatever follows it.\<close>

lemma rune_len_take: "2 \<le> rune_len s \<Longrightarrow> rune_len (take (rune_len s) s @ r) = rune_len s"
  by (cases s; cases "tl s"; cases "tl (tl s)"; cases "tl (tl (tl s))")
     (auto simp: rune_len_def numeral_3_eq_3 numeral_2_eq_2 split: if_splits)

lemma special_bytes: "byte dquote = 34" "byte backslash = 92"
  by (simp_all add: dquote_def backslash_def)

lemma special_chars: "backslash \<noteq> dquote" "\<not> byte backslash < 32" "CHR ''u'' \<notin> set ([dquote, backslash] @ ''/bfnrt'')"
  by (simp_all add: dquote_def backslash_def)

declare scan_string.simps(2) [simp del]

text \<open>One step of the scanner: a byte for itself, a short escape, and a \<open>u\<close> escape.\<close>

lemma scan_string_plain:
  "c \<noteq> dquote \<Longrightarrow> c \<noteq> backslash \<Longrightarrow> 32 \<le> byte c \<Longrightarrow>
   scan_string (c # u) = map_option (\<lambda>(x, t). (c # x, t)) (scan_string u)"
  by (subst scan_string.simps(2)) simp

lemma scan_string_short:
  "e \<in> set ([dquote, backslash] @ ''/bfnrt'') \<Longrightarrow>
   scan_string (backslash # e # u) = map_option (\<lambda>(x, t). (backslash # e # x, t)) (scan_string u)"
  by (subst scan_string.simps(2)) (simp only: special_chars if_True if_False list.case simp_thms)

lemma scan_string_u: "list_all ishex [h1, h2, h3, h4] \<Longrightarrow>
  scan_string (backslash # CHR ''u'' # h1 # h2 # h3 # h4 # u) =
  map_option (\<lambda>(x, t). (backslash # CHR ''u'' # h1 # h2 # h3 # h4 # x, t)) (scan_string u)"
  by (subst scan_string.simps(2)) (simp only: special_chars if_True if_False list.case simp_thms)

lemma scan_string_end: "scan_string (dquote # t) = Some ([], t)"
  by (subst scan_string.simps(2)) simp

lemma scan_string_raw:
  "list_all (\<lambda>c. 128 \<le> byte c) xs \<Longrightarrow> scan_string (xs @ u) = map_option (\<lambda>(x, t). (xs @ x, t)) (scan_string u)"
proof (induction xs)
  case (Cons c xs)
  then have "c \<noteq> dquote" "c \<noteq> backslash" by (auto simp: special_bytes)
  with Cons show ?case by (auto simp: scan_string_plain option.map_comp o_def split_def)
qed (simp add: option.map_ident split_def)

text \<open>Every byte below 128 in its escaped form, by cases.\<close>

definition escape_ok :: "char \<Rightarrow> bool" where
  "escape_ok c \<longleftrightarrow>
     (let e = json_byte c in
      if length e = 1 then e = [c] \<and> c \<noteq> dquote \<and> c \<noteq> backslash \<and> 32 \<le> byte c
      else if length e = 2 then hd e = backslash \<and> e ! 1 \<in> set ([dquote, backslash] @ ''/bfnrt'') \<and> unescape_char (e ! 1) = c
      else length e = 6 \<and> take 2 e = [backslash, CHR ''u''] \<and> list_all ishex (drop 2 e) \<and> hex4 (drop 2 e) = byte c)"

lemma escapes_ok: "list_all (\<lambda>n. escape_ok (char_of n)) [0..<128]"
  by code_simp

lemma escape_cases:
  assumes "byte c < 128"
  obtains "json_byte c = [c]" "c \<noteq> dquote" "c \<noteq> backslash" "32 \<le> byte c"
  | e where "json_byte c = [backslash, e]" "e \<in> set ([dquote, backslash] @ ''/bfnrt'')" "unescape_char e = c"
  | h1 h2 h3 h4 where "json_byte c = [backslash, CHR ''u'', h1, h2, h3, h4]" "list_all ishex [h1, h2, h3, h4]"
    "hex4 [h1, h2, h3, h4] = byte c"
proof -
  have "escape_ok (char_of (byte c))" using escapes_ok assms unfolding list_all_iff by (metis atLeastLessThan_iff set_upt zero_le)
  then have ok: "escape_ok c" by (simp only: char_of_char)
  have "length (json_byte c) \<in> {1, 2, 6}"
    by (auto simp: json_byte_def u_escape_def hex_byte_def)
  then consider "length (json_byte c) = 1" | "length (json_byte c) = 2" | "length (json_byte c) = 6" by auto
  then show thesis
  proof cases
    case 1
    with ok that(1) show thesis by (simp add: escape_ok_def Let_def)
  next
    case 2
    then obtain a b where "json_byte c = [a, b]" by (auto simp: length_Suc_conv numeral_2_eq_2)
    with ok that(2) show thesis by (simp add: escape_ok_def Let_def)
  next
    case 3
    then obtain a b h1 h2 h3 h4 where "json_byte c = [a, b, h1, h2, h3, h4]"
      by (auto simp: length_Suc_conv eval_nat_numeral)
    with ok that(3) show thesis by (simp add: escape_ok_def Let_def eval_nat_numeral)
  qed
qed

lemma scan_string_byte:
  "byte c < 128 \<Longrightarrow> scan_string (json_byte c @ u) = map_option (\<lambda>(x, t). (json_byte c @ x, t)) (scan_string u)"
  by (erule escape_cases) (simp_all only: append.simps scan_string_plain scan_string_short scan_string_u simp_thms)

lemma ishex_sample: "list_all ishex ''ufffd'' = False" "list_all ishex ''fffd''" "list_all ishex ''2028''" "list_all ishex ''2029''"
  by (simp_all add: ishex_def is_digit_def)

lemma scan_string_escape: "scan_string (json_escape s @ dquote # t) = Some (json_escape s, t)"
proof (induction s rule: json_escape.induct)
  case 1
  show ?case by (simp add: scan_string_end)
next
  case (2 c s)
  let ?n = "rune_len (c # s)"
  let ?a = "take 3 (c # s) = [CHR 0xE2, CHR 0x80, CHR 0xA8]" and ?b = "take 3 (c # s) = [CHR 0xE2, CHR 0x80, CHR 0xA9]"
  consider "?n = 0" | "?n = 1" | "2 \<le> ?n" ?a | "2 \<le> ?n" "\<not> ?a" ?b | "2 \<le> ?n" "\<not> ?a" "\<not> ?b" by linarith
  then show ?case
  proof cases
    case 1
    with "2.IH"(1) [OF refl 1] show ?thesis
      using scan_string_u [OF ishex_sample(2)] by simp
  next
    case 2
    then have "byte c < 128" using rune_len_one [of c s] by simp
    with "2.IH"(2) [OF refl _ 2] 2 show ?thesis by (simp add: scan_string_byte)
  next
    case 3
    with "2.IH"(3) [OF refl] show ?thesis
      using scan_string_u [OF ishex_sample(3)] by simp
  next
    case 4
    with "2.IH"(4) [OF refl] show ?thesis
      using scan_string_u [OF ishex_sample(4)] by simp
  next
    case 5
    then have "list_all (\<lambda>c. 128 \<le> byte c) (take ?n (c # s))"
      using rune_len_high [of "c # s"] by (auto simp: list_all_iff)
    moreover have "json_escape (c # s) = take ?n (c # s) @ json_escape (drop (?n - 1) s)"
    proof -
      from 5(1) have "(?n = 0) = False" "(?n = 1) = False" by auto
      with 5(2,3) show ?thesis by (simp only: json_escape.simps(2) Let_def if_False)
    qed
    moreover have "scan_string (json_escape (drop (?n - 1) s) @ dquote # t) = Some (json_escape (drop (?n - 1) s), t)"
      using "2.IH"(5) [OF refl] 5 by simp
    ultimately show ?thesis by (simp only: append_assoc scan_string_raw) simp
  qed
qed

declare unquote.simps(2) [simp del]

lemma unquote_plain: "byte c < 128 \<Longrightarrow> c \<noteq> backslash \<Longrightarrow> unquote (c # u) = c # unquote u"
  using rune_len_one [of c u] by (subst unquote.simps(2)) (simp add: Let_def)

lemma unquote_short:
  "e \<in> set ([dquote, backslash] @ ''/bfnrt'') \<Longrightarrow> unquote (backslash # e # u) = unescape_char e # unquote u"
  using special_chars(3) by (subst unquote.simps(2)) (auto simp del: set_append)

lemma unquote_u:
  "\<not> is_surrogate (hex4 [h1, h2, h3, h4]) \<Longrightarrow>
   unquote (backslash # CHR ''u'' # h1 # h2 # h3 # h4 # u) = utf8_encode (hex4 [h1, h2, h3, h4]) @ unquote u"
  by (subst unquote.simps(2)) (simp add: Let_def eval_nat_numeral)

lemma unquote_raw:
  assumes "2 \<le> rune_len s"
  shows "unquote (take (rune_len s) s @ u) = take (rune_len s) s @ unquote u"
proof -
  let ?n = "rune_len s"
  obtain c r where s: "take ?n s = c # r" using assms rune_len_length [of s] by (cases "take ?n s") auto
  have n: "rune_len (c # r @ u) = ?n" using rune_len_take [OF assms, of u] s by simp
  have len: "length r = ?n - 1" using arg_cong [OF s, of length] rune_len_length [of s] by simp
  have "128 \<le> byte c" by (rule rune_len_high [OF assms]) (simp add: s)
  then have "c \<noteq> backslash" by (auto simp: special_bytes)
  moreover from len assms have "?n = Suc (length r)" by simp
  ultimately show ?thesis
    using n unfolding s append_Cons by (subst unquote.simps(2)) (simp add: Let_def)
qed

lemma unquote_byte:
  assumes "byte c < 128"
  shows "unquote (json_byte c @ u) = c # unquote u"
  using assms
proof (cases rule: escape_cases)
  case (3 h1 h2 h3 h4)
  with assms have "\<not> is_surrogate (hex4 [h1, h2, h3, h4])" by (simp add: is_surrogate_def)
  with 3 assms show ?thesis by (simp add: unquote_u utf8_encode_def)
qed (simp_all add: unquote_plain unquote_short assms)

lemma separators: "\<not> is_surrogate (hex4 ''2028'')" "\<not> is_surrogate (hex4 ''2029'')"
  "utf8_encode (hex4 ''2028'') = [CHR 0xE2, CHR 0x80, CHR 0xA8]"
  "utf8_encode (hex4 ''2029'') = [CHR 0xE2, CHR 0x80, CHR 0xA9]"
  by code_simp+

text \<open>A string of valid UTF-8 survives escaping.\<close>

lemma unquote_escape: "valid_utf8 s \<Longrightarrow> unquote (json_escape s) = s"
proof (induction s rule: json_escape.induct)
  case (2 c s)
  let ?n = "rune_len (c # s)"
  let ?a = "take 3 (c # s) = [CHR 0xE2, CHR 0x80, CHR 0xA8]" and ?b = "take 3 (c # s) = [CHR 0xE2, CHR 0x80, CHR 0xA9]"
  from "2.prems" have v: "?n \<noteq> 0" "valid_utf8 (drop (?n - 1) s)" by simp_all
  have three: "?n = 3" if "?a \<or> ?b"
  proof -
    from that obtain d e r where "c = CHR 0xE2" "s = d # e # r" "d = CHR 0x80" "e \<in> {CHR 0xA8, CHR 0xA9}"
      by (cases s; cases "tl s") auto
    then show ?thesis by (auto simp: rune_len_def cont_byte_def)
  qed
  consider "?n = 1" | "2 \<le> ?n" ?a | "2 \<le> ?n" "\<not> ?a" ?b | "2 \<le> ?n" "\<not> ?a" "\<not> ?b" using v by linarith
  then show ?case
  proof cases
    case 1
    then have "byte c < 128" using rune_len_one [of c s] by simp
    with "2.IH"(2) [OF refl _ 1] 1 v(2) show ?thesis by (simp add: unquote_byte)
  next
    case 2
    then have "unquote (json_escape (drop 2 s)) = drop 2 s" using "2.IH"(3) [OF refl] three v(2) by simp
    moreover have "c # s = [CHR 0xE2, CHR 0x80, CHR 0xA8] @ drop 2 s"
      using 2(2) append_take_drop_id [of 3 "c # s"] by simp
    ultimately show ?thesis
      using 2 unquote_u [OF separators(1)] separators(3) by simp
  next
    case 3
    then have "unquote (json_escape (drop 2 s)) = drop 2 s" using "2.IH"(4) [OF refl] three v(2) by simp
    moreover have "c # s = [CHR 0xE2, CHR 0x80, CHR 0xA9] @ drop 2 s"
      using 3(3) append_take_drop_id [of 3 "c # s"] by simp
    ultimately show ?thesis
      using 3 unquote_u [OF separators(2)] separators(4) by simp
  next
    case 4
    from 4(1) have ne: "(?n = 0) = False" "(?n = 1) = False" by auto
    have "unquote (json_escape (c # s)) = take ?n (c # s) @ unquote (json_escape (drop (?n - 1) s))"
      using 4 ne unquote_raw [OF 4(1)] by (simp only: json_escape.simps(2) Let_def if_False)
    also have "unquote (json_escape (drop (?n - 1) s)) = drop (?n - 1) s"
      using "2.IH"(5) [OF refl] 4 v(2) ne by simp
    also have "take ?n (c # s) @ drop (?n - 1) s = c # s"
      using v(1) append_take_drop_id [of ?n "c # s"] by (cases ?n) simp_all
    finally show ?thesis .
  qed
qed simp

section \<open>Numbers\<close>

lemma show_nat_hd_zero: "0 < n \<Longrightarrow> hd (show_nat n) \<noteq> CHR ''0''"
proof (induction n rule: show_nat.induct)
  case (1 n)
  show ?case
  proof (cases "n < 10")
    case True
    with 1(2) have "byte (hd (show_nat n)) \<noteq> byte CHR ''0''"
      by (simp add: show_nat.simps [of n] byte_digit)
    then show ?thesis by metis
  next
    case False
    with 1(1) show ?thesis by (simp add: show_nat.simps [of n])
  qed
qed

text \<open>What may follow a member of an object or an array.\<close>

definition closes :: "string \<Rightarrow> bool" where
  "closes u \<longleftrightarrow> u \<noteq> [] \<and> hd u \<in> set ('',}]'' @ [CHR 0x0A])"

lemma closes_digits: "closes u \<Longrightarrow> takeWhile is_digit u = []" "closes u \<Longrightarrow> dropWhile is_digit u = u"
  by (cases u; auto simp: closes_def is_digit_def)+

lemma scan_int_show: "closes u \<Longrightarrow> scan_int (show_nat n @ u) = Some (show_nat n, u)"
proof (cases "n = 0")
  case True
  assume "closes u"
  moreover have "digit 0 = CHR ''0''" by code_simp
  ultimately show ?thesis using True by (simp add: show_nat.simps [of 0] scan_int_def)
next
  case False
  assume u: "closes u"
  obtain c r where s: "show_nat n = c # r" by (cases "show_nat n") simp_all
  have d: "list_all is_digit (show_nat n)" by (auto simp: list_all_iff dest: show_nat_digits)
  have "c \<noteq> CHR ''0''" using show_nat_hd_zero [of n] False s by simp
  moreover have "takeWhile is_digit (show_nat n @ u) = show_nat n" "dropWhile is_digit (show_nat n @ u) = u"
    using d closes_digits [OF u] by (simp_all add: list_all_iff takeWhile_append dropWhile_append)
  ultimately show ?thesis using d s by (simp add: scan_int_def)
qed

lemma scan_number_Itoa: "closes u \<Longrightarrow> scan_number (Itoa i @ u) = Some (Itoa i, u)"
proof -
  assume u: "closes u"
  then have f: "scan_frac u = Some ([], u)" "scan_exp u = Some ([], u)"
    by (cases u; auto simp: closes_def scan_frac_def scan_exp_def)+
  have "\<not> prefix ''-'' (show_nat n @ u)" for n
    using hd_show_nat [of n] by (cases "show_nat n") (auto simp: prefix_def)
  then show ?thesis
    using scan_int_show [OF u] f by (cases "i < 0") (simp_all add: scan_number_def Itoa_def Let_def)
qed

section \<open>Objects\<close>

text \<open>A text that the parser reads as the value \<open>v\<close> wherever it stands in an object.\<close>

definition renders :: "string \<Rightarrow> json \<Rightarrow> bool" where
  "renders txt v \<longleftrightarrow> (\<forall>n u. closes u \<longrightarrow> jval (Suc n) (txt @ u) = Some (v, u))"

lemma renders_string: "renders (json_string s) (JStr (json_escape s))"
  by (simp add: renders_def json_string_def is_ws_def special_bytes scan_string_escape)

lemma renders_Itoa: "renders (Itoa i) (JNum (Itoa i))"
  unfolding renders_def
proof (intro allI impI)
  fix n u
  assume u: "closes u"
  obtain c r where s: "Itoa i = c # r" by (cases "Itoa i") simp_all
  then have "is_digit c \<or> c = CHR ''-''" using Itoa_chars [of c i] by simp
  then have c: "\<not> is_ws c" "c \<noteq> dquote" "c \<noteq> CHR ''[''" "c \<noteq> CHR ''{''" "c \<noteq> CHR ''n''" "c \<noteq> CHR ''t''" "c \<noteq> CHR ''f''"
    by (auto simp: is_digit_def is_ws_def dquote_def)
  then show "jval (Suc n) (Itoa i @ u) = Some (JNum (Itoa i), u)"
    using scan_number_Itoa [OF u, of i] by (simp add: s prefix_def)
qed

definition member_text :: "string \<times> string \<times> json \<Rightarrow> string" where
  "member_text m = (case m of (k, txt, _) \<Rightarrow> json_string k @ '':'' @ txt)"

definition member_ok :: "string \<times> string \<times> json \<Rightarrow> bool" where
  "member_ok m \<longleftrightarrow> (case m of (k, txt, v) \<Rightarrow> valid_utf8 k \<and> renders txt v)"

lemma jobj_members:
  "list_all member_ok ms \<Longrightarrow> ms \<noteq> [] \<Longrightarrow> length ms \<le> n \<Longrightarrow>
   jobj (Suc n) (join '','' (map member_text ms) @ ''}'' @ u) = Some (map (\<lambda>(k, _, v). (k, v)) ms, u)"
proof (induction ms arbitrary: n)
  case (Cons m ms)
  obtain k x v where m: "m = (k, x, v)" by (cases m)
  obtain n' where n: "n = Suc n'" using Cons.prems(3) by (cases n) simp_all
  have ok: "valid_utf8 k" "renders x v" using Cons.prems(1) by (simp_all add: m member_ok_def)
  have key: "scan_string (json_escape k @ dquote # t) = Some (json_escape k, t)" for t by (rule scan_string_escape)
  have ws: "\<not> is_ws dquote" "\<not> is_ws CHR '':''" "\<not> is_ws CHR '',''" "\<not> is_ws CHR ''}''"
    by (simp_all add: is_ws_def special_bytes)
  show ?case
  proof (cases ms)
    case Nil
    have "jval n (x @ ''}'' @ u) = Some (v, ''}'' @ u)"
      using ok(2) by (simp add: renders_def n closes_def)
    with Nil show ?thesis
      by (simp add: m member_text_def json_string_def ws key unquote_escape ok(1))
  next
    case (Cons m' ms')
    define rest where "rest = join '','' (map member_text ms) @ ''}'' @ u"
    have "jval n (x @ '','' @ rest) = Some (v, '','' @ rest)"
      using ok(2) by (simp add: renders_def n closes_def)
    moreover have "jobj n rest = Some (map (\<lambda>(k, _, v). (k, v)) ms, u)"
      unfolding n rest_def using Cons.IH [of n'] Cons.prems Cons n by simp
    ultimately have "jobj (Suc n) (member_text m @ '','' @ rest) = Some (map (\<lambda>(k, _, v). (k, v)) (m # ms), u)"
      by (simp add: m member_text_def json_string_def ws key unquote_escape ok(1))
    moreover have "join '','' (map member_text (m # ms)) @ ''}'' @ u = member_text m @ '','' @ rest"
      by (simp add: Cons rest_def)
    ultimately show ?thesis by (simp only:)
  qed
qed simp

lemma json_parse_object:
  assumes "list_all member_ok ms" "ms \<noteq> []"
  shows "json_parse (''{'' @ join '','' (map member_text ms) @ ''}'') = Some (JObj (map (\<lambda>(k, _, v). (k, v)) ms))"
proof -
  let ?s = "''{'' @ join '','' (map member_text ms) @ ''}''"
  have len: "length ms \<le> length (join '','' (map member_text ms))"
  proof (induction ms)
    case (Cons m ms)
    then show ?case by (cases m; cases ms) (simp_all add: member_text_def json_string_def)
  qed simp
  then obtain n where n: "2 * length ?s + 2 = Suc (Suc n)" "length ms \<le> n" by auto
  obtain r where r: "join '','' (map member_text ms) @ ''}'' = dquote # r"
    using assms(2) by (cases ms; cases "tl ms") (auto simp: member_text_def json_string_def)
  have "jobj (Suc n) (join '','' (map member_text ms) @ ''}'' @ []) = Some (map (\<lambda>(k, _, v). (k, v)) ms, [])"
    by (rule jobj_members [OF assms n(2)])
  then show ?thesis
    unfolding json_parse_def n(1)
    by (simp add: r is_ws_def special_bytes prefix_def) (simp add: dquote_def)
qed

section \<open>Fields\<close>

text \<open>What a decoder gets for a field whose key is there once, and for one that is not there.\<close>

lemma decode_field_absent:
  "\<forall>(k, v) \<in> set kvs. \<not> EqualFold k name \<Longrightarrow> decode_field sc d name z kvs = Some z"
  by (induction kvs) auto

lemma decode_field_present:
  assumes "distinct (map (fold_key \<circ> fst) kvs)" "(name, v) \<in> set kvs" "v \<noteq> JNull" "d v = Some x"
  shows "decode_field sc d name z kvs = Some x"
  using assms(1,2)
proof (induction kvs arbitrary: z)
  case (Cons kv kvs)
  obtain k v' where kv: "kv = (k, v')" by (cases kv)
  show ?case
  proof (cases "EqualFold k name")
    case True
    then have "\<forall>(k', v'') \<in> set kvs. \<not> EqualFold k' name"
      using Cons.prems(1) by (force simp: kv EqualFold_def)
    moreover from this have "v' = v" "k = name" using Cons.prems(2) by (auto simp: kv)
    ultimately show ?thesis using assms(3,4) by (simp add: kv decode_field_absent)
  next
    case False
    with Cons show ?thesis by (auto simp: kv)
  qed
qed simp

end
