(* ===== verification/Audit_Reader.thy ===== *)
theory Audit_Reader
  imports Audit_Log Go_Json_Laws
begin

text \<open>
  Reading the audit log of internal/audit/store.go back: the decoder that the \<open>json\<close> tags of \<open>AuditEvent\<close>
  define, applied to the lines that \<open>Append\<close> writes.
\<close>

section \<open>Events\<close>

definition dec_AuditEvent :: "AuditEvent decoder" where
  "dec_AuditEvent v = do {
     f \<leftarrow> members v;
     i \<leftarrow> string_field f ''event_id''; t \<leftarrow> string_field f ''tool''; a \<leftarrow> string_field f ''actor'';
     rp \<leftarrow> string_field f ''repository''; n \<leftarrow> int_field f ''run_id''; rs \<leftarrow> string_field f ''reason'';
     sc \<leftarrow> string_field f ''scope''; ts \<leftarrow> string_field f ''timestamp''; oc \<leftarrow> string_field f ''outcome'';
     sg \<leftarrow> string_field f ''signature'';
     Some \<lparr>ae_EventID = i, ae_Tool = t, ae_Actor = a, ae_Repository = rp, ae_RunID = n, ae_Reason = rs,
       ae_Scope = sc, ae_Timestamp = ts, ae_Outcome = oc, ae_Signature = sg\<rparr>
   }"

text \<open>An event that Go can hold without invalid UTF-8; other bytes are written as U+FFFD.\<close>

definition readable :: "AuditEvent \<Rightarrow> bool" where
  "readable e \<longleftrightarrow> in64 (ae_RunID e) \<and>
     list_all valid_utf8 [ae_EventID e, ae_Tool e, ae_Actor e, ae_Repository e, ae_Reason e, ae_Scope e,
       ae_Timestamp e, ae_Outcome e, ae_Signature e]"

definition string_member :: "string \<Rightarrow> string \<Rightarrow> string \<times> string \<times> json" where
  "string_member k s = (k, json_string s, JStr (json_escape s))"

definition event_members :: "AuditEvent \<Rightarrow> (string \<times> string \<times> json) list" where
  "event_members e =
     [string_member ''event_id'' (ae_EventID e), string_member ''tool'' (ae_Tool e),
      string_member ''actor'' (ae_Actor e), string_member ''repository'' (ae_Repository e),
      (''run_id'', Itoa (ae_RunID e), JNum (Itoa (ae_RunID e))), string_member ''reason'' (ae_Reason e),
      string_member ''scope'' (ae_Scope e), string_member ''timestamp'' (ae_Timestamp e),
      string_member ''outcome'' (ae_Outcome e)] @
     (if ae_Signature e = [] then [] else [string_member ''signature'' (ae_Signature e)])"

lemma marshal_event_members: "marshal_event e = ''{'' @ join '','' (map member_text (event_members e)) @ ''}''"
  by (simp add: marshal_event_def event_members_def json_key_def member_text_def string_member_def)

definition event_keys :: "string list" where
  "event_keys = [''event_id'', ''tool'', ''actor'', ''repository'', ''run_id'', ''reason'', ''scope'',
     ''timestamp'', ''outcome'', ''signature'']"

lemma event_keys_ok: "list_all valid_utf8 event_keys" "distinct (map fold_key event_keys)"
  by code_simp+

lemma unsigned_keys: "list_all (\<lambda>k. \<not> EqualFold k ''signature'') (take 9 event_keys)"
  by code_simp

lemma event_member_keys: "\<exists>n. map fst (event_members e) = take n event_keys \<and> (ae_Signature e = [] \<longrightarrow> n = 9)"
  by (cases "ae_Signature e = []")
    (simp_all add: event_members_def event_keys_def string_member_def exI [of _ 9] exI [of _ 10])

lemma event_members_ok: "list_all member_ok (event_members e)"
proof -
  have "member_ok (string_member k s)" if "k \<in> set event_keys" for k s
    using that event_keys_ok(1) renders_string by (auto simp: member_ok_def string_member_def list_all_iff)
  moreover have "member_ok (''run_id'', Itoa (ae_RunID e), JNum (Itoa (ae_RunID e)))"
    using event_keys_ok(1) renders_Itoa by (simp add: member_ok_def event_keys_def)
  ultimately show ?thesis by (simp add: event_members_def event_keys_def)
qed

lemma event_object: "json_parse (marshal_event e) = Some (JObj (map (\<lambda>(k, _, v). (k, v)) (event_members e)))"
  unfolding marshal_event_members
  by (rule json_parse_object [OF event_members_ok]) (simp add: event_members_def)

lemma record_decodes:
  assumes "readable e"
  shows "Unmarshal dec_AuditEvent (marshal_event e) = Some e"
proof -
  define kvs where "kvs = map (\<lambda>(k, _, v). (k, v)) (event_members e)"
  have "map fst kvs = map fst (event_members e)" by (simp add: kvs_def split_def)
  then obtain n where n: "map fst kvs = take n event_keys" "ae_Signature e = [] \<Longrightarrow> n = 9"
    using event_member_keys [of e] by metis
  then have d: "distinct (map (fold_key \<circ> fst) kvs)"
    using event_keys_ok(2) by (metis distinct_take list.map_comp take_map)
  have str: "string_field kvs k = Some s" if "string_member k s \<in> set (event_members e)" "valid_utf8 s" for k s
    by (rule decode_field_present [OF d, where v = "JStr (json_escape s)"])
      (use that in \<open>force simp: kvs_def string_member_def unquote_escape\<close>)+
  have num: "int_field kvs ''run_id'' = Some (ae_RunID e)"
    by (rule decode_field_present [OF d, where v = "JNum (Itoa (ae_RunID e))"])
      (use assms in \<open>simp_all add: kvs_def event_members_def readable_def ParseInt_Itoa\<close>)
  have sg: "string_field kvs ''signature'' = Some (ae_Signature e)"
  proof (cases "ae_Signature e = []")
    case True
    have "\<not> EqualFold k ''signature''" if "(k, v) \<in> set kvs" for k v
    proof -
      from that have "k \<in> set (map fst kvs)" by force
      then have "k \<in> set (take 9 event_keys)" unfolding n(1) n(2) [OF True] .
      with unsigned_keys show ?thesis unfolding list_all_iff by blast
    qed
    then have "\<forall>(k, v) \<in> set kvs. \<not> EqualFold k ''signature''" by blast
    from decode_field_absent [OF this] show ?thesis using True by simp
  next
    case False
    then show ?thesis using assms by (intro str) (simp_all add: event_members_def readable_def)
  qed
  have fs: "string_field kvs ''event_id'' = Some (ae_EventID e)" "string_field kvs ''tool'' = Some (ae_Tool e)"
    "string_field kvs ''actor'' = Some (ae_Actor e)" "string_field kvs ''repository'' = Some (ae_Repository e)"
    "string_field kvs ''reason'' = Some (ae_Reason e)" "string_field kvs ''scope'' = Some (ae_Scope e)"
    "string_field kvs ''timestamp'' = Some (ae_Timestamp e)" "string_field kvs ''outcome'' = Some (ae_Outcome e)"
    using assms by (simp_all add: str event_members_def readable_def)
  show ?thesis
    unfolding Unmarshal_def event_object kvs_def [symmetric] by (simp add: dec_AuditEvent_def fs num sg)
qed

text \<open>C18. The audit log reads back: the record of an event whose strings are valid UTF-8, decoded by the tags
  of the struct, is that event, with its signature.\<close>

theorem audit_record_round_trip:
  assumes "readable e"
  shows "Unmarshal dec_AuditEvent (marshal_event e) = Some e"
  by (rule record_decodes [OF assms])

definition sample_event :: AuditEvent where
  "sample_event = \<lparr>ae_EventID = ''evt_1_7'', ae_Tool = ''pipeline.rerun'', ae_Actor = ''ci'',
     ae_Repository = ''o/r'', ae_RunID = -7, ae_Reason = ''a <b> '' @ [dquote, CHR 0x0A, CHR 0xC3, CHR 0xA9],
     ae_Scope = ''full_run'', ae_Timestamp = [], ae_Outcome = ''success'', ae_Signature = ''00''\<rparr>"

theorem audit_record_round_trip_witness:
  "Unmarshal dec_AuditEvent (marshal_event sample_event) = Some sample_event"
  by (rule audit_record_round_trip) code_simp

end
