(* ===== verification/Export_Reader.thy ===== *)
theory Export_Reader
  imports Telemetry Go_Json_Laws
begin

text \<open>
  Reading the export of internal/telemetry/collector.go back: the indented JSON that the collector writes,
  decoded by the \<open>json\<close> tags of \<open>Snapshot\<close> and \<open>ToolMetric\<close>. The mean confidence is left out, since a
  float64 has no decoder here; that it is printed as a JSON number is what encoding/json promises.
\<close>

section \<open>Indented JSON\<close>

text \<open>A text that the parser reads as \<open>v\<close> if it has fuel for \<open>k\<close> calls; what \<open>indented\<close> makes of such members.\<close>

definition renders_at :: "nat \<Rightarrow> string \<Rightarrow> json \<Rightarrow> bool" where
  "renders_at k txt v \<longleftrightarrow> (\<forall>n u. k \<le> n \<longrightarrow> closes u \<longrightarrow> jval n (txt @ u) = Some (v, u))"

lemma renders_at_scalar: "renders txt v \<Longrightarrow> 1 \<le> k \<Longrightarrow> renders_at k txt v"
  unfolding renders_at_def renders_def by (metis One_nat_def Suc_le_D le_trans)

lemma renders_at_mono: "renders_at k txt v \<Longrightarrow> k \<le> k' \<Longrightarrow> renders_at k' txt v"
  by (simp add: renders_at_def)

definition indented_member :: "nat \<Rightarrow> string \<times> string \<times> json \<Rightarrow> string" where
  "indented_member d m = (case m of (k, txt, _) \<Rightarrow> nl_indent d @ json_string k @ '': '' @ txt)"

definition member_at :: "nat \<Rightarrow> string \<times> string \<times> json \<Rightarrow> bool" where
  "member_at K m \<longleftrightarrow> (case m of (k, txt, v) \<Rightarrow> valid_utf8 k \<and> renders_at K txt v)"

definition text_of :: "string \<times> string \<times> json \<Rightarrow> string \<times> string" where
  "text_of m = (case m of (k, txt, _) \<Rightarrow> (k, txt))"

definition value_of :: "string \<times> string \<times> json \<Rightarrow> string \<times> json" where
  "value_of m = (case m of (k, _, v) \<Rightarrow> (k, v))"

lemma skip_indent [simp]: "skip_ws (nl_indent d @ s) = skip_ws s"
proof -
  have "\<forall>c \<in> set (nl_indent d). is_ws c" by (simp add: nl_indent_def is_ws_def)
  then show ?thesis by (simp add: dropWhile_append2)
qed

lemma jval_blank: "jval n (CHR '' '' # s) = jval n s"
  by (cases n) (simp_all add: is_ws_def)

lemma closes_indent [simp]: "closes (nl_indent d @ s)" "closes (CHR '','' # s)"
  by (simp_all add: closes_def nl_indent_def)

lemma jobj_indented:
  "list_all (member_at K) ms \<Longrightarrow> ms \<noteq> [] \<Longrightarrow> length ms + K \<le> n \<Longrightarrow>
   jobj n (join '','' (map (indented_member d) ms) @ nl_indent e @ ''}'' @ u) = Some (map value_of ms, u)"
proof (induction ms arbitrary: n)
  case (Cons m ms)
  obtain k x v where m: "m = (k, x, v)" by (cases m)
  obtain n' where n: "n = Suc n'" using Cons.prems(3) by (cases n) simp_all
  have ok: "valid_utf8 k" "renders_at K x v" using Cons.prems(1) by (simp_all add: m member_at_def)
  have fuel: "K \<le> n'" using Cons.prems(3) n by simp
  have val: "jval n' (CHR '' '' # x @ t) = Some (v, t)" if "closes t" for t
    using ok(2) fuel that by (simp add: renders_at_def jval_blank)
  have key: "scan_string (json_escape k @ dquote # t) = Some (json_escape k, t)" for t by (rule scan_string_escape)
  have ws: "\<not> is_ws dquote" "\<not> is_ws CHR '':''" "\<not> is_ws CHR '',''" "\<not> is_ws CHR ''}''"
    by (simp_all add: is_ws_def special_bytes)
  show ?case
  proof (cases ms)
    case Nil
    then show ?thesis
      by (simp add: n m indented_member_def value_of_def json_string_def ws key unquote_escape ok(1) val)
  next
    case (Cons m' ms')
    define rest where "rest = join '','' (map (indented_member d) ms) @ nl_indent e @ ''}'' @ u"
    have "jobj n' rest = Some (map value_of ms, u)"
      unfolding rest_def using Cons.IH [of n'] Cons.prems Cons n by simp
    then have "jobj n (indented_member d m @ '','' @ rest) = Some (map value_of (m # ms), u)"
      by (simp add: n m indented_member_def value_of_def json_string_def ws key unquote_escape ok(1) val)
    moreover have "join '','' (map (indented_member d) (m # ms)) @ nl_indent e @ ''}'' @ u = indented_member d m @ '','' @ rest"
      by (simp add: Cons rest_def)
    ultimately show ?thesis by (simp only:)
  qed
qed simp

lemma jval_indented:
  assumes "list_all (member_at K) ms" "length ms + K + 1 \<le> n"
  shows "jval n (indented d (map text_of ms) @ u) = Some (JObj (map value_of ms), u)"
proof -
  obtain n' where n: "n = Suc n'" using assms(2) by (cases n) simp_all
  show ?thesis
  proof (cases "ms = []")
    case True
    then show ?thesis by (simp add: n indented_def is_ws_def prefix_def) (simp add: dquote_def)
  next
    case False
    define body where "body = join '','' (map (indented_member (d + 1)) ms) @ nl_indent d @ ''}'' @ u"
    have "(\<lambda>(k, v). nl_indent (d + 1) @ json_string k @ '': '' @ v) (text_of m) = indented_member (d + 1) m" for m
      by (cases m) (simp add: text_of_def indented_member_def)
    then have t: "indented d (map text_of ms) @ u = CHR ''{'' # body"
      using False by (simp add: indented_def body_def o_def)
    have "jobj n' body = Some (map value_of ms, u)"
      unfolding body_def by (rule jobj_indented [OF assms(1) False]) (use assms(2) n in simp)
    moreover obtain k x v ms' where ms: "ms = (k, x, v) # ms'" using False by (cases ms) auto
    have "\<exists>r. skip_ws body = dquote # r"
      by (cases ms') (simp_all add: body_def ms indented_member_def json_string_def is_ws_def special_bytes)
    then have "\<not> prefix ''}'' (skip_ws body)" by (auto simp: prefix_def dquote_def)
    ultimately show ?thesis by (simp add: n t is_ws_def) (simp add: dquote_def)
  qed
qed

lemma renders_at_indented:
  "list_all (member_at K) ms \<Longrightarrow> length ms + K + 1 \<le> k \<Longrightarrow>
   renders_at k (indented d (map text_of ms)) (JObj (map value_of ms))"
  by (simp add: renders_at_def jval_indented)

section \<open>The decoder of an export\<close>

definition dec_ToolMetric :: "ToolMetric decoder" where
  "dec_ToolMetric v = do {
     f \<leftarrow> members v;
     c \<leftarrow> int_field f ''calls''; e \<leftarrow> int_field f ''errors''; p \<leftarrow> int_field f ''p95_latency_ms'';
     a \<leftarrow> int_field f ''average_latency_ms''; s \<leftarrow> int_field f ''confidence_samples'';
     l \<leftarrow> string_field f ''last_observed_at'';
     Some (new_metric\<lparr>tm_Calls := c, tm_Errors := e, tm_P95LatencyMS := p, tm_AverageLatencyMS := a,
       tm_ConfidenceSamples := s, tm_LastObservedAt := l\<rparr>)
   }"

definition dec_tools :: "(string \<times> ToolMetric) list decoder" where
  "dec_tools v = do { kvs \<leftarrow> members v; those (map (\<lambda>(k, x). map_option (Pair k) (dec_ToolMetric x)) kvs) }"

definition dec_Snapshot :: "Snapshot decoder" where
  "dec_Snapshot v = do {
     f \<leftarrow> members v;
     g \<leftarrow> string_field f ''generated_at'';
     t \<leftarrow> decode_field False dec_tools ''tools'' [] f;
     Some \<lparr>sn_GeneratedAt = g, sn_Tools = t\<rparr>
   }"

text \<open>What of a metric is in the export and decoded again.\<close>

definition exported :: "ToolMetric \<Rightarrow> ToolMetric" where
  "exported m = (clear_private m)\<lparr>tm_AverageConfidence := 0\<rparr>"

definition exportable :: "ToolMetric \<Rightarrow> bool" where
  "exportable m \<longleftrightarrow> list_all in64 [tm_Calls m, tm_Errors m, tm_P95LatencyMS m, tm_AverageLatencyMS m, tm_ConfidenceSamples m] \<and>
     valid_utf8 (tm_LastObservedAt m)"

text \<open>encoding/json prints a float64 as a JSON number.\<close>

definition prints_numbers :: "env \<Rightarrow> bool" where
  "prints_numbers E \<longleftrightarrow> (\<forall>x. renders (e_float E x) (JNum (e_float E x)))"

section \<open>Reading it back\<close>

definition metric_members :: "env \<Rightarrow> ToolMetric \<Rightarrow> (string \<times> string \<times> json) list" where
  "metric_members E m =
     (let int_member = (\<lambda>k i. (k, Itoa i, JNum (Itoa i))) in
      [int_member ''calls'' (tm_Calls m), int_member ''errors'' (tm_Errors m),
       int_member ''p95_latency_ms'' (tm_P95LatencyMS m), int_member ''average_latency_ms'' (tm_AverageLatencyMS m),
       int_member ''confidence_samples'' (tm_ConfidenceSamples m),
       (''average_confidence'', e_float E (tm_AverageConfidence m), JNum (e_float E (tm_AverageConfidence m))),
       (''last_observed_at'', json_string (tm_LastObservedAt m), JStr (json_escape (tm_LastObservedAt m)))])"

definition metric_keys :: "string list" where
  "metric_keys = [''calls'', ''errors'', ''p95_latency_ms'', ''average_latency_ms'', ''confidence_samples'',
     ''average_confidence'', ''last_observed_at'']"

lemma metric_keys_ok: "list_all valid_utf8 metric_keys \<and> distinct (map fold_key metric_keys)"
  by code_simp

lemma snapshot_keys_ok:
  "valid_utf8 ''generated_at'' \<and> valid_utf8 ''tools'' \<and> fold_key ''generated_at'' \<noteq> fold_key ''tools''"
  by code_simp

lemma marshal_metric_members: "marshal_metric E m = indented 2 (map text_of (metric_members E m))"
  by (simp add: marshal_metric_def metric_members_def text_of_def Let_def)

lemma metric_members_at: "prints_numbers E \<Longrightarrow> list_all (member_at 1) (metric_members E m)"
  using metric_keys_ok
  by (simp add: metric_members_def member_at_def Let_def metric_keys_def prints_numbers_def
      renders_at_scalar renders_string renders_Itoa)

lemma renders_metric: "prints_numbers E \<Longrightarrow> renders_at 9 (marshal_metric E m) (JObj (map value_of (metric_members E m)))"
  unfolding marshal_metric_members
  by (rule renders_at_indented [OF metric_members_at]) (simp_all add: metric_members_def Let_def)

lemma metric_decodes:
  assumes "exportable m"
  shows "dec_ToolMetric (JObj (map value_of (metric_members E m))) = Some (exported m)"
proof -
  define kvs where "kvs = map value_of (metric_members E m)"
  have "map fst kvs = metric_keys" by (simp add: kvs_def metric_members_def metric_keys_def value_of_def Let_def)
  then have d: "distinct (map (fold_key \<circ> fst) kvs)" using metric_keys_ok by (metis list.map_comp)
  have num: "int_field kvs k = Some i" if "(k, JNum (Itoa i)) \<in> set kvs" "in64 i" for k i
    by (rule decode_field_present [OF d that(1)]) (simp_all add: ParseInt_Itoa that(2))
  have str: "string_field kvs ''last_observed_at'' = Some (tm_LastObservedAt m)"
    by (rule decode_field_present [OF d, where v = "JStr (json_escape (tm_LastObservedAt m))"])
      (use assms in \<open>simp_all add: kvs_def metric_members_def value_of_def Let_def exportable_def unquote_escape\<close>)
  have ints: "int_field kvs ''calls'' = Some (tm_Calls m)" "int_field kvs ''errors'' = Some (tm_Errors m)"
    "int_field kvs ''p95_latency_ms'' = Some (tm_P95LatencyMS m)"
    "int_field kvs ''average_latency_ms'' = Some (tm_AverageLatencyMS m)"
    "int_field kvs ''confidence_samples'' = Some (tm_ConfidenceSamples m)"
    by (rule num; use assms in \<open>simp add: kvs_def metric_members_def value_of_def Let_def exportable_def\<close>)+
  show ?thesis
    unfolding kvs_def [symmetric]
    by (simp add: dec_ToolMetric_def ints str exported_def clear_private_def new_metric_def)
qed

definition sorted_tools :: "(string \<times> ToolMetric) list \<Rightarrow> (string \<times> ToolMetric) list" where
  "sorted_tools byTool = stable_sort (\<lambda>a b. fst a < fst b) byTool"

definition tool_members :: "env \<Rightarrow> (string \<times> ToolMetric) list \<Rightarrow> (string \<times> string \<times> json) list" where
  "tool_members E tools = map (\<lambda>(n, m). (n, marshal_metric E m, JObj (map value_of (metric_members E m)))) tools"

lemma tools_decode:
  assumes "list_all (\<lambda>(n, m). valid_utf8 n \<and> exportable m) tools"
  shows "dec_tools (JObj (map value_of (tool_members E tools))) = Some (map (\<lambda>(n, m). (n, exported m)) tools)"
  using assms
  by (induction tools) (auto simp: dec_tools_def tool_members_def value_of_def metric_decodes)

lemma insort_by_map: "(\<And>a b. lt (f a) (f b) = lt a b) \<Longrightarrow> insort_by lt (f x) (map f ys) = map f (insort_by lt x ys)"
  by (induction ys) simp_all

lemma stable_sort_map: "(\<And>a b. lt (f a) (f b) = lt a b) \<Longrightarrow> stable_sort lt (map f xs) = map f (stable_sort lt xs)"
  by (induction xs) (simp_all add: stable_sort_def insort_by_map)

lemma sorted_tools_map: "sorted_tools (map (\<lambda>(n, m). (n, f m)) xs) = map (\<lambda>(n, m). (n, f m)) (sorted_tools xs)"
  unfolding sorted_tools_def by (rule stable_sort_map) (simp add: split_def)

lemma sorted_tools_all: "list_all P (sorted_tools xs) = list_all P xs"
  by (simp add: sorted_tools_def list_all_iff)

definition snapshot_members :: "env \<Rightarrow> Snapshot \<Rightarrow> (string \<times> string \<times> json) list" where
  "snapshot_members E s =
     (let tools = tool_members E (sorted_tools (sn_Tools s)) in
      [(''generated_at'', json_string (sn_GeneratedAt s), JStr (json_escape (sn_GeneratedAt s))),
       (''tools'', indented 1 (map text_of tools), JObj (map value_of tools))])"

lemma marshal_snapshot_members: "marshal_snapshot E s = indented 0 (map text_of (snapshot_members E s))"
  by (simp add: marshal_snapshot_def snapshot_members_def text_of_def tool_members_def sorted_tools_def Let_def
      o_def split_def)

lemma json_escape_generated: "length (json_escape ''generated_at'') = 12"
  by code_simp

lemma indented_length: "length kvs \<le> length (indented d kvs)"
proof -
  let ?f = "\<lambda>(k, v). nl_indent (d + 1) @ json_string k @ '': '' @ v"
  have "length kvs \<le> length (join '','' (map ?f kvs))"
  proof (induction kvs)
    case (Cons kv kvs)
    then show ?case by (cases kv; cases kvs) (simp_all add: json_string_def)
  qed simp
  then show ?thesis by (auto simp: indented_def)
qed

lemma snapshot_parses:
  assumes "prints_numbers E" "list_all (\<lambda>(n, m). valid_utf8 n) (sn_Tools s)"
  shows "json_parse (marshal_snapshot E s) = Some (JObj (map value_of (snapshot_members E s)))"
proof -
  let ?tools = "tool_members E (sorted_tools (sn_Tools s))" and ?s = "marshal_snapshot E s"
  let ?K = "length ?tools + 10"
  have "list_all (\<lambda>(n, m). valid_utf8 n) (sorted_tools (sn_Tools s))" using assms(2) by (simp add: sorted_tools_all)
  then have "list_all (member_at 9) ?tools"
    using renders_metric [OF assms(1)] by (auto simp: tool_members_def member_at_def list_all_iff)
  then have "renders_at ?K (indented 1 (map text_of ?tools)) (JObj (map value_of ?tools))"
    by (rule renders_at_indented) simp
  then have m: "list_all (member_at ?K) (snapshot_members E s)"
    using snapshot_keys_ok renders_at_scalar [OF renders_string, of ?K]
    by (simp add: snapshot_members_def member_at_def Let_def)
  have "length ?tools \<le> length (indented 1 (map text_of ?tools))" using indented_length [of "map text_of ?tools" 1] by simp
  moreover have "length (indented 1 (map text_of ?tools)) + 12 \<le> length ?s"
    by (simp add: marshal_snapshot_members snapshot_members_def Let_def text_of_def indented_def json_string_def nl_indent_def
        json_escape_generated)
  ultimately have "length (snapshot_members E s) + ?K + 1 \<le> 2 * length ?s + 2" by (simp add: snapshot_members_def Let_def)
  from jval_indented [OF m this, of 0 "[]"] show ?thesis
    by (simp add: json_parse_def marshal_snapshot_members)
qed

lemma snapshot_decodes:
  assumes "prints_numbers E" "valid_utf8 (sn_GeneratedAt s)" "list_all (\<lambda>(n, m). valid_utf8 n \<and> exportable m) (sn_Tools s)"
  shows "Unmarshal dec_Snapshot (marshal_snapshot E s) =
    Some \<lparr>sn_GeneratedAt = sn_GeneratedAt s, sn_Tools = map (\<lambda>(n, m). (n, exported m)) (sorted_tools (sn_Tools s))\<rparr>"
proof -
  define kvs where "kvs = map value_of (snapshot_members E s)"
  have p: "json_parse (marshal_snapshot E s) = Some (JObj kvs)"
    unfolding kvs_def by (rule snapshot_parses [OF assms(1)]) (use assms(3) in \<open>auto simp: list_all_iff\<close>)
  have d: "distinct (map (fold_key \<circ> fst) kvs)"
    using snapshot_keys_ok by (simp add: kvs_def snapshot_members_def value_of_def Let_def)
  have g: "string_field kvs ''generated_at'' = Some (sn_GeneratedAt s)"
    by (rule decode_field_present [OF d, where v = "JStr (json_escape (sn_GeneratedAt s))"])
      (use assms(2) in \<open>simp_all add: kvs_def snapshot_members_def value_of_def Let_def unquote_escape\<close>)
  have t: "decode_field False dec_tools ''tools'' [] kvs = Some (map (\<lambda>(n, m). (n, exported m)) (sorted_tools (sn_Tools s)))"
    by (rule decode_field_present [OF d, where v = "JObj (map value_of (tool_members E (sorted_tools (sn_Tools s))))"])
      (use assms(3) tools_decode [of "sorted_tools (sn_Tools s)" E] in
        \<open>simp_all add: kvs_def snapshot_members_def value_of_def Let_def sorted_tools_all\<close>)
  show ?thesis by (simp add: Unmarshal_def p dec_Snapshot_def g t)
qed

lemma stamp_valid: "valid_utf8 (FormatRFC3339 t)"
  using FormatRFC3339_visible(1) [of t] by (intro valid_utf8_ascii) (auto simp: visible_def list_all_iff)


text \<open>An export of one tool, called once, where nothing fails.\<close>

definition plain_env :: env where
  "plain_env = \<lparr>e_http = \<lambda>_ _. Inl ''connection refused'', e_done = \<lambda>_. None, e_now = \<lambda>_. 0, e_os = \<lambda>_ _. None,
     e_zip = \<lambda>_. None, e_float = \<lambda>_. ''0'', e_order = \<lambda>_ ks. ks\<rparr>"

definition called_once :: world where
  "called_once = empty_world\<lparr>w_metrics := [(''pipeline.get_run'', new_metric\<lparr>tm_Calls := 1\<rparr>)]\<rparr>"

lemma Itoa_zero: "Itoa 0 = ''0''"
  by code_simp

lemma plain_numbers: "prints_numbers plain_env"
  using renders_Itoa [of 0] by (simp add: prints_numbers_def plain_env_def Itoa_zero)

lemma called_once_exportable: "list_all (\<lambda>(n, m). valid_utf8 n \<and> exportable m) (w_metrics called_once)"
  by code_simp

lemma plain_dir: "Dir ''m.json'' = ''.''"
  by code_simp


end
