(* ===== verification/Benchmark.thy ===== *)
theory Benchmark
  imports GitHub_Adapter Service Telemetry
begin

text \<open>
  cmd/benchmark/main.go: the tool that runs the diagnosis on recorded failures and reports how often the
  expected category is found. It is the second client of the adapter's interface: \<open>benchmark_client\<close> answers
  every call from a fixture. A slice is an option where the report prints a nil slice differently from an empty
  one. The index of \<open>percentile95Latency\<close> is taken exactly, as in \<open>percentile95\<close>.
\<close>

section \<open>Fixtures\<close>

record caseFixture =
  cx_Name :: string
  cx_RunURL :: string
  cx_Logs :: string
  cx_ExpectedCategory :: string
  cx_Jobs :: "Job_gh list"
  cx_CheckRun :: "CheckRun_gh option"
  cx_Annotations :: "CheckRunAnnotation_gh list"
  cx_BranchPolicies :: "BranchPolicy_gh list"

record benchmarkCaseResult =
  br_Name :: string
  br_ExpectedCategory :: string
  br_TopCategory :: string
  br_Top3Categories :: "string list option"
  br_MatchedTop1 :: bool
  br_MatchedTop3 :: bool
  br_LatencyMS :: float64

record benchmarkReport =
  bm_Cases :: int
  bm_Top1Accuracy :: float64
  bm_Top3Accuracy :: float64
  bm_AverageLatencyMS :: float64
  bm_P95LatencyMS :: float64
  bm_Results :: "benchmarkCaseResult list"

definition dec_caseFixture :: "caseFixture decoder" where
  "dec_caseFixture v = do {
     f \<leftarrow> members v;
     n \<leftarrow> string_field f ''name''; u \<leftarrow> string_field f ''run_url''; l \<leftarrow> string_field f ''logs'';
     x \<leftarrow> string_field f ''expected_category''; js \<leftarrow> slice_field dec_Job f ''jobs'';
     cr \<leftarrow> pointer_field dec_CheckRun f ''check_run''; as \<leftarrow> slice_field dec_CheckRunAnnotation f ''annotations'';
     ps \<leftarrow> slice_field dec_BranchPolicy f ''branch_policies'';
     Some \<lparr>cx_Name = n, cx_RunURL = u, cx_Logs = l, cx_ExpectedCategory = x, cx_Jobs = js, cx_CheckRun = cr,
       cx_Annotations = as, cx_BranchPolicies = ps\<rparr>
   }"

section \<open>The client of a fixture\<close>

definition fixture_job :: Job_gh where
  "fixture_job = \<lparr>gj_ID = 0, gj_Name = ''job'', gj_Status = [], gj_Conclusion = ''failure'', gj_HeadBranch = [],
     gj_StartedAt = None, gj_CompletedAt = None, gj_HTMLURL = [], gj_CheckRunURL = [], gj_RunnerID = 0, gj_Steps = []\<rparr>"

definition benchmark_client :: "caseFixture \<Rightarrow> providerClient" where
  "benchmark_client fixture =
     \<lparr>pc_GetRun = (\<lambda>_ _ _. ret (Inr (zero_run\<lparr>wr_ID := 1, wr_Name := ''benchmark'',
        wr_HTMLURL := cx_RunURL fixture, wr_Conclusion := ''failure''\<rparr>))),
      pc_ListRunJobs = (\<lambda>_ _ _. ret (Inr (if cx_Jobs fixture \<noteq> [] then cx_Jobs fixture else [fixture_job]))),
      pc_DownloadRunLogs = (\<lambda>_ _ _ _. ret (Inr (cx_Logs fixture))),
      pc_ListRepositoryRuns = (\<lambda>_ _ _ _. ret (Inr [])),
      pc_GetCheckRun = (\<lambda>_ _ _. ret (Inr (cx_CheckRun fixture))),
      pc_GetCheckRunAnnotations = (\<lambda>_ _ _. ret (Inr (cx_Annotations fixture))),
      pc_ListDeploymentBranchPolicies = (\<lambda>_ _ _. ret (Inr (cx_BranchPolicies fixture))),
      pc_Rerun = (\<lambda>_ _ _ _. ret (Inr ()))\<rparr>"

section \<open>Evaluating a fixture\<close>

definition benchmark_config :: Config where
  "benchmark_config = \<lparr>cf_ServerName = ''pipeline-mcp-benchmark'', cf_Version = ''benchmark'', cf_LogLevel = LevelInfo,
     cf_GitHubAPIBaseURL = ''https://api.github.com'', cf_GitHubReadToken = [], cf_GitHubWriteToken = [],
     cf_DisableMutations = True, cf_AuditLogPath = [], cf_AuditSigningKey = [], cf_MetricsExportPath = [],
     cf_MaxLogBytes = 20 * 1024 * 1024, cf_DefaultLookbackDays = 14, cf_MaxHistoricalRuns = 100,
     cf_HTTPTimeout = 0, cf_UserAgent = [], cf_Actor = ''benchmark''\<rparr>"

definition noopAuditStore :: "AuditEvent \<Rightarrow> unit result io" where
  "noopAuditStore e = ret (Inr ())"

text \<open>The code panics where this is None.\<close>

definition mustProviderRegistry :: "Adapter \<Rightarrow> Registry option" where
  "mustProviderRegistry a = (case NewRegistry (ad_ProviderID a) [Some a] of Inl _ \<Rightarrow> None | Inr r \<Rightarrow> Some r)"

definition fixture_adapter :: "caseFixture \<Rightarrow> Adapter" where
  "fixture_adapter fixture =
     adapter (NewProviderAdapter (benchmark_client fixture) (cf_GitHubAPIBaseURL benchmark_config))"

definition fixture_service :: "caseFixture \<Rightarrow> Service" where
  "fixture_service fixture =
     New_Service benchmark_config (mustProviderRegistry (fixture_adapter fixture)) noopAuditStore"

definition providerJobsFromGitHub :: "Job_gh list \<Rightarrow> Job list" where
  "providerJobsFromGitHub jobs = map (\<lambda>j. \<lparr>job_ID = gj_ID j, job_Name = gj_Name j, job_Status = gj_Status j,
     job_Conclusion = gj_Conclusion j, job_HeadBranch = gj_HeadBranch j, job_StartedAt = gj_StartedAt j,
     job_CompletedAt = gj_CompletedAt j, job_RunURL = gj_HTMLURL j, job_CheckRunURL = gj_CheckRunURL j,
     job_RunnerID = gj_RunnerID j, job_Steps = []\<rparr>) jobs"

definition topCategoriesForFixture :: "caseFixture \<Rightarrow> FailureDiagnostic option \<Rightarrow> string list option" where
  "topCategoriesForFixture fixture diagnostic =
     (let own = (case diagnostic of None \<Rightarrow> None
            | Some d \<Rightarrow> if TrimSpace (fd_FailureCategory d) = '''' then None else Some [fd_FailureCategory d])
      in if TrimSpace (cx_Logs fixture) = '''' then own
         else
           let categories = take 3 (map rd_FailureCategory
                 (RankFailureDiagnoses (cx_Logs fixture) (providerJobsFromGitHub (cx_Jobs fixture))))
           in if categories = [] \<and> own \<noteq> None then own else Some categories)"

definition elements :: "'a list option \<Rightarrow> 'a list" where
  "elements xs = (case xs of None \<Rightarrow> [] | Some ys \<Rightarrow> ys)"

definition containsCategory :: "string list \<Rightarrow> string \<Rightarrow> bool" where
  "containsCategory categories want \<longleftrightarrow> list_ex (\<lambda>c. c = want) categories"

definition microsecond :: duration where "microsecond = 1000"

definition evaluateFixture :: "env \<Rightarrow> caseFixture \<Rightarrow> benchmarkCaseResult result io" where
  "evaluateFixture E fixture = do {
     start \<leftarrow> now E;
     r \<leftarrow> Service.DiagnoseFailure (fixture_service fixture)
       \<lparr>ref_Provider = [], ref_RunURL = cx_RunURL fixture, ref_RunID = 0, ref_Repository = []\<rparr>
       (cf_MaxLogBytes benchmark_config);
     t \<leftarrow> now E;
     (let latencyMS = of_int (godiv (Sub t start) microsecond) / 1000 in
      case r of
        Inl toolErr \<Rightarrow> ret (Inl (Errorf (''fixture '' @ Quote (cx_Name fixture) @ '' failed: '' @ te_Message toolErr)))
      | Inr (diagnostic, _) \<Rightarrow>
          let top3 = topCategoriesForFixture fixture (Some diagnostic) in
          ret (Inr \<lparr>br_Name = cx_Name fixture, br_ExpectedCategory = cx_ExpectedCategory fixture,
            br_TopCategory = fd_FailureCategory diagnostic, br_Top3Categories = top3,
            br_MatchedTop1 = (fd_FailureCategory diagnostic = cx_ExpectedCategory fixture),
            br_MatchedTop3 = containsCategory (elements top3) (cx_ExpectedCategory fixture),
            br_LatencyMS = latencyMS\<rparr>))
   }"

section \<open>The report\<close>

definition averageLatency :: "float64 list \<Rightarrow> float64" where
  "averageLatency values =
     (if values = [] then 0 else foldl (+) 0 values / of_nat (length values))"

definition percentile95Latency :: "float64 list \<Rightarrow> float64" where
  "percentile95Latency values =
     (if values = [] then 0
      else
        let copyValues = stable_sort (<) values;
            idx = (int (length copyValues) - 1) * 95 div 100;
            idx = (if idx < 0 then 0 else idx);
            idx = (if int (length copyValues) \<le> idx then int (length copyValues) - 1 else idx)
        in copyValues ! nat idx)"

definition summarizeResults :: "benchmarkCaseResult list \<Rightarrow> benchmarkReport" where
  "summarizeResults results =
     (let report = \<lparr>bm_Cases = int (length results), bm_Top1Accuracy = 0, bm_Top3Accuracy = 0,
            bm_AverageLatencyMS = 0, bm_P95LatencyMS = 0, bm_Results = results\<rparr>
      in if results = [] then report
         else
           let latencies = map br_LatencyMS results;
               top1Correct = length (filter br_MatchedTop1 results);
               top3Correct = length (filter br_MatchedTop3 results)
           in report\<lparr>bm_Top1Accuracy := of_nat top1Correct / of_nat (length results),
                bm_Top3Accuracy := of_nat top3Correct / of_nat (length results),
                bm_AverageLatencyMS := averageLatency latencies,
                bm_P95LatencyMS := percentile95Latency latencies\<rparr>)"

primrec evaluate_all :: "env \<Rightarrow> caseFixture list \<Rightarrow> benchmarkCaseResult list \<Rightarrow> benchmarkCaseResult list result io" where
  "evaluate_all E [] results = ret (Inr results)"
| "evaluate_all E (fixture # fixtures) results =
     and_then (evaluateFixture E fixture) (\<lambda>result. evaluate_all E fixtures (results @ [result]))"

section \<open>Printing the report\<close>

text \<open>\<open>MarshalIndent\<close> with two blanks, as in \<open>Telemetry\<close>; \<open>n\<close> is the depth of the value.\<close>

definition indented_list :: "nat \<Rightarrow> string list \<Rightarrow> string" where
  "indented_list n vs =
     (if vs = [] then ''[]''
      else ''['' @ join '','' (map (\<lambda>v. nl_indent (n + 1) @ v) vs) @ nl_indent n @ '']'')"

definition marshal_bool :: "bool \<Rightarrow> string" where
  "marshal_bool b = (if b then ''true'' else ''false'')"

definition marshal_case :: "env \<Rightarrow> benchmarkCaseResult \<Rightarrow> string" where
  "marshal_case E r = indented 2
     [(''name'', json_string (br_Name r)), (''expected_category'', json_string (br_ExpectedCategory r)),
      (''top_category'', json_string (br_TopCategory r)),
      (''top3_categories'', case br_Top3Categories r of None \<Rightarrow> ''null'' | Some cs \<Rightarrow> indented_list 3 (map json_string cs)),
      (''matched_top1'', marshal_bool (br_MatchedTop1 r)), (''matched_top3'', marshal_bool (br_MatchedTop3 r)),
      (''latency_ms'', e_float E (br_LatencyMS r))]"

definition marshal_report :: "env \<Rightarrow> benchmarkReport \<Rightarrow> string" where
  "marshal_report E r = indented 0
     [(''cases'', Itoa (bm_Cases r)), (''top1_accuracy'', e_float E (bm_Top1Accuracy r)),
      (''top3_accuracy'', e_float E (bm_Top3Accuracy r)),
      (''average_latency_ms'', e_float E (bm_AverageLatencyMS r)),
      (''p95_latency_ms'', e_float E (bm_P95LatencyMS r)),
      (''results'', indented_list 1 (map (marshal_case E) (bm_Results r)))]"

section \<open>The program\<close>

definition fixtures_path :: string where
  "fixtures_path = ''testdata/benchmarks/historical_failures.json''"

definition report_of :: "env \<Rightarrow> string \<Rightarrow> benchmarkReport result io" where
  "report_of E payload =
     (case Unmarshal (dec_slice dec_caseFixture) payload of
        None \<Rightarrow> ret (Inl (Errorf ''invalid JSON''))
      | Some fixtures \<Rightarrow>
          if fixtures = [] then ret (Inl (Errorf ''no benchmark fixtures found''))
          else and_then (evaluate_all E fixtures []) (\<lambda>results. ret (Inr (summarizeResults results))))"

text \<open>\<open>run\<close>: its result is what it prints.\<close>

definition run_benchmark :: "env \<Rightarrow> string result io" where
  "run_benchmark E =
     and_then (os_ReadFile E fixtures_path) (\<lambda>payload.
     and_then (report_of E payload) (\<lambda>report. ret (Inr (marshal_report E report @ newline))))"

definition benchmark_main :: "env \<Rightarrow> process_exit io" where
  "benchmark_main E = do {
     r \<leftarrow> run_benchmark E;
     ret (case r of
         Inr printed \<Rightarrow> \<lparr>px_Output = printed, px_Failure = [], px_Code = 0\<rparr>
       | Inl e \<Rightarrow> \<lparr>px_Output = [], px_Failure = ''benchmark failed: '' @ Error e @ newline, px_Code = 1\<rparr>)
   }"

section \<open>What a benchmark does to its surroundings\<close>

text \<open>The client of a fixture does nothing, so it keeps the contract of the interface for every effect.\<close>

lemma benchmark_client_contract: "effect R \<Longrightarrow> provider_client R (benchmark_client fixture)"
  by (simp add: provider_client_def provider_client_axioms_def benchmark_client_def effect.ret_moves)

definition local_only :: "world \<Rightarrow> world \<Rightarrow> bool" where
  "local_only = quiet (\<lambda>e. case e of ReadClock \<Rightarrow> True | Logged _ _ \<Rightarrow> True | Called c \<Rightarrow> c = SysRead fixtures_path | _ \<Rightarrow> False)"

interpretation local_only: effect local_only
  unfolding local_only_def by (rule quiet.effect_axioms)

interpretation fixture: provider_client local_only "benchmark_client fixture" for fixture
  by (rule benchmark_client_contract) (rule local_only.effect_axioms)

definition fixture_registry :: "caseFixture \<Rightarrow> Registry" where
  "fixture_registry fixture =
     \<lparr>rg_defaultProvider = ProviderGitHub, rg_adapters = [ProviderGitHub \<mapsto> fixture_adapter fixture],
      rg_ordered = [fixture_adapter fixture]\<rparr>"

lemma fixture_providers [simp]: "sv_providers (fixture_service fixture) = Some (fixture_registry fixture)"
proof -
  have id: "ad_ProviderID (fixture_adapter fixture) = ProviderGitHub"
    by (simp add: fixture_adapter_def adapter_def)
  have "TrimSpace ProviderGitHub = ProviderGitHub" "ProviderGitHub \<noteq> []"
    by (simp_all add: ProviderGitHub_def TrimSpace_visible)
  then show ?thesis
    by (simp add: fixture_service_def fixture_registry_def mustProviderRegistry_def NewRegistry_def
        empty_registry_def id Let_def)
qed

lemma fixture_provider: "provider local_only (fixture_adapter fixture)"
  unfolding fixture_adapter_def by (rule fixture.adapted.provider_axioms)

lemma local_only_clock: "moves local_only (now E)" "moves local_only (log_msg l m)"
  unfolding local_only_def now_def log_msg_def by (auto intro!: quiet.rules)

lemma fixture_resolve: "Resolve (Some (fixture_registry fixture)) p = Inr a \<Longrightarrow> a = fixture_adapter fixture"
  by (auto simp: fixture_registry_def Resolve_def Let_def split: option.splits if_splits)

lemma fixture_resolve_url:
  "ResolveRunURL (Some (fixture_registry fixture)) p u = Inr (a, l) \<Longrightarrow> a = fixture_adapter fixture"
  by (auto simp: ResolveRunURL_def parse_with_def Let_def dest: fixture_resolve split: sum.splits if_splits)
     (simp_all add: fixture_registry_def)

interpretation fixture_reads: read_service local_only E "fixture_service fixture" for E fixture
proof (unfold read_service_def read_service_axioms_def, intro conjI allI impI)
  show "provider local_only a" if "Resolve (sv_providers (fixture_service fixture)) p = Inr a" for p a
    using fixture_resolve [OF that [unfolded fixture_providers]] fixture_provider by simp
  show "provider local_only a" if "ResolveRunURL (sv_providers (fixture_service fixture)) p u = Inr (a, l)" for p u a l
    using fixture_resolve_url [OF that [unfolded fixture_providers]] fixture_provider by simp
qed (rule local_only.effect_axioms local_only_clock)+

lemma evaluateFixture_local: "moves local_only (evaluateFixture E fixture)"
  unfolding evaluateFixture_def by (intro local_only.rules local_only_clock fixture_reads.reads)

lemma evaluate_all_local: "moves local_only (evaluate_all E fixtures results)"
  by (induction fixtures arbitrary: results) (auto intro!: local_only.rules evaluateFixture_local)

lemma ReadFile_local: "moves local_only (os_ReadFile E fixtures_path)"
  unfolding os_ReadFile_def local_only_def syscall_def
  by (intro quiet.rules) (auto simp: moves_def quiet_def grows_def)

text \<open>C33. The benchmark works on its fixtures alone: whatever the file holds, the whole program, with the service
  it makes for every fixture, sends no request, writes no file and counts nothing; it reads that one file and
  the clock, and nothing else.\<close>

theorem benchmark_local: "moves local_only (benchmark_main E)"
  unfolding benchmark_main_def run_benchmark_def report_of_def
  by (intro local_only.rules evaluate_all_local ReadFile_local)

section \<open>What the report says\<close>

lemma percentile95Latency_member: "xs \<noteq> [] \<Longrightarrow> percentile95Latency xs \<in> set xs"
proof -
  assume ne: "xs \<noteq> []"
  then have len: "1 \<le> int (length xs)" by (cases xs) auto
  define i where "i = nat ((int (length xs) - 1) * 95 div 100)"
  have i: "int i = (int (length xs) - 1) * 95 div 100" "i < length xs"
    using len unfolding i_def by (auto simp: pos_imp_zdiv_nonneg_iff)
  then have "percentile95Latency xs = stable_sort (<) xs ! i"
    using ne by (simp add: percentile95Latency_def Let_def i_def)
  then show ?thesis using i(2) by (metis length_stable_sort nth_mem set_stable_sort)
qed

text \<open>The accuracies of a report are shares of its cases, and its percentile is one of the latencies measured.\<close>

lemma summarizeResults_rates:
  "let r = summarizeResults results
   in 0 \<le> bm_Top1Accuracy r \<and> bm_Top1Accuracy r \<le> 1 \<and> 0 \<le> bm_Top3Accuracy r \<and> bm_Top3Accuracy r \<le> 1 \<and>
      bm_Top1Accuracy r * of_int (bm_Cases r) = of_nat (length (filter br_MatchedTop1 results)) \<and>
      bm_Top3Accuracy r * of_int (bm_Cases r) = of_nat (length (filter br_MatchedTop3 results)) \<and>
      (results = [] \<or> bm_P95LatencyMS r \<in> br_LatencyMS ` set results)"
  using percentile95Latency_member [of "map br_LatencyMS results"]
  by (auto simp: summarizeResults_def Let_def divide_le_eq_1 length_filter_le)

section \<open>The report is reproducible\<close>

text \<open>An operation whose value does not depend on the world it runs in, and how such operations compose.\<close>

definition steady :: "'a io \<Rightarrow> bool" where
  "steady m \<longleftrightarrow> (\<forall>w w'. val m w = val m w')"

lemma steady_ret: "steady (ret x)"
  by (simp add: steady_def)

lemma steady_bind: "steady m \<Longrightarrow> (\<And>x. steady (f x)) \<Longrightarrow> steady (m \<bind> f)"
  unfolding steady_def by (simp add: val_bind) metis

lemma steady_and_then: "steady m \<Longrightarrow> (\<And>x. steady (f x)) \<Longrightarrow> steady (and_then m f)"
  unfolding and_then_def by (rule steady_bind) (auto split: sum.split intro: steady_ret)

lemma steady_cases:
  "steady m \<Longrightarrow> steady n \<Longrightarrow> steady (if b then m else n)"
  "steady m \<Longrightarrow> (\<And>y. steady (f y)) \<Longrightarrow> steady (case x of None \<Rightarrow> m | Some y \<Rightarrow> f y)"
  "(\<And>y. steady (g y)) \<Longrightarrow> (\<And>y. steady (h y)) \<Longrightarrow> steady (case s of Inl y \<Rightarrow> g y | Inr y \<Rightarrow> h y)"
  "(\<And>y z. steady (k y z)) \<Longrightarrow> steady (case p of (y, z) \<Rightarrow> k y z)"
  "steady m \<Longrightarrow> (\<And>y z. steady (q y z)) \<Longrightarrow> steady (case l of [] \<Rightarrow> m | y # z \<Rightarrow> q y z)"
  "(\<And>y. steady (t y)) \<Longrightarrow> steady (let y = v in t y)"
  by (auto simp: Let_def split: option.split sum.split prod.split list.split)

lemmas steady_rules = steady_ret steady_bind steady_and_then steady_cases

definition steady_reads :: "Adapter \<Rightarrow> bool" where
  "steady_reads a \<longleftrightarrow>
     (\<forall>r i. steady (ad_GetRun a r i)) \<and> (\<forall>r i. steady (ad_ListRunJobs a r i)) \<and>
     (\<forall>r i n. steady (ad_DownloadRunLogs a r i n)) \<and> (\<forall>r opts n. steady (ad_ListRepositoryRuns a r opts n)) \<and>
     (\<forall>r i. steady (ad_GetCheckRun a r i)) \<and> (\<forall>r i. steady (ad_GetCheckRunAnnotations a r i)) \<and>
     (\<forall>r s. steady (ad_ListDeploymentBranchPolicies a r s))"

lemma steady_gate: "steady_reads a \<Longrightarrow> steady (diagnoseMetadataFailure a repository jobs)"
proof (induction jobs)
  case (Cons job jobs)
  have "steady (diagnose_job a repository job)"
    unfolding diagnose_job_def branch_policies_def
    by (intro steady_rules) (use Cons.prems in \<open>simp_all add: steady_reads_def\<close>)
  with Cons show ?case by (auto intro: steady_rules)
qed (simp add: steady_ret)

lemma steady_diagnosis:
  assumes "\<And>p a. Resolve (sv_providers s) p = Inr a \<Longrightarrow> steady_reads a"
    and "\<And>p u a l. ResolveRunURL (sv_providers s) p u = Inr (a, l) \<Longrightarrow> steady_reads a"
  shows "steady (Service.DiagnoseFailure s r n)"
proof -
  have resolved: "resolveProvider s p = Inr a \<Longrightarrow> steady_reads a" for p a
    using assms(1) by (auto simp: resolveProvider_def split: sum.splits)
  have latest: "steady_reads a \<Longrightarrow> steady (resolveLatestFailedRun s a repo)" for a repo
    unfolding resolveLatestFailedRun_def mapped_def by (intro steady_rules) (simp_all add: steady_reads_def)
  have ref: "steady (resolveRunReference s r True)"
    unfolding resolveRunReference_def using resolved latest
    by (cases "resolveProvider s (ref_Provider r)") (auto intro!: steady_rules)
  have reads: "steady_reads a" if "val (resolveRunReference s r True) w = Inr (a, l)" for w a l
    using that
  proof (cases rule: resolveRunReference_cases)
    case 1
    then show ?thesis using assms(2) by (auto simp: resolveProviderForRunURL_def split: sum.splits)
  qed (use resolved in blast)
  have rest: "steady_reads a \<Longrightarrow> steady (and_then (mapped a (ad_GetRun a repo i)) (\<lambda>run.
      and_then (mapped a (ad_ListRunJobs a repo i)) (\<lambda>jobs. do {
        gate \<leftarrow> diagnoseMetadataFailure a repo jobs;
        (case gate of Some x \<Rightarrow> ret (Inr x)
         | None \<Rightarrow> and_then (download_logs a l m) (\<lambda>logs. ret (Inr (diagnose_logs logs jobs))))})))" for a repo i l m
    unfolding mapped_def download_logs_def
    by (intro steady_rules steady_gate) (simp_all add: steady_reads_def)
  show ?thesis
    unfolding steady_def
  proof (intro allI)
    fix w w'
    have same: "val (resolveRunReference s r True) w' = val (resolveRunReference s r True) w"
      using ref by (simp add: steady_def)
    show "val (Service.DiagnoseFailure s r n) w = val (Service.DiagnoseFailure s r n) w'"
    proof (cases "val (resolveRunReference s r True) w")
      case (Inl e)
      then show ?thesis by (simp add: Service.DiagnoseFailure_def val_and_then same)
    next
      case (Inr al)
      obtain a l where al: "al = (a, l)" by (cases al)
      from rest [OF reads [OF Inr [unfolded al]]] show ?thesis
        unfolding Service.DiagnoseFailure_def val_and_then same Inr al sum.case prod.case Let_def steady_def by blast
    qed
  qed
qed

lemma fixture_steady: "steady_reads (fixture_adapter fixture)"
  unfolding steady_reads_def fixture_adapter_def adapter_def Adapter.select_convs adapter_defs for_repo_def
    NewProviderAdapter_def ProviderAdapter.select_convs benchmark_client_def providerClient.select_convs
  by (intro conjI allI steady_rules)

lemma fixture_diagnosis_steady: "steady (Service.DiagnoseFailure (fixture_service fixture) r n)"
proof (rule steady_diagnosis)
  show "steady_reads a" if "Resolve (sv_providers (fixture_service fixture)) p = Inr a" for p a
    using fixture_resolve [OF that [unfolded fixture_providers]] fixture_steady by simp
  show "steady_reads a" if "ResolveRunURL (sv_providers (fixture_service fixture)) p u = Inr (a, l)" for p u a l
    using fixture_resolve_url [OF that [unfolded fixture_providers]] fixture_steady by simp
qed

text \<open>What is judged of a case: all but the time it took.\<close>

definition judged :: "benchmarkCaseResult \<Rightarrow> benchmarkCaseResult" where
  "judged r = r\<lparr>br_LatencyMS := 0\<rparr>"

definition same_judgement :: "benchmarkReport result \<Rightarrow> benchmarkReport result \<Rightarrow> bool" where
  "same_judgement x y \<longleftrightarrow>
     (case x of
        Inl e \<Rightarrow> y = Inl e
      | Inr r \<Rightarrow>
          (case y of
             Inl _ \<Rightarrow> False
           | Inr r' \<Rightarrow> bm_Cases r = bm_Cases r' \<and> bm_Top1Accuracy r = bm_Top1Accuracy r' \<and>
               bm_Top3Accuracy r = bm_Top3Accuracy r' \<and> map judged (bm_Results r) = map judged (bm_Results r')))"

lemma evaluateFixture_judged:
  "map_sum id judged (val (evaluateFixture E fixture) w) = map_sum id judged (val (evaluateFixture E' fixture) w')"
proof -
  let ?m = "Service.DiagnoseFailure (fixture_service fixture)
    \<lparr>ref_Provider = [], ref_RunURL = cx_RunURL fixture, ref_RunID = 0, ref_Repository = []\<rparr> (cf_MaxLogBytes benchmark_config)"
  have "val ?m (after (now E) w) = val ?m (after (now E') w')"
    using fixture_diagnosis_steady unfolding steady_def by blast
  then show ?thesis
    by (simp add: evaluateFixture_def judged_def Let_def del: after_now split: sum.split)
qed

lemma evaluate_all_judged:
  "map judged rs = map judged rs' \<Longrightarrow>
   map_sum id (map judged) (val (evaluate_all E fixtures rs) w) =
   map_sum id (map judged) (val (evaluate_all E' fixtures rs') w')"
proof (induction fixtures arbitrary: rs rs' w w')
  case (Cons fixture fixtures)
  have one: "map_sum id judged (val (evaluateFixture E fixture) w) = map_sum id judged (val (evaluateFixture E' fixture) w')"
    by (rule evaluateFixture_judged)
  show ?case
  proof (cases "val (evaluateFixture E fixture) w"; cases "val (evaluateFixture E' fixture) w'")
    fix x y
    assume "val (evaluateFixture E fixture) w = Inr x" "val (evaluateFixture E' fixture) w' = Inr y"
    with one Cons.prems Cons.IH [of "rs @ [x]" "rs' @ [y]"] show ?thesis by (simp add: and_then_simps)
  qed (use one in \<open>auto simp: and_then_simps\<close>)
qed simp

lemma judged_matches:
  assumes "map judged rs = map judged rs'"
  shows "length rs = length rs'" "length (filter br_MatchedTop1 rs) = length (filter br_MatchedTop1 rs')"
    "length (filter br_MatchedTop3 rs) = length (filter br_MatchedTop3 rs')"
proof -
  have f: "length (filter P rs) = length (filter P rs')" if P: "\<And>r. P (judged r) = P r" for P
  proof -
    have m: "map P xs = map P (map judged xs)" for xs by (simp add: P)
    have l: "length (filter P xs) = length (filter id (map P xs))" for xs by (simp add: filter_map o_def)
    have "map P rs = map P (map judged rs')" unfolding assms [symmetric] by (rule m)
    also have "\<dots> = map P rs'" by (rule m [symmetric])
    finally have "map P rs = map P rs'" .
    then show ?thesis by (simp only: l)
  qed
  show "length rs = length rs'" using assms by (rule map_eq_imp_length_eq)
  show "length (filter br_MatchedTop1 rs) = length (filter br_MatchedTop1 rs')"
    "length (filter br_MatchedTop3 rs) = length (filter br_MatchedTop3 rs')"
    by (rule f; simp add: judged_def)+
qed

lemma summarizeResults_judged:
  "map judged rs = map judged rs' \<Longrightarrow> same_judgement (Inr (summarizeResults rs)) (Inr (summarizeResults rs'))"
  using judged_matches [of rs rs'] by (auto simp: same_judgement_def summarizeResults_def Let_def)

text \<open>C34. A benchmark is reproducible: with the same file, two runs of it agree, at whatever time and in whatever
  surroundings they are made, in the error or in every case of the report, its categories, its matches and both
  accuracies; only the latencies depend on the clock.\<close>

theorem report_reproducible: "same_judgement (val (report_of E payload) w) (val (report_of E' payload) w')"
proof (cases "Unmarshal (dec_slice dec_caseFixture) payload")
  case (Some fixtures)
  have all: "map_sum id (map judged) (val (evaluate_all E fixtures []) w) =
      map_sum id (map judged) (val (evaluate_all E' fixtures []) w')"
    by (rule evaluate_all_judged) simp
  show ?thesis
  proof (cases "val (evaluate_all E fixtures []) w"; cases "val (evaluate_all E' fixtures []) w'")
    fix rs rs'
    assume "val (evaluate_all E fixtures []) w = Inr rs" "val (evaluate_all E' fixtures []) w' = Inr rs'"
    with all Some show ?thesis
      using summarizeResults_judged [of rs rs'] by (simp add: report_of_def and_then_simps) (simp add: same_judgement_def)
  qed (use all Some in \<open>auto simp: report_of_def and_then_simps same_judgement_def\<close>)
qed (simp add: report_of_def same_judgement_def)

text \<open>
  The three categories are those of the logs alone, while the diagnosis may come from the annotations of a job:
  a case can be right at the first place and count as missed among the first three, so the top-1 accuracy of a
  report can exceed its top-3 accuracy.
\<close>

definition gated_fixture :: caseFixture where
  "gated_fixture = \<lparr>cx_Name = ''gate'', cx_RunURL = ''https://github.com/o/r/actions/runs/7'',
     cx_Logs = ''1 test failed'', cx_ExpectedCategory = ''config_error'',
     cx_Jobs = [fixture_job\<lparr>gj_CheckRunURL := ''https://api.github.com/repos/o/r/check-runs/5''\<rparr>], cx_CheckRun = None,
     cx_Annotations = [\<lparr>ga_Path = [], ga_StartLine = 1, ga_AnnotationLevel = ''failure'', ga_Title = [],
       ga_Message = ''Deployment was rejected'', ga_BlobHref = []\<rparr>],
     cx_BranchPolicies = []\<rparr>"

lemma gated_categories:
  "map rd_FailureCategory (RankFailureDiagnoses (cx_Logs gated_fixture) (providerJobsFromGitHub (cx_Jobs gated_fixture))) =
   [''test_failure''] \<and> TrimSpace (cx_Logs gated_fixture) \<noteq> ''''"
  by code_simp

lemma gated_check_run:
  "adapter_ParseCheckRunURL (NewProviderAdapter c (cf_GitHubAPIBaseURL benchmark_config))
     ''https://api.github.com/repos/o/r/check-runs/5'' = Inr 5"
  by code_simp

lemma gated_evidence:
  "TrimSpace ''https://api.github.com/repos/o/r/check-runs/5'' \<noteq> '''' \<and>
   ParseRepository ''o/r'' = Inr (''o'', ''r'') \<and>
   EqualFold ''failure'' ''failure'' \<and> target_environment \<noteq> '''' \<and>
   read_annotations (toProviderAnnotations (cx_Annotations gated_fixture)) [] '''' '''' =
     ([\<lparr>ev_Source = ''check_run_annotation'', ev_Line = 1, ev_Snippet = ''Deployment was rejected''\<rparr>], '''', '''') \<and>
   containsEnvProtectionEvidence
     [\<lparr>ev_Source = ''check_run_annotation'', ev_Line = 1, ev_Snippet = ''Deployment was rejected''\<rparr>]"
  by code_simp

lemma gated_reference:
  "TrimSpace (cx_RunURL gated_fixture) \<noteq> '''' \<and> TrimSpace '''' = '''' \<and>
   adapter_ParseRunURL (cx_RunURL gated_fixture) =
     Inr \<lparr>rl_Repository = ''o/r'', rl_RunID = 7, rl_RunURL = run_url ''o'' ''r'' 7\<rparr>"
  by code_simp

lemma fixture_resolves:
  "TrimSpace url \<noteq> '''' \<Longrightarrow> adapter_ParseRunURL url = Inr l \<Longrightarrow>
   resolveRunReference (fixture_service fixture)
     \<lparr>ref_Provider = [], ref_RunURL = url, ref_RunID = 0, ref_Repository = []\<rparr> True = ret (Inr (fixture_adapter fixture, l))"
  by (simp add: resolveRunReference_def resolveProviderForRunURL_def ResolveRunURL_def Let_def parse_with_def
      fixture_registry_def) (simp add: fixture_adapter_def adapter_def)

lemma gated_diagnosis:
  "\<exists>d recs. val (Service.DiagnoseFailure (fixture_service gated_fixture)
      \<lparr>ref_Provider = [], ref_RunURL = cx_RunURL gated_fixture, ref_RunID = 0, ref_Repository = []\<rparr> n) w = Inr (d, recs) \<and>
     fd_FailureCategory d = ''config_error''"
proof -
  have jobs: "toProviderJobs (cx_Jobs gated_fixture) = [\<lparr>job_ID = 0, job_Name = ''job'', job_Status = [],
     job_Conclusion = ''failure'', job_HeadBranch = [], job_StartedAt = None, job_CompletedAt = None, job_RunURL = [],
     job_CheckRunURL = ''https://api.github.com/repos/o/r/check-runs/5'', job_RunnerID = 0, job_Steps = []\<rparr>]"
    "cx_Jobs gated_fixture \<noteq> []"
    by (simp_all add: toProviderJobs_def gated_fixture_def fixture_job_def toProviderSteps_def)
  show ?thesis
    using gated_evidence gated_reference
    by (simp add: Service.DiagnoseFailure_def fixture_resolves Let_def and_then_simps mapped_def)
       (simp add: fixture_adapter_def adapter_def adapter_defs for_repo_def ownerRepo_def NewProviderAdapter_def
         benchmark_client_def and_then_simps jobs diagnose_job_def gated_check_run [unfolded NewProviderAdapter_def]
         diagnose_protection_def gate_diagnostic_def Let_def branch_policies_def deployed_environment_def)
qed

lemma top1_outside_top3:
  "\<exists>r. val (evaluateFixture E gated_fixture) w = Inr r \<and> br_MatchedTop1 r \<and> \<not> br_MatchedTop3 r"
proof -
  let ?m = "Service.DiagnoseFailure (fixture_service gated_fixture)
    \<lparr>ref_Provider = [], ref_RunURL = cx_RunURL gated_fixture, ref_RunID = 0, ref_Repository = []\<rparr> (cf_MaxLogBytes benchmark_config)"
  obtain d recs where d: "val ?m (after (now E) w) = Inr (d, recs)" "fd_FailureCategory d = ''config_error''"
    using gated_diagnosis by blast
  have top3: "topCategoriesForFixture gated_fixture x = Some [''test_failure'']" for x
    using gated_categories by (simp add: topCategoriesForFixture_def Let_def)
  have "cx_ExpectedCategory gated_fixture = ''config_error''" by (simp add: gated_fixture_def)
  then show ?thesis
    by (simp add: evaluateFixture_def d top3 elements_def containsCategory_def Let_def del: after_now)
qed

end
