(* ===== verification/Spec2Isabelle.thy ===== *)
theory Spec2Isabelle
  imports Interleaving Audit_Reader Export_Reader Benchmark
begin

text \<open>
  This development models pipeline-mcp, an MCP server in Go that lets a client look into the CI runs of a
  repository: fetch a run, explain a failed one, find flaky tests, compare two time windows, and, where the
  operator allows it, request a rerun. The theories follow the packages of the program; a definition carries
  the name of the Go function it translates (a suffix or the package's prefix where two packages share a
  name), and a Go struct is a record whose fields have the initials of the type in front.

  The parts, from the wire up.

    \<^item> \<open>Domain\<close>, \<open>Providers\<close>: internal/domain/types.go and internal/providers. The records that the parts
      exchange; the interface \<open>Adapter\<close> as a record of its methods; the registry of adapters with
      \<open>NewRegistry\<close>, \<open>Resolve\<close> and \<open>ResolveRunURL\<close>.
    \<^item> \<open>GitHub_Types\<close>, \<open>Client\<close>, \<open>Locator\<close>, \<open>GitHub_Adapter\<close>: internal/githubapi. The API's structs and how
      JSON fills them; requests, retries, paging, error classes and log archives; run URLs, repositories and
      check-run URLs; the adapter that presents the client, through the interface \<open>providerClient\<close>, to the rest of
      the program. \<open>Client_Calls\<close> has what a call costs and what it recovers from.
    \<^item> \<open>Redaction\<close>, \<open>Diagnosis\<close>, \<open>Flaky\<close>, \<open>Performance\<close>: internal/analysis. Secrets in logs, the ranked
      diagnosis of a failed run, the flaky-test report, the metrics of a window of runs.
    \<^item> \<open>Config\<close>, \<open>Audit_Log\<close>, \<open>Telemetry\<close>: config, internal/audit and internal/telemetry. The environment
      variables, the append-only log of reruns, the counters per tool and their export.
    \<^item> \<open>Deployment_Gates\<close>, \<open>Service\<close>: internal/service/service.go. The five operations over any registry;
      the diagnosis of jobs that failed before a step ran has a theory of its own.
    \<^item> \<open>Tools\<close>, \<open>Server\<close>: tools/registry.go and cmd/pipeline-mcp/main.go. The handlers of the five tools,
      the program as it is put together from the environment variables, a sequence of tool calls on it, and how
      it ends. \<open>Answers\<close> runs it against an API that holds a run; \<open>Interleaving\<close> lets the calls run at the same
      time, as an inductive step relation over the calls and the world.
    \<^item> \<open>Benchmark\<close>: cmd/benchmark/main.go, the tool that runs the diagnosis on recorded failures, with a client
      that answers from a fixture, up to the report it prints.

  Below them are the parts of Go's library that the program calls, written out as far as it uses them:
  \<open>Go_Prelude\<close> (64-bit integers that wrap around, sorting), \<open>Go_Strings\<close> (strings, strconv, fmt), \<open>Go_Regex\<close>
  (the patterns of the program, leftmost-first), \<open>Go_Time\<close> (instants, calendar, RFC 3339), \<open>Go_Net\<close> (paths and
  URLs), \<open>Go_Json\<close> (decoding and encoding, with \<open>Go_Json_Laws\<close> on what is read back), \<open>Go_Crypto\<close> (HMAC-SHA256), and \<open>World\<close>.

  State. \<open>World\<close> holds the state of the program and its surroundings: the trace of everything done so far
  (requests, waits, clock reads, log records, system calls), the files, and the counters of the collector.
  An operation that touches any of it is a state transformer (\<open>'a io\<close>); \<open>val m w\<close> is what it returns from
  \<open>w\<close>, and \<open>after m w\<close> the world it leaves. What the surroundings answer is a record \<open>env\<close> of functions of
  the trace: the API behind net/http, the cancellation of a context, the clock, every system call (which may
  fail, and write only a part), the reader of archive/zip, the decimal form of a float64, and the order in
  which a map is visited. No theorem assumes anything of them unless its hypotheses say so. Errors are values:
  \<open>go_error\<close> for Go's errors, with wrapping and \<open>errors.Is\<close>, and \<open>ToolError\<close> above the adapter.

  What the lemmas show.

    \<^item> Safety across the parts (\<open>Server\<close>): what each tool may send, from the environment variables to the
      wire; that nothing but reads leaves the program unless mutations are enabled; that every rerun that is
      sent is handed to the audit log; that the counters are those of the calls; and which run a reference
      means; with which exit code and which message it ends.
    \<^item> The whole way (\<open>Answers\<close>): against an API that serves a run, its jobs and its logs, what \<open>pipeline.get_run\<close> and
      \<open>pipeline.diagnose_failure\<close> answer, from the arguments of the call through resolution, requests, paging and
      JSON to the output; and that a rerun that may be made is requested once, answered and recorded.
    \<^item> Concurrency (\<open>Interleaving\<close>): invariants of all interleavings of the locked sections of concurrent calls, by
      rule induction: the counters are those of the calls answered so far, the audit log gains whole records; and
      the sequence of calls refines the step relation.
    \<^item> Redaction: no GitHub token and no AWS key id is left in redacted text, nor in the evidence that a
      diagnosis quotes from logs, nor in the names of a flaky-test report.
    \<^item> Diagnosis: the ranking is complete, exact, in order and backed by quotations of the log; the metadata
      diagnosis is backed by the annotations of the job it names; the flaky-test report and the window metrics
      count exactly what they say, with bounds on every rate.
    \<^item> Requests (\<open>Client\<close>, \<open>GitHub_Adapter\<close>): a call ends after at most three equal requests, recovers from
      transient failures, returns only bodies of successful responses; paging sends a bounded number of
      requests and returns the first runs of a server that pages correctly; the tool error of each status.
    \<^item> Stores (\<open>Audit_Log\<close>, \<open>Telemetry\<close>): an append keeps what the log held and adds one line, of which a
      decoder gets the event back (\<open>Audit_Reader\<close>); the counters refine a reference that sees all observations at once; an
      export leaves the current snapshot, which a decoder reads back (\<open>Export_Reader\<close>).
    \<^item> Round trips of run URLs, check-run URLs and dates, what a loaded configuration guarantees, and which
      registries exist.

  Effects are proved once per interface. A locale \<open>effect\<close> (\<open>World\<close>) says that a relation between worlds
  is kept by composing operations; \<open>provider\<close> (\<open>Providers\<close>) extends it with the reads of an adapter,
  \<open>provider_client\<close> (\<open>GitHub_Adapter\<close>) with those of the interface below it, from which an adapter's contract
  follows, \<open>client_effect\<close> (\<open>Client\<close>) with the requests of the client, \<open>read_service\<close> (\<open>Service\<close>) with the operations of
  the service, \<open>metered\<close> (\<open>Tools\<close>) with the counting of the handlers; \<open>audit_store\<close> (\<open>Audit_Log\<close>) is the
  contract of an append-only store. Each is interpreted on the model's own definitions, and the properties of
  the whole program rest on these interpretations.

  Bounds. Integers of the program are 64-bit: sums, differences and products that can overflow carry their
  wrap-around (\<open>wrap64\<close>), parsing checks the range, and a theorem that needs small numbers says so. Loops
  are structural recursions over the list they visit, over the attempts left (two after the first) or over the
  pages left (nine after the first). The JSON parser has fuel: each call consumes a character before every
  second step, so two per character of the text are enough.

  Not modelled, and why. float64 values are exact rationals: the quotients and thresholds of the program are
  computed without rounding, infinities or NaN; the one place where rounding could change an integer, the
  index of the percentile, is argued in \<open>Telemetry\<close>. The MCP library: what is modelled of it are the calls it
  delivers, one after the other in \<open>serve\<close> and interleaved in \<open>Interleaving\<close>, where a locked section is one step
  since the mutexes of the program make it atomic, and the error it ends with; its transport, the name and
  version it announces and its schema checks of arguments are not. Signals are the cancellation of the context.
  The attributes of log records, the closing of files, redirects inside net/http, the limit on the depth of
  nested JSON, and the texts of errors that Go's library makes for malformed JSON.
\<close>

end
